theory Spec2Isabelle
  imports Main "HOL-Library.Char_ord" "HOL-Library.List_Lexorder" "HOL-Library.AList"
begin

section \<open>Python values and exceptions\<close>

text \<open>
  Attribute values of a flow are untyped in the source: a parameter name, a default
  value or a server field may hold any object. \<open>pyval\<close> is the part of Python's value
  universe that can be stored there: \<open>None\<close>, booleans, integers, floats (kept as their
  literal, they are never computed with), strings, lists, tuples, dictionaries (as
  association lists in insertion order) and an opaque object of some other class.
\<close>

datatype pyval =
    PNone
  | PBool bool
  | PInt int
  | PFloat string
  | PStr string
  | PList "pyval list"
  | PTuple "pyval list"
  | PDict "(pyval \<times> pyval) list"
  | PObject string

text \<open>
  An exception is a value: its class and the constant part of its message. A function
  that can raise returns \<open>pyerr + 'a\<close>, with \<open>Inl\<close> for the exception.
\<close>

datatype pyerr =
    TypeError string
  | ValueError string
  | KeyError string
  | AttributeError string
  | IndexError string
  | AssertionError
  | ModuleNotFoundError string
  | PyOpenMLError string

definition is_str :: "pyval \<Rightarrow> bool" where
  "is_str v = (case v of PStr _ \<Rightarrow> True | _ \<Rightarrow> False)"

text \<open>\<open>value is not None and not isinstance(value, str)\<close>\<close>

definition not_none_not_str :: "pyval \<Rightarrow> bool" where
  "not_none_not_str v = (v \<noteq> PNone \<and> \<not> is_str v)"

section \<open>The flow entity (flows/flow.py)\<close>

text \<open>
  The scalar attributes of \<open>OpenMLFlow\<close>. The attribute \<open>model\<close> (the live estimator
  the flow was made from) is left out: no operation modelled here reads it.
\<close>

record flow_fields =
  name :: pyval
  description :: pyval
  external_version :: pyval
  tags :: pyval
  language :: pyval
  dependencies :: pyval
  class_name :: pyval
  custom_name :: pyval
  binary_url :: pyval
  binary_format :: pyval
  binary_md5 :: pyval
  uploader :: pyval
  upload_date :: pyval
  flow_id :: pyval
  version :: pyval

text \<open>
  A flow: its scalar attributes, the three ordered dictionaries \<open>components\<close>,
  \<open>parameters\<close> and \<open>parameters_meta_info\<close>, and \<open>_extension\<close> (the name of the
  extension that handles the flow, if one does).
\<close>

datatype flow =
  OpenMLFlow
    (attrs: flow_fields)
    (components: "(string \<times> flow) list")
    (parameters: "(pyval \<times> pyval) list")
    (parameters_meta_info: "(pyval \<times> pyval) list")
    (extension: "string option")

text \<open>
  An argument that the constructor requires to be an \<open>OrderedDict\<close>: either one, with
  its items, or an object of another type.
\<close>

datatype 'a odict_arg = OrderedDict "'a" | NotOrderedDict

subsection \<open>\<open>OpenMLFlow.__init__\<close>\<close>

text \<open>
  \<open>get_extension_by_flow\<close> lives in \<open>openml/extensions\<close>, outside the sources at hand;
  the constructor takes it as a parameter. It is called last, on the flow as assigned so
  far, and may raise.
\<close>

definition OpenMLFlow_init ::
  "(flow \<Rightarrow> pyerr + string option) \<Rightarrow> flow_fields \<Rightarrow> (string \<times> flow) list odict_arg \<Rightarrow>
   (pyval \<times> pyval) list odict_arg \<Rightarrow> (pyval \<times> pyval) list odict_arg \<Rightarrow> pyerr + flow" where
  "OpenMLFlow_init get_extension_by_flow args components_arg parameters_arg meta_arg =
    (case components_arg of
      NotOrderedDict \<Rightarrow> Inl (TypeError ''components must be of type OrderedDict'')
    | OrderedDict comps \<Rightarrow>
    (case parameters_arg of
      NotOrderedDict \<Rightarrow> Inl (TypeError ''parameters must be of type OrderedDict'')
    | OrderedDict params \<Rightarrow>
    (case meta_arg of
      NotOrderedDict \<Rightarrow> Inl (TypeError ''parameters_meta_info must be of type OrderedDict'')
    | OrderedDict meta \<Rightarrow>
      (let keys_parameters = set (map fst params);
           keys_parameters_meta_info = set (map fst meta)
       in
        if keys_parameters - keys_parameters_meta_info \<noteq> {} then
          Inl (ValueError ''Parameter only in parameters, but not in parameters_meta_info.'')
        else if keys_parameters_meta_info - keys_parameters \<noteq> {} then
          Inl (ValueError ''Parameter only in parameters_meta_info, but not in parameters.'')
        else
          (let self = OpenMLFlow
                 (args\<lparr>tags := (if tags args \<noteq> PNone then tags args else PList [])\<rparr>)
                 comps params meta None
           in case get_extension_by_flow self of
                Inl e \<Rightarrow> Inl e
              | Inr ext \<Rightarrow> Inr (OpenMLFlow (attrs self) comps params meta ext))))))"

subsection \<open>\<open>get_structure\<close>\<close>

text \<open>
  \<open>getattr(self, key_item)\<close> for the two attributes \<open>get_structure\<close> allows.
\<close>

definition identity_key :: "flow \<Rightarrow> string \<Rightarrow> pyval" where
  "identity_key f key_item = (if key_item = ''flow_id'' then flow_id (attrs f) else name (attrs f))"

text \<open>
  The result is a dictionary from identity keys to paths, read as a map: only lookups are
  made in it. The inner loop writes every entry of the component's structure, prefixed by
  the component's identifier, over what is there; the flow's own key is written last.
\<close>

fun get_structure :: "flow \<Rightarrow> string \<Rightarrow> pyerr + (pyval \<rightharpoonup> string list)"
  and get_structure_loop ::
    "(string \<times> flow) list \<Rightarrow> string \<Rightarrow> (pyval \<rightharpoonup> string list) \<Rightarrow> pyerr + (pyval \<rightharpoonup> string list)"
where
  "get_structure (OpenMLFlow a comps ps meta ext) key_item =
    (if key_item \<noteq> ''flow_id'' \<and> key_item \<noteq> ''name'' then
       Inl (ValueError ''key_item should be in {flow_id, name}'')
     else
       (case get_structure_loop comps key_item Map.empty of
          Inl e \<Rightarrow> Inl e
        | Inr structure \<Rightarrow>
            Inr (structure(identity_key (OpenMLFlow a comps ps meta ext) key_item \<mapsto> []))))"
| "get_structure_loop [] key_item structure = Inr structure"
| "get_structure_loop ((key, sub_flow) # rest) key_item structure =
    (case get_structure sub_flow key_item of
       Inl e \<Rightarrow> Inl e
     | Inr sub_structure \<Rightarrow>
         get_structure_loop rest key_item
           (structure ++ (\<lambda>flow_name. map_option ((#) key) (sub_structure flow_name))))"

text \<open>
  The component tree of a flow, each node with the identifiers to traverse from the root
  to reach it (the root with the empty path).
\<close>

fun all_nodes :: "flow \<Rightarrow> (string list \<times> flow) list"
  and all_nodes_list :: "(string \<times> flow) list \<Rightarrow> (string list \<times> flow) list"
where
  "all_nodes (OpenMLFlow a comps ps meta ext) =
     ([], OpenMLFlow a comps ps meta ext) # all_nodes_list comps"
| "all_nodes_list [] = []"
| "all_nodes_list ((key, sub_flow) # rest) =
     map (\<lambda>(p, g). (key # p, g)) (all_nodes sub_flow) @ all_nodes_list rest"

definition node_keys :: "string \<Rightarrow> (string list \<times> flow) list \<Rightarrow> pyval list" where
  "node_keys key_item nodes = map (\<lambda>(p, g). identity_key g key_item) nodes"

subsection \<open>\<open>get_subflow\<close>\<close>

text \<open>
  \<open>get_subflow\<close> copies its argument (\<open>structure = list(structure)\<close>) and pops from the
  copy. Whether the caller's list is touched depends on which list object is mutated, so
  path lists live in a store: a heap is the list of the list objects allocated so far, and
  a reference is an index into it. \<open>list(structure)\<close> allocates a new object at the end;
  \<open>structure.pop(0)\<close> replaces the object at the reference by its tail. A reference
  outside the heap denotes no object (Python has no such reference); the model answers
  with a \<open>TypeError\<close> there.
\<close>

type_synonym heap = "string list list"

function get_subflow :: "flow \<Rightarrow> nat \<Rightarrow> heap \<Rightarrow> (pyerr + flow) \<times> heap" where
  "get_subflow self structure h =
    (if \<not> structure < length h then (Inl (TypeError ''object is not iterable''), h)
     else
      (let h1 = h @ [h ! structure];
           structure' = length h
       in
        if length (h1 ! structure') < 1 then
          (Inl (ValueError ''Please provide a structure list of size >= 1''), h1)
        else
          (let sub_identifier = hd (h1 ! structure') in
           case map_of (components self) sub_identifier of
             None \<Rightarrow> (Inl (ValueError ''Flow does not contain component with identifier''), h1)
           | Some component \<Rightarrow>
               if length (h1 ! structure') = 1 then (Inr component, h1)
               else get_subflow component structure' (h1[structure' := tl (h1 ! structure')]))))"
  by pat_completeness auto
termination
  by (relation "measure (\<lambda>(self, structure, h). if structure < length h then length (h ! structure) else 0)")
     (auto simp: nth_append)

declare get_subflow.simps [simp del]

subsection \<open>\<open>_copy_server_fields\<close>\<close>

text \<open>
  The only function of the module that assigns to attributes of an existing flow. It
  mutates the target and, through the target's \<open>components\<close>, the target's components; the
  model returns the target as it is afterwards, together with the \<open>AssertionError\<close> if
  one stopped the walk (what was assigned before stays assigned).
\<close>

definition set_server_fields :: "flow_fields \<Rightarrow> flow \<Rightarrow> flow" where
  "set_server_fields src target =
     OpenMLFlow
       ((attrs target)\<lparr>flow_id := flow_id src, uploader := uploader src,
                        version := version src, upload_date := upload_date src\<rparr>)
       (components target) (parameters target) (parameters_meta_info target) (extension target)"

definition set_component :: "string \<Rightarrow> flow \<Rightarrow> flow \<Rightarrow> flow" where
  "set_component key c target =
     OpenMLFlow (attrs target) (AList.update key c (components target))
       (parameters target) (parameters_meta_info target) (extension target)"

fun copy_server_fields :: "flow \<Rightarrow> flow \<Rightarrow> pyerr option \<times> flow"
  and copy_server_fields_loop :: "(string \<times> flow) list \<Rightarrow> flow \<Rightarrow> pyerr option \<times> flow"
where
  "copy_server_fields (OpenMLFlow a comps ps meta ext) target_flow =
     copy_server_fields_loop comps (set_server_fields a target_flow)"
| "copy_server_fields_loop [] target_flow = (None, target_flow)"
| "copy_server_fields_loop ((key, component) # rest) target_flow =
    (case map_of (components target_flow) key of
       None \<Rightarrow> (Some AssertionError, target_flow)
     | Some target_component \<Rightarrow>
        (case copy_server_fields component target_component of
           (Some e, c') \<Rightarrow> (Some e, set_component key c' target_flow)
         | (None, c') \<Rightarrow> copy_server_fields_loop rest (set_component key c' target_flow)))"

subsection \<open>\<open>_to_dict\<close>\<close>

text \<open>
  The structured document \<open>_to_dict\<close> builds: nested ordered dictionaries with string keys,
  lists, and attribute values at the leaves.
\<close>

datatype xdoc = XLeaf pyval | XList "xdoc list" | XDict "(string \<times> xdoc) list"

text \<open>\<open>obj[key]\<close> on an attribute value, for a string key.\<close>

definition py_getitem :: "pyval \<Rightarrow> string \<Rightarrow> pyerr + pyval" where
  "py_getitem v key =
    (case v of
       PDict items \<Rightarrow>
         (case map_of items (PStr key) of None \<Rightarrow> Inl (KeyError key) | Some x \<Rightarrow> Inr x)
     | PStr _ \<Rightarrow> Inl (TypeError ''string indices must be integers'')
     | PList _ \<Rightarrow> Inl (TypeError ''list indices must be integers or slices, not str'')
     | PTuple _ \<Rightarrow> Inl (TypeError ''tuple indices must be integers or slices, not str'')
     | _ \<Rightarrow> Inl (TypeError ''object is not subscriptable''))"

definition add_if_nonempty :: "(string \<times> 'a) list \<Rightarrow> string \<Rightarrow> pyval \<Rightarrow> (pyval \<Rightarrow> 'a) \<Rightarrow> (string \<times> 'a) list" where
  "add_if_nonempty dic key v wrap = (if v \<noteq> PNone then AList.update key (wrap v) dic else dic)"

text \<open>
  The check loop over the items of one \<open>param_dict\<close>. Its keys are the literals
  \<open>oml:name\<close>, \<open>oml:data_type\<close>, \<open>oml:default_value\<close> and \<open>oml:description\<close>, strings by
  their type here, so the test on the key never fires; the test on \<open>value\<close> sees the
  parameter's name, its data type, its default value and its description.
\<close>

fun check_param_dict :: "(string \<times> pyval) list \<Rightarrow> pyerr + unit" where
  "check_param_dict [] = Inr ()"
| "check_param_dict ((k, v) # rest) =
    (if not_none_not_str v then
       Inl (ValueError ''Parameter value cannot be serialized. Only strings can be serialized.'')
     else check_param_dict rest)"

definition param_to_dict :: "(pyval \<times> pyval) list \<Rightarrow> pyval \<Rightarrow> pyval \<Rightarrow> pyerr + (string \<times> pyval) list" where
  "param_to_dict meta key default_value =
    (let param_dict = [(''oml:name'', key)] in
     case map_of meta key of
       None \<Rightarrow> Inl (KeyError ''parameters_meta_info'')
     | Some meta_info \<Rightarrow>
    (case py_getitem meta_info ''data_type'' of
       Inl e \<Rightarrow> Inl e
     | Inr data_type \<Rightarrow>
    (let param_dict = add_if_nonempty param_dict ''oml:data_type'' data_type id;
         param_dict = AList.update ''oml:default_value'' default_value param_dict
     in
     case py_getitem meta_info ''description'' of
       Inl e \<Rightarrow> Inl e
     | Inr descr \<Rightarrow>
    (let param_dict = add_if_nonempty param_dict ''oml:description'' descr id in
     case check_param_dict param_dict of
       Inl e \<Rightarrow> Inl e
     | Inr _ \<Rightarrow> Inr param_dict))))"

text \<open>
  The loop \<open>for key in self.parameters\<close>; \<open>self.parameters[key]\<close> is the value stored
  under the key.
\<close>

fun params_to_dict :: "(pyval \<times> pyval) list \<Rightarrow> (pyval \<times> pyval) list \<Rightarrow> (pyval \<times> pyval) list \<Rightarrow> pyerr + xdoc list" where
  "params_to_dict meta all_params [] = Inr []"
| "params_to_dict meta all_params ((key, _) # rest) =
    (case map_of all_params key of
       None \<Rightarrow> Inl (KeyError ''parameters'')
     | Some default_value \<Rightarrow>
        (case param_to_dict meta key default_value of
           Inl e \<Rightarrow> Inl e
         | Inr param_dict \<Rightarrow>
            (case params_to_dict meta all_params rest of
               Inl e \<Rightarrow> Inl e
             | Inr ds \<Rightarrow> Inr (XDict (map (\<lambda>(k, v). (k, XLeaf v)) param_dict) # ds))))"

definition head_attributes :: "flow_fields \<Rightarrow> (string \<times> pyval) list" where
  "head_attributes a =
     [(''uploader'', uploader a), (''name'', name a), (''custom_name'', custom_name a),
      (''class_name'', class_name a), (''version'', version a),
      (''external_version'', external_version a), (''description'', description a),
      (''upload_date'', upload_date a), (''language'', language a),
      (''dependencies'', dependencies a)]"

definition binary_attributes :: "flow_fields \<Rightarrow> (string \<times> pyval) list" where
  "binary_attributes a =
     [(''binary_url'', binary_url a), (''binary_format'', binary_format a),
      (''binary_md5'', binary_md5 a)]"

definition add_attributes :: "(string \<times> xdoc) list \<Rightarrow> (string \<times> pyval) list \<Rightarrow> (string \<times> xdoc) list" where
  "add_attributes dic items = fold (\<lambda>(attribute, v) d. add_if_nonempty d (''oml:'' @ attribute) v XLeaf) items dic"

fun to_dict :: "flow \<Rightarrow> pyerr + (string \<times> xdoc) list"
  and components_to_dict :: "(string \<times> flow) list \<Rightarrow> pyerr + xdoc list"
where
  "to_dict (OpenMLFlow a comps ps meta ext) =
    (let flow_dict = [(''@xmlns:oml'', XLeaf (PStr ''http://openml.org/openml''))];
         flow_dict = add_if_nonempty flow_dict ''oml:id'' (flow_id a) XLeaf
     in
     if name a = PNone then Inl (ValueError ''self.name is required but None'')
     else if external_version a = PNone then
       Inl (ValueError ''self.external_version is required but None'')
     else
      (let flow_dict = add_attributes flow_dict (head_attributes a) in
       case params_to_dict meta ps ps of
         Inl e \<Rightarrow> Inl e
       | Inr flow_parameters \<Rightarrow>
      (let flow_dict = AList.update ''oml:parameter'' (XList flow_parameters) flow_dict in
       case components_to_dict comps of
         Inl e \<Rightarrow> Inl e
       | Inr cs \<Rightarrow>
      (let flow_dict = AList.update ''oml:component'' (XList cs) flow_dict;
           flow_dict = AList.update ''oml:tag'' (XLeaf (tags a)) flow_dict;
           flow_dict = add_attributes flow_dict (binary_attributes a)
       in Inr [(''oml:flow'', XDict flow_dict)]))))"
| "components_to_dict [] = Inr []"
| "components_to_dict ((key, sub_flow) # rest) =
    (case to_dict sub_flow of
       Inl e \<Rightarrow> Inl e
     | Inr container \<Rightarrow>
        (case map_of container ''oml:flow'' of
           None \<Rightarrow> Inl (KeyError ''oml:flow'')
         | Some sub_dict \<Rightarrow>
            (case components_to_dict rest of
               Inl e \<Rightarrow> Inl e
             | Inr ds \<Rightarrow>
                 Inr (XDict [(''oml:identifier'', XLeaf (PStr key)), (''oml:flow'', sub_dict)] # ds))))"

subsection \<open>Example flows\<close>

text \<open>
  Three flows as the walker names them before publication (no server fields): \<open>A\<close> with
  component \<open>b\<close>, the flow \<open>B\<close>, which has component \<open>c\<close>, the flow \<open>C\<close>.
\<close>

definition example_fields :: "string \<Rightarrow> flow_fields" where
  "example_fields flow_name =
     \<lparr>name = PStr flow_name, description = PStr ''Automatically created scikit-learn flow.'',
      external_version = PStr ''openml==0.10.0,sklearn==0.21.2'', tags = PList [],
      language = PStr ''English'', dependencies = PStr ''sklearn==0.21.2'',
      class_name = PStr flow_name, custom_name = PNone, binary_url = PNone,
      binary_format = PNone, binary_md5 = PNone, uploader = PNone, upload_date = PNone,
      flow_id = PNone, version = PNone\<rparr>"

definition flow_C :: flow where
  "flow_C = OpenMLFlow (example_fields ''C'') [] [] [] None"

definition flow_B :: flow where
  "flow_B = OpenMLFlow (example_fields ''B'') [(''c'', flow_C)] [] [] None"

definition flow_A :: flow where
  "flow_A = OpenMLFlow (example_fields ''A'') [(''b'', flow_B)] [] [] None"

subsection \<open>Notions used to state the flow properties\<close>

text \<open>
  The key sets of \<open>parameters\<close> and \<open>parameters_meta_info\<close> at every node of a flow's
  component tree, each with the node's path.
\<close>

definition key_sets :: "flow \<Rightarrow> (string list \<times> pyval set \<times> pyval set) list" where
  "key_sets f =
     map (\<lambda>(p, g). (p, set (map fst (parameters g)), set (map fst (parameters_meta_info g))))
       (all_nodes f)"

text \<open>
  A flow that \<open>_to_dict\<close> can write: \<open>name\<close> and \<open>external_version\<close> are set, every
  parameter has its two metadata entries, and every parameter name, default value, data
  type and description is a string or \<open>None\<close>; the same for every component.
\<close>

text \<open>The parameter dictionaries themselves at every node.\<close>

definition node_sig :: "(string list \<times> flow) list \<Rightarrow> (string list \<times> (pyval \<times> pyval) list \<times> (pyval \<times> pyval) list) list" where
  "node_sig nodes = map (\<lambda>(p, g). (p, parameters g, parameters_meta_info g)) nodes"

definition str_or_none :: "pyval \<Rightarrow> bool" where
  "str_or_none v = (\<not> not_none_not_str v)"

definition writable_param :: "(pyval \<times> pyval) list \<Rightarrow> (pyval \<times> pyval) list \<Rightarrow> pyval \<Rightarrow> bool" where
  "writable_param meta ps key =
    (case (map_of ps key, map_of meta key) of
       (Some v, Some (PDict info)) \<Rightarrow>
         str_or_none key \<and> str_or_none v \<and>
         (case (map_of info (PStr ''data_type''), map_of info (PStr ''description'')) of
            (Some t, Some d) \<Rightarrow> str_or_none t \<and> str_or_none d
          | _ \<Rightarrow> False)
     | _ \<Rightarrow> False)"

fun writable :: "flow \<Rightarrow> bool"
  and writable_list :: "(string \<times> flow) list \<Rightarrow> bool"
where
  "writable (OpenMLFlow a comps ps meta ext) =
    (name a \<noteq> PNone \<and> external_version a \<noteq> PNone \<and>
     list_all (writable_param meta ps) (map fst ps) \<and> writable_list comps)"
| "writable_list [] = True"
| "writable_list ((key, sub_flow) # rest) = (writable sub_flow \<and> writable_list rest)"

definition flow_bad_value :: flow where
  "flow_bad_value =
     OpenMLFlow (example_fields ''sklearn.tree.tree.DecisionTreeClassifier'') []
       [(PStr ''max_depth'', PInt 5)]
       [(PStr ''max_depth'', PDict [(PStr ''description'', PNone), (PStr ''data_type'', PNone)])]
       None"

definition flow_good_value :: flow where
  "flow_good_value =
     OpenMLFlow (example_fields ''sklearn.tree.tree.DecisionTreeClassifier'') []
       [(PStr ''max_depth'', PStr ''5'')]
       [(PStr ''max_depth'', PDict [(PStr ''description'', PNone), (PStr ''data_type'', PNone)])]
       None"

section \<open>The scikit-learn extension (extensions/sklearn/extension.py)\<close>

subsection \<open>Objects\<close>

text \<open>
  What the extension needs to know of a class: its module and name, the qualified names
  of the classes it is an instance of (itself and its bases, for \<open>isinstance\<close>), the
  constructor parameters whose attribute raises a \<open>DeprecationWarning\<close> when read, and
  the signature of \<open>__init__\<close> as \<open>inspect.getfullargspec\<close> reports it: \<open>args\<close> (the
  positional parameters, with \<open>self\<close>), \<open>defaults\<close> (the defaults of the last of them,
  or \<open>None\<close>), \<open>kwonlyargs\<close> (the parameters after a \<open>*\<close>) and \<open>kwonlydefaults\<close> (the
  defaults of those that have one).
\<close>

datatype pyclass =
  PyClass
    (cls_module: string)
    (cls_name: string)
    (cls_bases: "string list")
    (init_args: "string list")
    (init_defaults: "pyval list option")
    (deprecated_args: "string list")
    (init_kwonlyargs: "string list")
    (init_kwonlydefaults: "(string \<times> pyval) list")

text \<open>
  The type objects in the table of \<open>_serialize_type\<close>: \<open>float\<close> (which \<open>np.float\<close> is
  another name of), \<open>np.float32\<close>, \<open>np.float64\<close>, \<open>int\<close> (also \<open>np.int\<close>), \<open>np.int32\<close>,
  \<open>np.int64\<close>; and any other builtin type, by name.
\<close>

datatype pytype = TFloat | TFloat32 | TFloat64 | TInt | TInt32 | TInt64 | TOther string

text \<open>
  The walkers inspect arbitrary objects at run time. \<open>obj\<close> is the universe they range
  over: the plain values; a numpy scalar, given by the plain value its \<open>item()\<close> returns
  (an \<open>OInt\<close> for the integer types, an \<open>OFloat\<close> for the floating types, an \<open>OBool\<close> for
  \<open>numpy.bool_\<close>);
  lists, tuples and dictionaries (the flag says \<open>OrderedDict\<close>); a builtin or numpy type
  object; a class; a module-level
  function; a frozen scipy distribution (the class path of its distribution, \<open>a\<close>, \<open>b\<close>,
  \<open>args\<close>, \<open>kwds\<close>); an estimator, that is an object with \<open>fit\<close>, \<open>get_params\<close> and
  \<open>set_params\<close>, given by its class and by what \<open>get_params(deep=False)\<close> returns (which are
  also its attributes); any other instance, by its class and attributes; and a flow.
\<close>

datatype obj =
    ONone
  | OBool bool
  | OInt int
  | OFloat string
  | OStr string
  | ONumpy obj
  | OList "obj list"
  | OTuple "obj list"
  | ODict bool "(obj \<times> obj) list"
  | OType pytype
  | OClass pyclass
  | OFunction string string
  | ORvFrozen string obj obj obj obj
  | OEstimator pyclass "(string \<times> obj) list"
  | OObject pyclass "(string \<times> obj) list"
  | OFlow flow

text \<open>An attribute value of a flow, seen as an object.\<close>

fun embed :: "pyval \<Rightarrow> obj" where
  "embed PNone = ONone"
| "embed (PBool b) = OBool b"
| "embed (PInt i) = OInt i"
| "embed (PFloat r) = OFloat r"
| "embed (PStr s) = OStr s"
| "embed (PList xs) = OList (map embed xs)"
| "embed (PTuple xs) = OTuple (map embed xs)"
| "embed (PDict kvs) = ODict False (map (\<lambda>(k, v). (embed k, embed v)) kvs)"
| "embed (PObject c) = OObject (PyClass [] c [] [] None [] [] []) []"

text \<open>
  A computation that may raise, and that may run out of the recursion budget it was
  given (\<open>None\<close>).
\<close>

type_synonym 'a result = "(pyerr + 'a) option"

definition ok :: "'a \<Rightarrow> 'a result" where
  "ok x = Some (Inr x)"

definition raise :: "pyerr \<Rightarrow> 'a result" where
  "raise e = Some (Inl e)"

definition bind_r :: "'a result \<Rightarrow> ('a \<Rightarrow> 'b result) \<Rightarrow> 'b result" where
  "bind_r m f = (case m of None \<Rightarrow> None | Some (Inl e) \<Rightarrow> Some (Inl e) | Some (Inr x) \<Rightarrow> f x)"

text \<open>
  The libraries and the interpreter state the extension calls into, none of them part of
  the sources at hand, are parameters of the model: \<open>json.dumps\<close> and \<open>json.loads\<close> (the
  latter \<open>None\<close> for a \<open>JSONDecodeError\<close>); \<open>getattr(importlib.import_module(m), a)\<close>;
  calling an object with keyword arguments; \<open>get_extension_by_flow\<close>; the \<open>__version__\<close>
  of an importable package, of \<open>openml\<close> and of \<open>sklearn\<close>; and the constructor of a
  frozen distribution, \<open>rv_frozen(rv_class(), *args, **kwds)\<close>, which answers with the
  \<open>args\<close> and \<open>kwds\<close> the new object holds.
\<close>

record env =
  json_dumps :: "obj \<Rightarrow> pyerr + string"
  json_loads :: "string \<Rightarrow> obj option"
  import_attr :: "string \<Rightarrow> string \<Rightarrow> pyerr + obj"
  py_call :: "obj \<Rightarrow> (obj \<times> obj) list \<Rightarrow> pyerr + obj"
  get_extension_by_flow :: "flow \<Rightarrow> pyerr + string option"
  package_version :: "string \<Rightarrow> pyerr + string"
  openml_version :: string
  sklearn_version :: string
  rv_frozen_new :: "obj \<Rightarrow> obj \<Rightarrow> obj \<Rightarrow> pyerr + obj \<times> obj"

subsection \<open>Strings, dictionaries\<close>

fun startswith :: "string \<Rightarrow> string \<Rightarrow> bool" where
  "startswith s [] = True"
| "startswith [] (p # ps) = False"
| "startswith (c # cs) (p # ps) = (c = p \<and> startswith cs ps)"

text \<open>\<open>sub in s\<close> for strings.\<close>

fun contains :: "string \<Rightarrow> string \<Rightarrow> bool" where
  "contains [] sub = (sub = [])"
| "contains (c # cs) sub = (startswith (c # cs) sub \<or> contains cs sub)"

text \<open>\<open>s.rsplit('.', 1)\<close>: the string cut at its last dot, or the string alone.\<close>

definition rsplit_dot :: "string \<Rightarrow> string list" where
  "rsplit_dot s =
    (let r = rev s;
         back = takeWhile (\<lambda>c. c \<noteq> CHR ''.'') r;
         front = dropWhile (\<lambda>c. c \<noteq> CHR ''.'') r
     in if front = [] then [s] else [rev (tl front), rev back])"

text \<open>
  \<open>getattr(importlib.import_module(module_name[0]), module_name[1])\<close> for
  \<open>module_name = name.rsplit('.', 1)\<close>: a name that is no string has no \<open>rsplit\<close>, and a
  name without a dot gives a list with no second element.
\<close>

definition import_path :: "env \<Rightarrow> obj \<Rightarrow> pyerr + obj" where
  "import_path E path =
    (case path of
       OStr s \<Rightarrow>
         (case rsplit_dot s of
            [m, a] \<Rightarrow> import_attr E m a
          | _ \<Rightarrow> (case import_attr E s [] of
                    Inl (ModuleNotFoundError x) \<Rightarrow> Inl (ModuleNotFoundError x)
                  | _ \<Rightarrow> Inl (IndexError ''list index out of range'')))
     | _ \<Rightarrow> Inl (AttributeError ''rsplit''))"

fun hashable :: "obj \<Rightarrow> bool" where
  "hashable (OList xs) = False"
| "hashable (ODict b kvs) = False"
| "hashable (OTuple xs) = list_all hashable xs"
| "hashable x = True"

text \<open>\<open>ob[key]\<close> for a string key.\<close>

definition py_subscript :: "obj \<Rightarrow> string \<Rightarrow> pyerr + obj" where
  "py_subscript ob key =
    (case ob of
       ODict b items \<Rightarrow>
         (case map_of items (OStr key) of None \<Rightarrow> Inl (KeyError key) | Some x \<Rightarrow> Inr x)
     | OStr s \<Rightarrow> Inl (TypeError ''string indices must be integers'')
     | OList xs \<Rightarrow> Inl (TypeError ''list indices must be integers or slices, not str'')
     | OTuple xs \<Rightarrow> Inl (TypeError ''tuple indices must be integers or slices, not str'')
     | _ \<Rightarrow> Inl (TypeError ''object is not subscriptable''))"

text \<open>\<open>components[key]\<close> in a dictionary whose keys are strings.\<close>

definition components_getitem :: "(string \<times> flow) list \<Rightarrow> obj \<Rightarrow> pyerr + flow" where
  "components_getitem comps key =
    (if \<not> hashable key then Inl (TypeError ''unhashable type'')
     else case key of
       OStr k \<Rightarrow> (case map_of comps k of None \<Rightarrow> Inl (KeyError k) | Some f \<Rightarrow> Inr f)
     | _ \<Rightarrow> Inl (KeyError ''key''))"

text \<open>
  \<open>sorted(o.items())\<close>. Items are compared by their keys, which are distinct. The model
  orders string keys (all that \<open>json.loads\<close> produces and all that the forward walker
  accepts) and integer keys; a dictionary with at most one item is never compared; any
  other mix of keys is answered with the \<open>TypeError\<close> that Python raises for keys of
  different kinds.
\<close>

definition str_key :: "obj \<times> obj \<Rightarrow> string" where
  "str_key kv = (case fst kv of OStr s \<Rightarrow> s | _ \<Rightarrow> [])"

definition int_key :: "obj \<times> obj \<Rightarrow> int" where
  "int_key kv = (case fst kv of OInt i \<Rightarrow> i | _ \<Rightarrow> 0)"

definition is_ostr :: "obj \<Rightarrow> bool" where
  "is_ostr x = (case x of OStr _ \<Rightarrow> True | _ \<Rightarrow> False)"

definition is_oint :: "obj \<Rightarrow> bool" where
  "is_oint x = (case x of OInt _ \<Rightarrow> True | _ \<Rightarrow> False)"

definition sorted_items :: "(obj \<times> obj) list \<Rightarrow> pyerr + (obj \<times> obj) list" where
  "sorted_items items =
    (if length items \<le> 1 then Inr items
     else if list_all (\<lambda>kv. is_ostr (fst kv)) items then Inr (sort_key str_key items)
     else if list_all (\<lambda>kv. is_oint (fst kv)) items then Inr (sort_key int_key items)
     else Inl (TypeError ''< not supported between instances''))"

subsection \<open>The inverse walker (flow to model)\<close>

text \<open>\<open>_is_sklearn_flow\<close>; a flow whose \<open>external_version\<close> is no string has no \<open>startswith\<close>.\<close>

definition is_sklearn_flow :: "flow \<Rightarrow> pyerr + bool" where
  "is_sklearn_flow f =
    (case external_version (attrs f) of
       PStr v \<Rightarrow> Inr (startswith v ''sklearn=='' \<or> contains v '',sklearn=='')
     | _ \<Rightarrow> Inl (AttributeError ''startswith''))"

text \<open>\<open>_deserialize_type\<close>: a lookup in a table whose keys are eight type names.\<close>

definition deserialize_type_table :: "(string \<times> pytype) list" where
  "deserialize_type_table =
     [(''float'', TFloat), (''np.float'', TFloat), (''np.float32'', TFloat32),
      (''np.float64'', TFloat64), (''int'', TInt), (''np.int'', TInt),
      (''np.int32'', TInt32), (''np.int64'', TInt64)]"

definition deserialize_type :: "obj \<Rightarrow> pyerr + obj" where
  "deserialize_type ob =
    (if \<not> hashable ob then Inl (TypeError ''unhashable type'')
     else case ob of
       OStr s \<Rightarrow>
         (case map_of deserialize_type_table s of None \<Rightarrow> Inl (KeyError s) | Some t \<Rightarrow> Inr (OType t))
     | _ \<Rightarrow> Inl (KeyError ''type''))"

text \<open>\<open>_deserialize_function\<close>\<close>

definition deserialize_function :: "env \<Rightarrow> obj \<Rightarrow> pyerr + obj" where
  "deserialize_function E nm = import_path E nm"

text \<open>
  \<open>_deserialize_rv_frozen\<close>. \<open>dist_name.rsplit\<close> stands before the \<open>try\<close>: a \<open>dist\<close> that
  is no string raises \<open>AttributeError\<close>. Inside the \<open>try\<close> only an \<open>AttributeError\<close> of the
  import is caught (the function then warns and returns \<open>None\<close>).
\<close>

definition deserialize_rv_frozen :: "env \<Rightarrow> obj \<Rightarrow> pyerr + obj" where
  "deserialize_rv_frozen E ob =
    (case py_subscript ob ''args'' of Inl e \<Rightarrow> Inl e | Inr args \<Rightarrow>
     case py_subscript ob ''kwds'' of Inl e \<Rightarrow> Inl e | Inr kwds \<Rightarrow>
     case py_subscript ob ''a'' of Inl e \<Rightarrow> Inl e | Inr a \<Rightarrow>
     case py_subscript ob ''b'' of Inl e \<Rightarrow> Inl e | Inr b \<Rightarrow>
     case py_subscript ob ''dist'' of Inl e \<Rightarrow> Inl e | Inr dist_name \<Rightarrow>
     case dist_name of
       OStr s \<Rightarrow>
        (case import_path E (OStr s) of
           Inl (AttributeError x) \<Rightarrow> Inr ONone
         | Inl e \<Rightarrow> Inl e
         | Inr rv_class \<Rightarrow>
            (case rv_frozen_new E rv_class args kwds of
               Inl e \<Rightarrow> Inl e
             | Inr (args', kwds') \<Rightarrow> Inr (ORvFrozen s a b args' kwds')))
     | _ \<Rightarrow> Inl (AttributeError ''rsplit''))"

text \<open>\<open>_get_fn_arguments_with_defaults(model_class.__init__)\<close>: the optional parameters.\<close>

definition get_fn_arguments_with_defaults :: "obj \<Rightarrow> pyerr + (string \<times> pyval) list" where
  "get_fn_arguments_with_defaults model_class =
    (case model_class of
       OClass c \<Rightarrow>
         (case init_defaults c of
            None \<Rightarrow> Inr []
          | Some ds \<Rightarrow> if ds = [] then Inr [] else Inr (zip (rev (init_args c)) (rev ds)))
     | _ \<Rightarrow> Inl (TypeError ''unsupported callable''))"

text \<open>
  The loops of the inverse walker, over the recursive call \<open>des\<close>. A list or tuple is
  decoded element by element, a plain mapping item by item (key, then value); the working
  copy of the components is handed from one call to the next, since a call may delete
  from it. The decoded items go into an \<open>OrderedDict\<close>, which raises \<open>TypeError\<close> for a
  decoded key that is not hashable (a key that was the JSON text of a list or of a
  dictionary).
\<close>

type_synonym pool = "(string \<times> flow) list option"

fun deserialize_elements ::
  "(obj \<Rightarrow> pool \<Rightarrow> (obj \<times> pool) result) \<Rightarrow> obj list \<Rightarrow> pool \<Rightarrow> (obj list \<times> pool) result" where
  "deserialize_elements des [] working = ok ([], working)"
| "deserialize_elements des (element # rest) working =
     bind_r (des element working) (\<lambda>(rval, working).
     bind_r (deserialize_elements des rest working) (\<lambda>(rvals, working).
     ok (rval # rvals, working)))"

fun deserialize_items ::
  "(obj \<Rightarrow> pool \<Rightarrow> (obj \<times> pool) result) \<Rightarrow> (obj \<times> obj) list \<Rightarrow> pool \<Rightarrow> (obj \<times> obj) list \<Rightarrow>
   ((obj \<times> obj) list \<times> pool) result" where
  "deserialize_items des [] working acc = ok (acc, working)"
| "deserialize_items des ((key, val) # rest) working acc =
     bind_r (des key working) (\<lambda>(k, working).
     bind_r (des val working) (\<lambda>(v, working).
     if \<not> hashable k then raise (TypeError ''unhashable type'')
     else deserialize_items des rest working (AList.update k v acc)))"

text \<open>
  The first loop of \<open>_deserialize_model\<close>: \<open>for name in parameters\<close>, decoding
  \<open>parameters.get(name)\<close> into \<open>parameter_dict[name]\<close>.
\<close>

fun deserialize_parameters ::
  "(obj \<Rightarrow> pool \<Rightarrow> (obj \<times> pool) result) \<Rightarrow> (pyval \<times> pyval) list \<Rightarrow> pyval list \<Rightarrow> pool \<Rightarrow>
   (obj \<times> obj) list \<Rightarrow> ((obj \<times> obj) list \<times> pool) result" where
  "deserialize_parameters des params [] working parameter_dict = ok (parameter_dict, working)"
| "deserialize_parameters des params (nm # rest) working parameter_dict =
     bind_r (des (case map_of params nm of Some v \<Rightarrow> embed v | None \<Rightarrow> ONone) working)
       (\<lambda>(rval, working).
     deserialize_parameters des params rest working (AList.update (embed nm) rval parameter_dict))"

text \<open>
  The second loop: \<open>for name in components\<close>, skipping what is already in
  \<open>parameter_dict\<close> and what a component reference has taken out of the working copy.
\<close>

fun deserialize_components ::
  "(obj \<Rightarrow> obj result) \<Rightarrow> (string \<times> flow) list \<Rightarrow> string list \<Rightarrow> (string \<times> flow) list \<Rightarrow>
   (obj \<times> obj) list \<Rightarrow> (obj \<times> obj) list result" where
  "deserialize_components des comps [] working parameter_dict = ok parameter_dict"
| "deserialize_components des comps (nm # rest) working parameter_dict =
    (if OStr nm \<in> set (map fst parameter_dict) then
       deserialize_components des comps rest working parameter_dict
     else if nm \<notin> set (map fst working) then
       deserialize_components des comps rest working parameter_dict
     else
       (case map_of comps nm of
          None \<Rightarrow> raise (KeyError nm)
        | Some val \<Rightarrow>
            bind_r (des (OFlow val)) (\<lambda>rval.
            deserialize_components des comps rest working
              (AList.update (OStr nm) rval parameter_dict))))"

text \<open>
  The loop under \<open>if keep_defaults\<close>: every parameter with a default that is no key of
  the flow's components is deleted from \<open>parameter_dict\<close>.
\<close>

fun drop_defaults :: "string list \<Rightarrow> string list \<Rightarrow> (obj \<times> obj) list \<Rightarrow> pyerr + (obj \<times> obj) list" where
  "drop_defaults [] component_keys parameter_dict = Inr parameter_dict"
| "drop_defaults (param # rest) component_keys parameter_dict =
    (if param \<notin> set component_keys then
       (if OStr param \<in> set (map fst parameter_dict) then
          drop_defaults rest component_keys (AList.delete (OStr param) parameter_dict)
        else Inl (KeyError param))
     else drop_defaults rest component_keys parameter_dict)"

text \<open>
  What \<open>_deserialize_model\<close> does with \<open>parameter_dict\<close> once both loops are done: import
  the class, drop the defaulted parameters if asked to, and give the keyword dictionary
  it will call the class with.
\<close>

definition constructor_arguments ::
  "env \<Rightarrow> flow \<Rightarrow> bool \<Rightarrow> (obj \<times> obj) list \<Rightarrow> pyerr + obj \<times> (obj \<times> obj) list" where
  "constructor_arguments E f keep_defaults parameter_dict =
    (case import_path E (embed (class_name (attrs f))) of
       Inl e \<Rightarrow> Inl e
     | Inr model_class \<Rightarrow>
        (if keep_defaults then
           (case get_fn_arguments_with_defaults model_class of
              Inl e \<Rightarrow> Inl e
            | Inr param_defaults \<Rightarrow>
               (case drop_defaults (map fst param_defaults) (map fst (components f)) parameter_dict of
                  Inl e \<Rightarrow> Inl e
                | Inr kwargs \<Rightarrow> Inr (model_class, kwargs)))
         else Inr (model_class, parameter_dict)))"

text \<open>The first step of \<open>_deserialize_sklearn\<close>: a string that parses as JSON is replaced by what it parses to.\<close>

definition json_decoded :: "env \<Rightarrow> obj \<Rightarrow> obj" where
  "json_decoded E ob =
    (case ob of
       OStr s \<Rightarrow> (case json_loads E s of Some v \<Rightarrow> v | None \<Rightarrow> ob)
     | _ \<Rightarrow> ob)"

text \<open>
  What a resolved component reference stands for: the component, a pair or a triple.
  \<open>val\<close> is the decoded \<open>value\<close> dictionary of the envelope.
\<close>

definition reference_result :: "obj \<Rightarrow> obj \<Rightarrow> obj \<Rightarrow> obj" where
  "reference_result val step_name component =
    (if step_name = ONone then component
     else case py_subscript val ''argument_1'' of
            Inl e \<Rightarrow> OTuple [step_name, component]
          | Inr argument_1 \<Rightarrow> OTuple [step_name, component, argument_1])"

text \<open>
  The branch for the tag \<open>component_reference\<close>, over the recursive call \<open>des\<close> (which is
  made without components): decode the \<open>value\<close> dictionary, decode the component stored
  under its \<open>key\<close>, and delete that key from the working copy.
\<close>

definition resolve_reference ::
  "(obj \<Rightarrow> bool \<Rightarrow> (obj \<times> pool) result) \<Rightarrow> pool \<Rightarrow> obj \<Rightarrow> bool \<Rightarrow> (obj \<times> pool) result" where
  "resolve_reference des working val initialize_with_defaults =
    (case working of
       None \<Rightarrow> raise AssertionError
     | Some comps \<Rightarrow>
        bind_r (des val False) (\<lambda>(val, unused).
        bind_r (Some (py_subscript val ''step_name'')) (\<lambda>step_name.
        bind_r (Some (py_subscript val ''key'')) (\<lambda>key.
        bind_r (Some (components_getitem comps key)) (\<lambda>component_flow.
        bind_r (des (OFlow component_flow) initialize_with_defaults) (\<lambda>(component, unused).
        ok (reference_result val step_name component,
            Some (AList.delete (case key of OStr k \<Rightarrow> k | _ \<Rightarrow> []) comps))))))))"

text \<open>
  \<open>_deserialize_sklearn\<close>, \<open>_deserialize_model\<close> and \<open>_deserialize_cross_validator\<close> call
  each other; the string decoded at one level may hold strings to decode at the next, so
  the recursion is bounded by a budget (the first numeric argument), one unit per call.
  \<open>working\<close> (the source's \<open>components\<close> argument) is the working copy of the enclosing flow's components, or \<open>None\<close>; it comes
  back with the result, less the components that references have resolved.
\<close>

fun deserialize_sklearn :: "env \<Rightarrow> nat \<Rightarrow> obj \<Rightarrow> pool \<Rightarrow> bool \<Rightarrow> (obj \<times> pool) result"
  and deserialize_model :: "env \<Rightarrow> nat \<Rightarrow> flow \<Rightarrow> bool \<Rightarrow> obj result"
  and deserialize_cross_validator :: "env \<Rightarrow> nat \<Rightarrow> obj \<Rightarrow> obj result"
where
  "deserialize_sklearn E 0 ob working initialize_with_defaults = None"
| "deserialize_sklearn E (Suc n) ob working initialize_with_defaults =
    (case json_decoded E ob of
       ODict ordered items \<Rightarrow>
        (case map_of items (OStr ''oml-python:serialized_object'') of
           Some serialized_type \<Rightarrow>
            (case map_of items (OStr ''value'') of
               None \<Rightarrow> raise (KeyError ''value'')
             | Some val \<Rightarrow>
                if serialized_type = OStr ''type'' then
                  bind_r (Some (deserialize_type val)) (\<lambda>rval. ok (rval, working))
                else if serialized_type = OStr ''rv_frozen'' then
                  bind_r (Some (deserialize_rv_frozen E val)) (\<lambda>rval. ok (rval, working))
                else if serialized_type = OStr ''function'' then
                  bind_r (Some (deserialize_function E val)) (\<lambda>rval. ok (rval, working))
                else if serialized_type = OStr ''component_reference'' then
                  resolve_reference (\<lambda>x i. deserialize_sklearn E n x None i) working val
                    initialize_with_defaults
                else if serialized_type = OStr ''cv_object'' then
                  bind_r (deserialize_cross_validator E n val) (\<lambda>rval. ok (rval, working))
                else raise (ValueError ''Cannot flow_to_sklearn''))
         | None \<Rightarrow>
            bind_r (Some (sorted_items items)) (\<lambda>sorted.
            bind_r (deserialize_items
                      (\<lambda>x c. deserialize_sklearn E n x c initialize_with_defaults) sorted working [])
              (\<lambda>(rval, working). ok (ODict True rval, working))))
     | OList elements \<Rightarrow>
         bind_r (deserialize_elements
                   (\<lambda>x c. deserialize_sklearn E n x c initialize_with_defaults) elements working)
           (\<lambda>(rval, working). ok (OList rval, working))
     | OTuple elements \<Rightarrow>
         bind_r (deserialize_elements
                   (\<lambda>x c. deserialize_sklearn E n x c initialize_with_defaults) elements working)
           (\<lambda>(rval, working). ok (OTuple rval, working))
     | ONone \<Rightarrow> ok (ONone, working)
     | OBool b \<Rightarrow> ok (OBool b, working)
     | OInt i \<Rightarrow> ok (OInt i, working)
     | OFloat r \<Rightarrow> ok (OFloat r, working)
     | OStr s \<Rightarrow> ok (OStr s, working)
     | OFlow f \<Rightarrow>
        (case is_sklearn_flow f of
           Inl e \<Rightarrow> raise e
         | Inr sk \<Rightarrow>
            if \<not> sk then raise (ValueError ''Only sklearn flows can be reinstantiated'')
            else bind_r (deserialize_model E n f initialize_with_defaults)
                   (\<lambda>rval. ok (rval, working)))
     | other \<Rightarrow> raise (TypeError ''o''))"
| "deserialize_model E 0 f keep_defaults = None"
| "deserialize_model E (Suc n) f keep_defaults =
     bind_r (deserialize_parameters (\<lambda>x c. deserialize_sklearn E n x c keep_defaults)
               (parameters f) (map fst (parameters f)) (Some (components f)) [])
       (\<lambda>(parameter_dict, working).
     bind_r (deserialize_components
               (\<lambda>x. bind_r (deserialize_sklearn E n x None False) (\<lambda>(rval, unused). ok rval))
               (components f) (map fst (components f))
               (case working of Some w \<Rightarrow> w | None \<Rightarrow> []) parameter_dict)
       (\<lambda>parameter_dict.
     bind_r (Some (constructor_arguments E f keep_defaults parameter_dict))
       (\<lambda>(model_class, kwargs). Some (py_call E model_class kwargs))))"
| "deserialize_cross_validator E 0 val = None"
| "deserialize_cross_validator E (Suc n) val =
     bind_r (Some (py_subscript val ''name'')) (\<lambda>model_name.
     bind_r (Some (py_subscript val ''parameters'')) (\<lambda>params.
     bind_r (Some (import_path E model_name)) (\<lambda>model_class.
     (case params of
        ODict ordered items \<Rightarrow>
          bind_r (deserialize_elements
                    (\<lambda>x c. deserialize_sklearn E n x None False) (map snd items) None)
            (\<lambda>(rvals, unused). Some (py_call E model_class (zip (map fst items) rvals)))
      | other \<Rightarrow> raise (TypeError ''parameters'')))))"

text \<open>\<open>flow_to_model\<close>\<close>

definition flow_to_model :: "env \<Rightarrow> nat \<Rightarrow> obj \<Rightarrow> bool \<Rightarrow> obj result" where
  "flow_to_model E n ob initialize_with_defaults =
     bind_r (deserialize_sklearn E n ob None initialize_with_defaults) (\<lambda>(rval, unused). ok rval)"

subsection \<open>A fragment of the \<open>json\<close> module, for concrete runs\<close>

text \<open>
  The theorems below hold for any \<open>json_dumps\<close> and \<open>json_loads\<close>. Concrete runs need a
  concrete pair: the following is \<open>json.dumps\<close> and \<open>json.loads\<close> with their default
  options, on the objects of the model. Two things are as the model has them: a float is
  the text \<open>json.dumps\<close> writes for it (\<open>OFloat\<close> holds that text, and the parser keeps
  the literal it reads), and a string is a list of 8-bit characters, the code points
  below 256, so that an escape \<open>\uXXXX\<close> for a code point beyond has no value here.
\<close>

definition digit_char :: "nat \<Rightarrow> char" where
  "digit_char d = ''0123456789'' ! d"

fun nat_digits :: "nat \<Rightarrow> string" where
  "nat_digits n = (if n < 10 then [digit_char n] else nat_digits (n div 10) @ [digit_char (n mod 10)])"

declare nat_digits.simps [simp del]

definition int_repr :: "int \<Rightarrow> string" where
  "int_repr i = (if i < 0 then CHR ''-'' # nat_digits (nat (- i)) else nat_digits (nat i))"

text \<open>
  \<open>ensure_ascii\<close> is on: besides the quote, the backslash and the five control characters
  with a short escape, every character outside the range from the space to the tilde is
  written \<open>\u00XX\<close>.
\<close>

definition hex_char :: "nat \<Rightarrow> char" where
  "hex_char d = ''0123456789abcdef'' ! d"

definition json_escape :: "char \<Rightarrow> string" where
  "json_escape c =
    (if c = CHR 0x22 then [CHR 0x5C, CHR 0x22]
     else if c = CHR 0x5C then [CHR 0x5C, CHR 0x5C]
     else if c = CHR 0x0A then [CHR 0x5C, CHR ''n'']
     else if c = CHR 0x09 then [CHR 0x5C, CHR ''t'']
     else if c = CHR 0x0D then [CHR 0x5C, CHR ''r'']
     else if c = CHR 0x08 then [CHR 0x5C, CHR ''b'']
     else if c = CHR 0x0C then [CHR 0x5C, CHR ''f'']
     else if (of_char c :: nat) < 32 \<or> 126 < (of_char c :: nat) then
       [CHR 0x5C, CHR ''u'', CHR ''0'', CHR ''0'',
        hex_char (of_char c div 16), hex_char (of_char c mod 16)]
     else [c])"

definition json_quote :: "string \<Rightarrow> string" where
  "json_quote s = [CHR 0x22] @ concat (map json_escape s) @ [CHR 0x22]"

fun join :: "string \<Rightarrow> string list \<Rightarrow> string" where
  "join sep [] = []"
| "join sep [x] = x"
| "join sep (x # y # ys) = x @ sep @ join sep (y # ys)"

fun collect :: "(pyerr + 'a) list \<Rightarrow> pyerr + 'a list" where
  "collect [] = Inr []"
| "collect (Inl e # rest) = Inl e"
| "collect (Inr x # rest) = (case collect rest of Inl e \<Rightarrow> Inl e | Inr xs \<Rightarrow> Inr (x # xs))"

text \<open>A key of a dictionary is written as a string: a string, or the text of a number, a boolean or \<open>None\<close>.\<close>

definition key_text :: "obj \<Rightarrow> string option" where
  "key_text k =
    (case k of
       OStr s \<Rightarrow> Some s
     | OInt i \<Rightarrow> Some (int_repr i)
     | OFloat r \<Rightarrow> Some r
     | OBool b \<Rightarrow> Some (if b then ''true'' else ''false'')
     | ONone \<Rightarrow> Some ''null''
     | _ \<Rightarrow> None)"

fun dumps :: "obj \<Rightarrow> pyerr + string"
  and dumps_member :: "obj \<times> obj \<Rightarrow> pyerr + string"
where
  "dumps ONone = Inr ''null''"
| "dumps (OBool b) = Inr (if b then ''true'' else ''false'')"
| "dumps (OInt i) = Inr (int_repr i)"
| "dumps (OFloat r) = Inr r"
| "dumps (OStr s) = Inr (json_quote s)"
| "dumps (OList xs) =
     (case collect (map dumps xs) of Inl e \<Rightarrow> Inl e | Inr ss \<Rightarrow> Inr (''['' @ join '', '' ss @ '']''))"
| "dumps (OTuple xs) =
     (case collect (map dumps xs) of Inl e \<Rightarrow> Inl e | Inr ss \<Rightarrow> Inr (''['' @ join '', '' ss @ '']''))"
| "dumps (ODict b kvs) =
     (case collect (map dumps_member kvs) of
        Inl e \<Rightarrow> Inl e
      | Inr ss \<Rightarrow> Inr (''{'' @ join '', '' ss @ ''}''))"
| "dumps (ONumpy x) = Inl (TypeError ''Object is not JSON serializable'')"
| "dumps (OType t) = Inl (TypeError ''Object is not JSON serializable'')"
| "dumps (OClass c) = Inl (TypeError ''Object is not JSON serializable'')"
| "dumps (OFunction m f) = Inl (TypeError ''Object is not JSON serializable'')"
| "dumps (ORvFrozen d a b args kwds) = Inl (TypeError ''Object is not JSON serializable'')"
| "dumps (OEstimator c ps) = Inl (TypeError ''Object is not JSON serializable'')"
| "dumps (OObject c ps) = Inl (TypeError ''Object is not JSON serializable'')"
| "dumps (OFlow f) = Inl (TypeError ''Object is not JSON serializable'')"
| "dumps_member (k, v) =
     (case key_text k of
        None \<Rightarrow> Inl (TypeError ''keys must be str, int, float, bool or None'')
      | Some s \<Rightarrow> (case dumps v of Inl e \<Rightarrow> Inl e | Inr t \<Rightarrow> Inr (json_quote s @ '': '' @ t)))"

definition is_ws :: "char \<Rightarrow> bool" where
  "is_ws c = (c = CHR '' '' \<or> c = CHR 0x0A \<or> c = CHR 0x09 \<or> c = CHR 0x0D)"

fun skip_ws :: "string \<Rightarrow> string" where
  "skip_ws [] = []"
| "skip_ws (c # cs) = (if is_ws c then skip_ws cs else c # cs)"

definition digit_value :: "char \<Rightarrow> nat option" where
  "digit_value c = map_of (zip ''0123456789'' [0, 1, 2, 3, 4, 5, 6, 7, 8, 9]) c"

fun parse_digits :: "string \<Rightarrow> nat \<Rightarrow> nat \<times> string" where
  "parse_digits [] acc = (acc, [])"
| "parse_digits (c # cs) acc =
    (case digit_value c of None \<Rightarrow> (acc, c # cs) | Some d \<Rightarrow> parse_digits cs (10 * acc + d))"

definition take_digits :: "string \<Rightarrow> string" where
  "take_digits s = takeWhile (\<lambda>c. digit_value c \<noteq> None) s"

text \<open>
  A number, as the scanner of the \<open>json\<close> module matches it: an integer part with no
  leading zero, then a fraction (a point and digits) if there is one, then an exponent if
  there is one. It is a float when it has a fraction or an exponent, and an integer
  otherwise; what follows the match is left to the caller. The argument starts after the
  sign.
\<close>

definition fraction_part :: "string \<Rightarrow> string" where
  "fraction_part s =
    (case s of
       c # cs \<Rightarrow> if c = CHR ''.'' \<and> take_digits cs \<noteq> [] then c # take_digits cs else []
     | [] \<Rightarrow> [])"

definition exponent_part :: "string \<Rightarrow> string" where
  "exponent_part s =
    (case s of
       c # cs \<Rightarrow>
        if c = CHR ''e'' \<or> c = CHR ''E'' then
          (case cs of
             d # ds \<Rightarrow>
               if d = CHR ''+'' \<or> d = CHR ''-'' then
                 (if take_digits ds \<noteq> [] then c # d # take_digits ds else [])
               else if take_digits cs \<noteq> [] then c # take_digits cs
               else []
           | [] \<Rightarrow> [])
        else []
     | [] \<Rightarrow> [])"

definition parse_number :: "bool \<Rightarrow> string \<Rightarrow> (obj \<times> string) option" where
  "parse_number negative s =
    (case s of
       [] \<Rightarrow> None
     | c # cs \<Rightarrow>
        (case digit_value c of
           None \<Rightarrow> None
         | Some d \<Rightarrow>
            (let (n, rest) = (if d = 0 then (0, cs) else parse_digits cs d);
                 integer = take (length s - length rest) s;
                 frac = fraction_part rest;
                 rest = drop (length frac) rest;
                 exponent = exponent_part rest;
                 rest = drop (length exponent) rest
             in if frac = [] \<and> exponent = [] then
                  Some (OInt (if negative then - int n else int n), rest)
                else
                  Some (OFloat ((if negative then ''-'' else []) @ integer @ frac @ exponent), rest))))"

text \<open>
  A string, from after its opening quote. A control character must be escaped; \<open>\uXXXX\<close>
  is read for a code point below 256.
\<close>

definition hex_value :: "char \<Rightarrow> nat option" where
  "hex_value c =
     map_of (zip ''0123456789abcdefABCDEF''
               [0, 1, 2, 3, 4, 5, 6, 7, 8, 9, 10, 11, 12, 13, 14, 15, 10, 11, 12, 13, 14, 15]) c"

definition unicode_escape :: "string \<Rightarrow> char option" where
  "unicode_escape s =
    (case map hex_value (take 4 s) of
       [Some a, Some b, Some c, Some d] \<Rightarrow>
         if a = 0 \<and> b = 0 then Some (char_of (16 * c + d)) else None
     | _ \<Rightarrow> None)"

fun parse_string :: "string \<Rightarrow> string \<Rightarrow> (string \<times> string) option" where
  "parse_string [] acc = None"
| "parse_string [c] acc = (if c = CHR 0x22 then Some (rev acc, []) else None)"
| "parse_string (c # d # cs) acc =
    (if c = CHR 0x22 then Some (rev acc, d # cs)
     else if c = CHR 0x5C then
       (if d = CHR 0x22 \<or> d = CHR 0x5C \<or> d = CHR ''/'' then parse_string cs (d # acc)
        else if d = CHR ''n'' then parse_string cs (CHR 0x0A # acc)
        else if d = CHR ''t'' then parse_string cs (CHR 0x09 # acc)
        else if d = CHR ''r'' then parse_string cs (CHR 0x0D # acc)
        else if d = CHR ''b'' then parse_string cs (CHR 0x08 # acc)
        else if d = CHR ''f'' then parse_string cs (CHR 0x0C # acc)
        else if d = CHR ''u'' then
          (case unicode_escape cs of
             None \<Rightarrow> None
           | Some u \<Rightarrow> parse_string (drop 4 cs) (u # acc))
        else None)
     else if (of_char c :: nat) < 32 then None
     else parse_string (d # cs) (c # acc))"

fun parse_value :: "nat \<Rightarrow> string \<Rightarrow> (obj \<times> string) option"
  and parse_elements :: "nat \<Rightarrow> string \<Rightarrow> obj list \<Rightarrow> (obj \<times> string) option"
  and parse_members :: "nat \<Rightarrow> string \<Rightarrow> (obj \<times> obj) list \<Rightarrow> (obj \<times> string) option"
where
  "parse_value 0 s = None"
| "parse_value (Suc n) s =
    (case skip_ws s of
       [] \<Rightarrow> None
     | c # cs \<Rightarrow>
        if startswith (c # cs) ''null'' then Some (ONone, drop 4 (c # cs))
        else if startswith (c # cs) ''true'' then Some (OBool True, drop 4 (c # cs))
        else if startswith (c # cs) ''false'' then Some (OBool False, drop 5 (c # cs))
        else if c = CHR 0x22 then
          (case parse_string cs [] of None \<Rightarrow> None | Some (str, rest) \<Rightarrow> Some (OStr str, rest))
        else if c = CHR ''['' then
          (case skip_ws cs of
             [] \<Rightarrow> None
           | d # ds \<Rightarrow> if d = CHR '']'' then Some (OList [], ds) else parse_elements n (d # ds) [])
        else if c = CHR ''{'' then
          (case skip_ws cs of
             [] \<Rightarrow> None
           | d # ds \<Rightarrow> if d = CHR ''}'' then Some (ODict False [], ds) else parse_members n (d # ds) [])
        else if startswith (c # cs) ''NaN'' then Some (OFloat ''NaN'', drop 3 (c # cs))
        else if startswith (c # cs) ''Infinity'' then Some (OFloat ''Infinity'', drop 8 (c # cs))
        else if startswith (c # cs) ''-Infinity'' then Some (OFloat ''-Infinity'', drop 9 (c # cs))
        else if c = CHR ''-'' then parse_number True cs
        else parse_number False (c # cs))"
| "parse_elements 0 s acc = None"
| "parse_elements (Suc n) s acc =
    (case parse_value n s of
       None \<Rightarrow> None
     | Some (v, rest) \<Rightarrow>
        (case skip_ws rest of
           [] \<Rightarrow> None
         | c # cs \<Rightarrow>
            if c = CHR '','' then parse_elements n cs (acc @ [v])
            else if c = CHR '']'' then Some (OList (acc @ [v]), cs)
            else None))"
| "parse_members 0 s acc = None"
| "parse_members (Suc n) s acc =
    (case skip_ws s of
       [] \<Rightarrow> None
     | q # qs \<Rightarrow>
        if q \<noteq> CHR 0x22 then None
        else
         (case parse_string qs [] of
            None \<Rightarrow> None
          | Some (key, rest) \<Rightarrow>
             (case skip_ws rest of
                [] \<Rightarrow> None
              | c # cs \<Rightarrow>
                 if c \<noteq> CHR '':'' then None
                 else
                  (case parse_value n cs of
                     None \<Rightarrow> None
                   | Some (v, rest) \<Rightarrow>
                      (case skip_ws rest of
                         [] \<Rightarrow> None
                       | d # ds \<Rightarrow>
                          if d = CHR '','' then parse_members n ds (AList.update (OStr key) v acc)
                          else if d = CHR ''}'' then Some (ODict False (AList.update (OStr key) v acc), ds)
                          else None)))))"

definition loads :: "string \<Rightarrow> obj option" where
  "loads s =
    (case parse_value (Suc (length s)) s of
       None \<Rightarrow> None
     | Some (v, rest) \<Rightarrow> if skip_ws rest = [] then Some v else None)"

subsection \<open>The forward walker (model to flow)\<close>

text \<open>\<open>_check_multiple_occurence_of_component_in_flow\<close>: the number of flows in a forest bounds the loop.\<close>

fun count_flows :: "flow \<Rightarrow> nat"
  and count_flows_list :: "(string \<times> flow) list \<Rightarrow> nat"
where
  "count_flows (OpenMLFlow a comps ps meta ext) = Suc (count_flows_list comps)"
| "count_flows_list [] = 0"
| "count_flows_list ((key, sub_flow) # rest) = count_flows sub_flow + count_flows_list rest"

text \<open>
  The stack is a Python list: \<open>pop()\<close> takes its last element, \<open>extend\<close> appends the
  values of the visited flow's components. \<open>known_sub_components\<close> is a set of names.
\<close>

function check_loop :: "flow list \<Rightarrow> pyval set \<Rightarrow> pyerr + unit" where
  "check_loop to_visit_stack known_sub_components =
    (if to_visit_stack = [] then Inr ()
     else
      (let visitee = last to_visit_stack;
           to_visit_stack = butlast to_visit_stack
       in if name (attrs visitee) \<in> known_sub_components then
            Inl (ValueError ''Found a second occurence of component'')
          else check_loop (to_visit_stack @ map snd (components visitee))
                 (insert (name (attrs visitee)) known_sub_components)))"
  by pat_completeness auto
termination
proof (relation "measure (\<lambda>(st, known). sum_list (map count_flows st))")
  show "wf (measure (\<lambda>(st, known). sum_list (map count_flows st)))" by simp
next
  fix to_visit_stack :: "flow list" and known_sub_components :: "pyval set" and x xa
  assume ne: "to_visit_stack \<noteq> []" and x: "x = last to_visit_stack" and xa: "xa = butlast to_visit_stack"
  have c: "count_flows f = Suc (sum_list (map count_flows (map snd (components f))))" for f
  proof (cases f)
    case (OpenMLFlow a comps ps meta ext)
    have "count_flows_list cs = sum_list (map count_flows (map snd cs))" for cs
      by (induction cs) auto
    with OpenMLFlow show ?thesis by simp
  qed
  from ne have "to_visit_stack = xa @ [x]" using x xa by simp
  then have "sum_list (map count_flows to_visit_stack) = sum_list (map count_flows xa) + count_flows x"
    by simp
  with c[of x]
  show "((xa @ map snd (components x), insert (name (attrs x)) known_sub_components),
         (to_visit_stack, known_sub_components)) \<in> measure (\<lambda>(st, known). sum_list (map count_flows st))"
    by simp
qed

declare check_loop.simps [simp del]

definition check_multiple_occurence_of_component_in_flow :: "(obj \<times> flow) list \<Rightarrow> pyerr + unit" where
  "check_multiple_occurence_of_component_in_flow sub_components =
     check_loop (map snd sub_components) {}"

text \<open>\<open>_format_external_version\<close>\<close>

definition format_external_version :: "string \<Rightarrow> string \<Rightarrow> string" where
  "format_external_version model_package_name model_package_version_number =
     model_package_name @ ''=='' @ model_package_version_number"

text \<open>\<open>s.split(sep)\<close> for a separator of one character.\<close>

fun split_char :: "char \<Rightarrow> string \<Rightarrow> string \<Rightarrow> string list" where
  "split_char sep [] acc = [rev acc]"
| "split_char sep (c # cs) acc =
    (if c = sep then rev acc # split_char sep cs [] else split_char sep cs (c # acc))"

text \<open>
  \<open>_get_external_version_string\<close>: the sorted set of the model's package fingerprint,
  the library's own and those of all components.
\<close>

fun component_versions :: "flow list \<Rightarrow> pyerr + string list" where
  "component_versions [] = Inr []"
| "component_versions (visitee # rest) =
    (case external_version (attrs visitee) of
       PStr v \<Rightarrow>
         (case component_versions rest of
            Inl e \<Rightarrow> Inl e
          | Inr vs \<Rightarrow> Inr (split_char CHR '','' v [] @ vs))
     | _ \<Rightarrow> Inl (AttributeError ''split''))"

definition get_external_version_string :: "env \<Rightarrow> pyclass \<Rightarrow> (obj \<times> flow) list \<Rightarrow> pyerr + string" where
  "get_external_version_string E c sub_components =
    (let model_package_name = hd (split_char CHR ''.'' (cls_module c) []) in
     case package_version E model_package_name of
       Inl e \<Rightarrow> Inl e
     | Inr model_package_version_number \<Rightarrow>
        (let model_fingerprint = format_external_version model_package_name model_package_version_number;
             openml_fingerprint = format_external_version ''openml'' (openml_version E)
         in case component_versions (map snd sub_components) of
              Inl e \<Rightarrow> Inl e
            | Inr vs \<Rightarrow> Inr (join '','' (sort (remdups (model_fingerprint # openml_fingerprint # vs))))))"

text \<open>\<open>_serialize_type\<close>: the dictionary literal names \<open>float\<close> and \<open>int\<close> twice, the later entry stays.\<close>

definition serialize_type :: "obj \<Rightarrow> pyerr + obj" where
  "serialize_type ob =
    (case ob of
       OType TFloat \<Rightarrow> Inr (ODict True [(OStr ''oml-python:serialized_object'', OStr ''type''), (OStr ''value'', OStr ''np.float'')])
     | OType TFloat32 \<Rightarrow> Inr (ODict True [(OStr ''oml-python:serialized_object'', OStr ''type''), (OStr ''value'', OStr ''np.float32'')])
     | OType TFloat64 \<Rightarrow> Inr (ODict True [(OStr ''oml-python:serialized_object'', OStr ''type''), (OStr ''value'', OStr ''np.float64'')])
     | OType TInt \<Rightarrow> Inr (ODict True [(OStr ''oml-python:serialized_object'', OStr ''type''), (OStr ''value'', OStr ''np.int'')])
     | OType TInt32 \<Rightarrow> Inr (ODict True [(OStr ''oml-python:serialized_object'', OStr ''type''), (OStr ''value'', OStr ''np.int32'')])
     | OType TInt64 \<Rightarrow> Inr (ODict True [(OStr ''oml-python:serialized_object'', OStr ''type''), (OStr ''value'', OStr ''np.int64'')])
     | _ \<Rightarrow> Inl (KeyError ''type''))"

text \<open>\<open>_serialize_rv_frozen\<close>, \<open>_serialize_function\<close>\<close>

definition serialize_rv_frozen :: "string \<Rightarrow> obj \<Rightarrow> obj \<Rightarrow> obj \<Rightarrow> obj \<Rightarrow> obj" where
  "serialize_rv_frozen dist a b args kwds =
     ODict True [(OStr ''oml-python:serialized_object'', OStr ''rv_frozen''),
                 (OStr ''value'', ODict True [(OStr ''dist'', OStr dist), (OStr ''a'', a), (OStr ''b'', b),
                                              (OStr ''args'', args), (OStr ''kwds'', kwds)])]"

definition serialize_function :: "string \<Rightarrow> string \<Rightarrow> obj" where
  "serialize_function m f =
     ODict True [(OStr ''oml-python:serialized_object'', OStr ''function''),
                 (OStr ''value'', OStr (m @ ''.'' @ f))]"

text \<open>\<open>hasattr(rval, '__len__') and len(rval) == 0\<close>\<close>

definition empty_sized :: "obj \<Rightarrow> bool" where
  "empty_sized rval =
    (case rval of
       OStr s \<Rightarrow> s = []
     | OList xs \<Rightarrow> xs = []
     | OTuple xs \<Rightarrow> xs = []
     | ODict b kvs \<Rightarrow> kvs = []
     | _ \<Rightarrow> False)"

text \<open>
  \<open>_serialize_cross_validator\<close>: the constructor parameters, sorted, without those whose
  attribute is deprecated; \<open>getattr(o, key, None)\<close> is the attribute or \<open>None\<close>.
\<close>

fun cross_validator_parameters ::
  "env \<Rightarrow> (string \<times> obj) list \<Rightarrow> string list \<Rightarrow> string list \<Rightarrow> pyerr + (obj \<times> obj) list" where
  "cross_validator_parameters E attributes deprecated [] = Inr []"
| "cross_validator_parameters E attributes deprecated (key # rest) =
    (let val = (case map_of attributes key of Some v \<Rightarrow> v | None \<Rightarrow> ONone) in
     if key \<in> set deprecated then cross_validator_parameters E attributes deprecated rest
     else if \<not> empty_sized val then
       (case json_dumps E val of
          Inl e \<Rightarrow> Inl e
        | Inr j \<Rightarrow>
           (case cross_validator_parameters E attributes deprecated rest of
              Inl e \<Rightarrow> Inl e
            | Inr ps \<Rightarrow> Inr ((OStr key, OStr j) # ps)))
     else
       (case cross_validator_parameters E attributes deprecated rest of
          Inl e \<Rightarrow> Inl e
        | Inr ps \<Rightarrow> Inr ((OStr key, ONone) # ps)))"

definition serialize_cross_validator :: "env \<Rightarrow> pyclass \<Rightarrow> (string \<times> obj) list \<Rightarrow> pyerr + obj" where
  "serialize_cross_validator E c attributes =
    (case cross_validator_parameters E attributes (deprecated_args c)
            (sort (filter (\<lambda>p. p \<noteq> ''self'') (init_args c @ init_kwonlyargs c))) of
       Inl e \<Rightarrow> Inl e
     | Inr params \<Rightarrow>
         Inr (ODict True [(OStr ''oml-python:serialized_object'', OStr ''cv_object''),
                          (OStr ''value'', ODict True [(OStr ''name'', OStr (cls_module c @ ''.'' @ cls_name c)),
                                                       (OStr ''parameters'', ODict True params)])]))"

text \<open>
  The four dictionaries and sets that \<open>_extract_information_from_model\<close> fills.
\<close>

record extracted =
  ex_parameters :: "(pyval \<times> pyval) list"
  ex_parameters_meta_info :: "(pyval \<times> pyval) list"
  ex_sub_components :: "(obj \<times> flow) list"
  ex_sub_components_explicit :: "obj list"

definition component_reference :: "obj \<Rightarrow> obj \<Rightarrow> obj option \<Rightarrow> obj" where
  "component_reference key step_name argument_1 =
     ODict True [(OStr ''oml-python:serialized_object'', OStr ''component_reference''),
                 (OStr ''value'',
                  ODict True ([(OStr ''key'', key), (OStr ''step_name'', step_name)] @
                              (case argument_1 of None \<Rightarrow> [] | Some a \<Rightarrow> [(OStr ''argument_1'', a)])))]"

text \<open>
  \<open>all(isinstance(el, SIMPLE_TYPES) for el in flatten_all(rval))\<close>: every leaf under the
  nested lists and tuples is a bool, an int, a float or a string.
\<close>

fun all_simple :: "obj \<Rightarrow> bool" where
  "all_simple (OList xs) = list_all all_simple xs"
| "all_simple (OTuple xs) = list_all all_simple xs"
| "all_simple (OBool b) = True"
| "all_simple (OInt i) = True"
| "all_simple (OFloat r) = True"
| "all_simple (OStr s) = True"
| "all_simple x = False"

definition is_olist :: "obj \<Rightarrow> bool" where
  "is_olist x = (case x of OList _ \<Rightarrow> True | _ \<Rightarrow> False)"

definition is_otuple :: "obj \<Rightarrow> bool" where
  "is_otuple x = (case x of OTuple _ \<Rightarrow> True | _ \<Rightarrow> False)"

definition sequence_elements :: "obj \<Rightarrow> obj list option" where
  "sequence_elements x = (case x of OList xs \<Rightarrow> Some xs | OTuple xs \<Rightarrow> Some xs | _ \<Rightarrow> None)"

definition is_non_empty_list_of_lists_with_same_type :: "obj \<Rightarrow> bool" where
  "is_non_empty_list_of_lists_with_same_type rval =
    (case sequence_elements rval of
       None \<Rightarrow> False
     | Some xs \<Rightarrow>
        xs \<noteq> [] \<and> (is_olist (hd xs) \<or> is_otuple (hd xs)) \<and>
        (if is_olist (hd xs) then list_all is_olist xs else list_all is_otuple xs))"

text \<open>
  The loop over the tuples of a list of named sub-components. \<open>parameter_value\<close> collects
  the placeholders; the registered components go into the state.
\<close>

fun named_sub_components ::
  "string list \<Rightarrow> obj list \<Rightarrow> obj list \<Rightarrow> extracted \<Rightarrow> pyerr + obj list \<times> extracted" where
  "named_sub_components reserved_keywords [] parameter_value st = Inr (parameter_value, st)"
| "named_sub_components reserved_keywords (sub_component_tuple # rest) parameter_value st =
    (case sequence_elements sub_component_tuple of
       None \<Rightarrow> Inl (TypeError ''object is not subscriptable'')
     | Some t \<Rightarrow>
        if length t < 2 then Inl (IndexError ''index out of range'')
        else
         (let identifier = t ! 0; sub_component = t ! 1 in
          if \<not> (2 \<le> length t \<and> length t \<le> 3) then
            Inl (ValueError ''Length of tuple does not match assumptions'')
          else if \<not> (case sub_component of OFlow f \<Rightarrow> True | ONone \<Rightarrow> True | _ \<Rightarrow> False) then
            Inl (TypeError ''Second item of tuple does not match assumptions. Expected OpenMLFlow'')
          else if \<not> hashable identifier then Inl (TypeError ''unhashable type'')
          else if (case identifier of OStr s \<Rightarrow> s \<in> set reserved_keywords | _ \<Rightarrow> False) then
            Inl (PyOpenMLError ''Found element shadowing official parameter'')
          else
           (case sub_component of
              OFlow f \<Rightarrow>
                named_sub_components reserved_keywords rest
                  (parameter_value @
                   [component_reference identifier identifier
                      (if length t = 3 then Some (t ! 2) else None)])
                  (st\<lparr>ex_sub_components_explicit := identifier # ex_sub_components_explicit st,
                      ex_sub_components := AList.update identifier f (ex_sub_components st)\<rparr>)
            | _ \<Rightarrow>
                named_sub_components reserved_keywords rest
                  (parameter_value @
                   [if is_otuple sub_component_tuple then OTuple [identifier, ONone]
                    else OList [identifier, ONone]])
                  st)))"

text \<open>
  One round of the loop of \<open>_extract_information_from_model\<close>, after the parameter's value
  has been serialized to \<open>rval\<close>.
\<close>

definition store_parameter ::
  "env \<Rightarrow> string list \<Rightarrow> string \<Rightarrow> obj \<Rightarrow> extracted \<Rightarrow> pyerr + extracted" where
  "store_parameter E reserved_keywords k rval st =
    (let meta = PDict [(PStr ''description'', PNone), (PStr ''data_type'', PNone)] in
     if is_non_empty_list_of_lists_with_same_type rval \<and> \<not> all_simple rval then
       (case named_sub_components reserved_keywords
               (case sequence_elements rval of Some xs \<Rightarrow> xs | None \<Rightarrow> []) [] st of
          Inl e \<Rightarrow> Inl e
        | Inr (parameter_value, st) \<Rightarrow>
           (case json_dumps E (if is_otuple rval then OTuple parameter_value else OList parameter_value) of
              Inl e \<Rightarrow> Inl e
            | Inr parameter_json \<Rightarrow>
                Inr (st\<lparr>ex_parameters := AList.update (PStr k) (PStr parameter_json) (ex_parameters st),
                        ex_parameters_meta_info := AList.update (PStr k) meta (ex_parameters_meta_info st)\<rparr>)))
     else
      (case rval of
         OFlow f \<Rightarrow>
          (case json_dumps E (component_reference (OStr k) ONone None) of
             Inl e \<Rightarrow> Inl e
           | Inr cr \<Rightarrow>
               Inr (st\<lparr>ex_sub_components := AList.update (OStr k) f (ex_sub_components st),
                       ex_sub_components_explicit := OStr k # ex_sub_components_explicit st,
                       ex_parameters := AList.update (PStr k) (PStr cr) (ex_parameters st),
                       ex_parameters_meta_info := AList.update (PStr k) meta (ex_parameters_meta_info st)\<rparr>))
       | _ \<Rightarrow>
          if \<not> empty_sized rval then
            (case json_dumps E rval of
               Inl e \<Rightarrow> Inl e
             | Inr j \<Rightarrow>
                 Inr (st\<lparr>ex_parameters := AList.update (PStr k) (PStr j) (ex_parameters st),
                         ex_parameters_meta_info := AList.update (PStr k) meta (ex_parameters_meta_info st)\<rparr>))
          else
            Inr (st\<lparr>ex_parameters := AList.update (PStr k) PNone (ex_parameters st),
                    ex_parameters_meta_info := AList.update (PStr k) meta (ex_parameters_meta_info st)\<rparr>)))"

text \<open>
  The name of the flow: the class path, and in brackets the names of the components, each
  after its identifier when the identifier is in \<open>sub_components_explicit\<close>.
\<close>

fun sub_components_names :: "obj list \<Rightarrow> (obj \<times> flow) list \<Rightarrow> pyerr + string" where
  "sub_components_names explicit [] = Inr []"
| "sub_components_names explicit ((key, sub_flow) # rest) =
    (case (key, name (attrs sub_flow)) of
       (OStr k, PStr n) \<Rightarrow>
         (case sub_components_names explicit rest of
            Inl e \<Rightarrow> Inl e
          | Inr s \<Rightarrow> Inr ((if key \<in> set explicit then '','' @ k @ ''='' @ n else '','' @ n) @ s))
     | _ \<Rightarrow> Inl (TypeError ''can only concatenate str''))"

definition string_keys :: "(obj \<times> flow) list \<Rightarrow> (string \<times> flow) list" where
  "string_keys sub_components = map (\<lambda>(k, f). (case k of OStr s \<Rightarrow> s | _ \<Rightarrow> [], f)) sub_components"

text \<open>
  \<open>_serialize_model\<close> from the point where \<open>_extract_information_from_model\<close> has returned.
\<close>

definition build_flow :: "env \<Rightarrow> pyclass \<Rightarrow> extracted \<Rightarrow> pyerr + flow" where
  "build_flow E c st =
    (case check_multiple_occurence_of_component_in_flow (ex_sub_components st) of
       Inl e \<Rightarrow> Inl e
     | Inr u \<Rightarrow>
    (let class_path = cls_module c @ ''.'' @ cls_name c in
     case sub_components_names (ex_sub_components_explicit st) (ex_sub_components st) of
       Inl e \<Rightarrow> Inl e
     | Inr names \<Rightarrow>
    (let flow_name = (if names \<noteq> [] then class_path @ ''('' @ tl names @ '')'' else class_path) in
     case get_external_version_string E c (ex_sub_components st) of
       Inl e \<Rightarrow> Inl e
     | Inr version_string \<Rightarrow>
    (let sklearn_fingerprint = format_external_version ''sklearn'' (sklearn_version E);
         dependencies = join [CHR 0x0A] [sklearn_fingerprint, ''numpy>=1.6.1'', ''scipy>=0.9''];
         sklearn_version_formatted = ''sklearn_'' @ sklearn_version E
     in OpenMLFlow_init (get_extension_by_flow E)
          \<lparr>name = PStr flow_name,
           description = PStr ''Automatically created scikit-learn flow.'',
           external_version = PStr version_string,
           tags = PList [PStr ''openml-python'', PStr ''sklearn'', PStr ''scikit-learn'',
                         PStr ''python'', PStr sklearn_version_formatted],
           language = PStr ''English'',
           dependencies = PStr dependencies,
           class_name = PStr class_path,
           custom_name = PNone, binary_url = PNone, binary_format = PNone, binary_md5 = PNone,
           uploader = PNone, upload_date = PNone, flow_id = PNone, version = PNone\<rparr>
          (OrderedDict (string_keys (ex_sub_components st)))
          (OrderedDict (ex_parameters st))
          (OrderedDict (ex_parameters_meta_info st))))))"

text \<open>
  \<open>is_estimator\<close> asks for the attributes \<open>fit\<close>, \<open>get_params\<close> and \<open>set_params\<close>. The
  instances that have them are the constructor \<open>OEstimator\<close>. A class has them when its
  instances do, here when it derives from \<open>BaseEstimator\<close>: for such a class object
  \<open>_serialize_model\<close> calls \<open>get_params\<close> on the class, without \<open>self\<close>, and that raises
  \<open>TypeError\<close>.
\<close>

definition is_estimator_class :: "pyclass \<Rightarrow> bool" where
  "is_estimator_class c = (''sklearn.base.BaseEstimator'' \<in> set (cls_bases c))"

text \<open>\<open>_is_cross_validator\<close>\<close>

definition is_cross_validator :: "pyclass \<Rightarrow> bool" where
  "is_cross_validator c = (''sklearn.model_selection.BaseCrossValidator'' \<in> set (cls_bases c))"

text \<open>
  A numpy scalar of an integer or floating type is in \<open>SIMPLE_NUMPY_TYPES\<close> and is
  replaced by its \<open>item()\<close>. \<open>numpy.bool_\<close> is in the category \<open>others\<close> of \<open>np.sctypes\<close>,
  which \<open>SIMPLE_NUMPY_TYPES\<close> leaves out, and it is no subclass of \<open>bool\<close>: no branch
  takes it and the walker raises \<open>TypeError\<close>.
\<close>

definition serialize_numpy_scalar :: "obj \<Rightarrow> pyerr + obj" where
  "serialize_numpy_scalar x =
    (case x of
       OInt i \<Rightarrow> Inr (OInt i)
     | OFloat r \<Rightarrow> Inr (OFloat r)
     | _ \<Rightarrow> Inl (TypeError ''o''))"

definition empty_extracted :: extracted where
  "empty_extracted =
     \<lparr>ex_parameters = [], ex_parameters_meta_info = [], ex_sub_components = [],
      ex_sub_components_explicit = []\<rparr>"

text \<open>The items of a dictionary as \<open>_serialize_sklearn\<close> walks them: sorted unless the dictionary is ordered.\<close>

definition dict_items :: "bool \<Rightarrow> (obj \<times> obj) list \<Rightarrow> pyerr + (obj \<times> obj) list" where
  "dict_items ordered kvs = (if ordered then Inr kvs else sorted_items kvs)"

lemma size_list_insort_key:
  "size_list f (insort_key g x xs) = Suc (f x + size_list f xs)"
  by (induction xs) auto

lemma size_list_sort_key: "size_list f (sort_key g xs) = size_list f xs"
  by (induction xs) (auto simp: size_list_insort_key)

lemma size_list_dict_items:
  "dict_items ordered kvs = Inr items \<Longrightarrow> size_list f items = size_list f kvs"
  by (auto simp: dict_items_def sorted_items_def size_list_sort_key split: if_splits)

text \<open>
  \<open>_serialize_sklearn\<close>, and with it \<open>_serialize_model\<close> and the loop of
  \<open>_extract_information_from_model\<close> over the model's parameters sorted by name. The
  recursion follows the structure of the object.
\<close>

function serialize_sklearn :: "env \<Rightarrow> obj \<Rightarrow> pyerr + obj"
  and serialize_elements :: "env \<Rightarrow> obj list \<Rightarrow> pyerr + obj list"
  and serialize_items :: "env \<Rightarrow> (obj \<times> obj) list \<Rightarrow> (obj \<times> obj) list \<Rightarrow> pyerr + (obj \<times> obj) list"
  and extract_information :: "env \<Rightarrow> string list \<Rightarrow> (string \<times> obj) list \<Rightarrow> extracted \<Rightarrow> pyerr + extracted"
where
  "serialize_sklearn E (OEstimator c params) =
    (case extract_information E (map fst params) (sort_key fst params) empty_extracted of
       Inl e \<Rightarrow> Inl e
     | Inr st \<Rightarrow> (case build_flow E c st of Inl e \<Rightarrow> Inl e | Inr f \<Rightarrow> Inr (OFlow f)))"
| "serialize_sklearn E (OList xs) =
    (case serialize_elements E xs of Inl e \<Rightarrow> Inl e | Inr ys \<Rightarrow> Inr (OList ys))"
| "serialize_sklearn E (OTuple xs) =
    (case serialize_elements E xs of Inl e \<Rightarrow> Inl e | Inr ys \<Rightarrow> Inr (OTuple ys))"
| "serialize_sklearn E ONone = Inr ONone"
| "serialize_sklearn E (OBool b) = Inr (OBool b)"
| "serialize_sklearn E (OInt i) = Inr (OInt i)"
| "serialize_sklearn E (OFloat r) = Inr (OFloat r)"
| "serialize_sklearn E (OStr s) = Inr (OStr s)"
| "serialize_sklearn E (ONumpy x) = serialize_numpy_scalar x"
| "serialize_sklearn E (ODict ordered kvs) =
    (case dict_items ordered kvs of
       Inl e \<Rightarrow> Inl e
     | Inr items \<Rightarrow>
        (case serialize_items E items [] of Inl e \<Rightarrow> Inl e | Inr rval \<Rightarrow> Inr (ODict True rval)))"
| "serialize_sklearn E (OType t) = serialize_type (OType t)"
| "serialize_sklearn E (OClass c) =
    (if is_estimator_class c then
       Inl (TypeError ''get_params() missing 1 required positional argument'')
     else serialize_type (OClass c))"
| "serialize_sklearn E (ORvFrozen dist a b args kwds) = Inr (serialize_rv_frozen dist a b args kwds)"
| "serialize_sklearn E (OFunction m f) = Inr (serialize_function m f)"
| "serialize_sklearn E (OObject c attributes) =
    (if is_cross_validator c then serialize_cross_validator E c attributes
     else Inl (TypeError ''o''))"
| "serialize_sklearn E (OFlow f) = Inl (TypeError ''o'')"
| "serialize_elements E [] = Inr []"
| "serialize_elements E (element # rest) =
    (case serialize_sklearn E element of
       Inl e \<Rightarrow> Inl e
     | Inr y \<Rightarrow> (case serialize_elements E rest of Inl e \<Rightarrow> Inl e | Inr ys \<Rightarrow> Inr (y # ys)))"
| "serialize_items E [] acc = Inr acc"
| "serialize_items E ((key, val) # rest) acc =
    (if \<not> is_ostr key then Inl (TypeError ''Can only use string as keys'')
     else
      (case serialize_sklearn E key of
         Inl e \<Rightarrow> Inl e
       | Inr k \<Rightarrow>
          (case serialize_sklearn E val of
             Inl e \<Rightarrow> Inl e
           | Inr v \<Rightarrow> serialize_items E rest (AList.update k v acc))))"
| "extract_information E reserved_keywords [] st = Inr st"
| "extract_information E reserved_keywords ((k, v) # rest) st =
    (case serialize_sklearn E v of
       Inl e \<Rightarrow> Inl e
     | Inr rval \<Rightarrow>
        (case store_parameter E reserved_keywords k rval st of
           Inl e \<Rightarrow> Inl e
         | Inr st' \<Rightarrow> extract_information E reserved_keywords rest st'))"
  by pat_completeness auto
termination
  apply (relation "measure (\<lambda>x. case x of
      Inl (Inl (E, ob)) \<Rightarrow> size ob
    | Inl (Inr (E, xs)) \<Rightarrow> size_list size xs
    | Inr (Inl (E, items, acc)) \<Rightarrow> size_list (size_prod size size) items
    | Inr (Inr (E, reserved, ps, st)) \<Rightarrow> size_list (size_prod (\<lambda>x. 0) size) ps)")
  apply (auto simp: size_list_sort_key size_list_dict_items)
  done

text \<open>\<open>model_to_flow\<close>\<close>

definition model_to_flow :: "env \<Rightarrow> obj \<Rightarrow> pyerr + obj" where
  "model_to_flow E model = serialize_sklearn E model"

subsection \<open>The guard against tuning \<open>n_jobs\<close>\<close>

text \<open>\<open>s.split(sep)\<close> for a non-empty separator: cut at each occurrence, left to right.\<close>

function split_sep :: "string \<Rightarrow> string \<Rightarrow> string \<Rightarrow> string list" where
  "split_sep sep [] acc = [rev acc]"
| "split_sep sep (c # cs) acc =
    (if sep \<noteq> [] \<and> startswith (c # cs) sep
     then rev acc # split_sep sep (drop (length sep) (c # cs)) []
     else split_sep sep cs (c # acc))"
  by pat_completeness auto
termination
  by (relation "measure (\<lambda>(sep, s, acc). length s)") (auto simp: neq_Nil_conv)

text \<open>\<open>param.split('__')[-1]\<close>\<close>

definition last_segment :: "string \<Rightarrow> string" where
  "last_segment param = last (split_sep ''__'' param [])"

text \<open>
  \<open>_get_parameter_values_recursive\<close>: the values, in a dictionary or a list of
  dictionaries (nested to any depth), of the parameters whose last segment is
  \<open>parameter_name\<close>. A key that is no string has no \<open>split\<close>.
\<close>

fun get_parameter_values_recursive :: "obj \<Rightarrow> string \<Rightarrow> pyerr + obj list"
  and get_parameter_values_list :: "obj list \<Rightarrow> string \<Rightarrow> pyerr + obj list"
  and get_parameter_values_dict :: "(obj \<times> obj) list \<Rightarrow> string \<Rightarrow> pyerr + obj list"
where
  "get_parameter_values_recursive (ODict ordered items) parameter_name =
     get_parameter_values_dict items parameter_name"
| "get_parameter_values_recursive (OList sub_grids) parameter_name =
     get_parameter_values_list sub_grids parameter_name"
| "get_parameter_values_recursive other parameter_name =
     Inl (ValueError ''Param_grid should either be a dict or list of dicts'')"
| "get_parameter_values_list [] parameter_name = Inr []"
| "get_parameter_values_list (sub_grid # rest) parameter_name =
    (case get_parameter_values_recursive sub_grid parameter_name of
       Inl e \<Rightarrow> Inl e
     | Inr vs \<Rightarrow>
        (case get_parameter_values_list rest parameter_name of
           Inl e \<Rightarrow> Inl e
         | Inr ws \<Rightarrow> Inr (vs @ ws)))"
| "get_parameter_values_dict [] parameter_name = Inr []"
| "get_parameter_values_dict ((param, val) # rest) parameter_name =
    (case param of
       OStr p \<Rightarrow>
        (case get_parameter_values_dict rest parameter_name of
           Inl e \<Rightarrow> Inl e
         | Inr vs \<Rightarrow> Inr (if last_segment p = parameter_name then val # vs else vs))
     | _ \<Rightarrow> Inl (AttributeError ''split''))"

text \<open>\<open>isinstance(model, cls)\<close> and \<open>model.attribute\<close> for an arbitrary object.\<close>

definition isinstance :: "obj \<Rightarrow> string \<Rightarrow> bool" where
  "isinstance model cls =
    (case model of
       OEstimator c params \<Rightarrow> cls \<in> set (cls_bases c)
     | OObject c attributes \<Rightarrow> cls \<in> set (cls_bases c)
     | _ \<Rightarrow> False)"

definition getattr :: "obj \<Rightarrow> string \<Rightarrow> pyerr + obj" where
  "getattr model attribute =
    (case model of
       OEstimator c params \<Rightarrow>
         (case map_of params attribute of None \<Rightarrow> Inl (AttributeError attribute) | Some v \<Rightarrow> Inr v)
     | OObject c attributes \<Rightarrow>
         (case map_of attributes attribute of None \<Rightarrow> Inl (AttributeError attribute) | Some v \<Rightarrow> Inr v)
     | _ \<Rightarrow> Inl (AttributeError attribute))"

text \<open>\<open>_is_hpo_class\<close>\<close>

definition is_hpo_class :: "obj \<Rightarrow> bool" where
  "is_hpo_class model = isinstance model ''sklearn.model_selection._search.BaseSearchCV''"

text \<open>The search space \<open>_prevent_optimize_n_jobs\<close> reads from a search wrapper.\<close>

definition param_distributions_of :: "obj \<Rightarrow> pyerr + obj" where
  "param_distributions_of model =
    (if isinstance model ''sklearn.model_selection._search.GridSearchCV'' then
       getattr model ''param_grid''
     else if isinstance model ''sklearn.model_selection._search.RandomizedSearchCV'' then
       getattr model ''param_distributions''
     else
       (case getattr model ''param_distributions'' of
          Inl e \<Rightarrow> Inl (AttributeError ''Using subclass BaseSearchCV other than {GridSearchCV, RandomizedSearchCV}. Could not find attribute param_distributions.'')
        | Inr d \<Rightarrow> Inr d))"

text \<open>\<open>_prevent_optimize_n_jobs\<close>\<close>

definition prevent_optimize_n_jobs :: "obj \<Rightarrow> pyerr + unit" where
  "prevent_optimize_n_jobs model =
    (if is_hpo_class model then
       (case param_distributions_of model of
          Inl e \<Rightarrow> Inl e
        | Inr param_distributions \<Rightarrow>
           (case get_parameter_values_recursive param_distributions ''n_jobs'' of
              Inl e \<Rightarrow> Inl e
            | Inr n_jobs_vals \<Rightarrow>
                if length n_jobs_vals > 0 then
                  Inl (PyOpenMLError ''openml-python should not be used to optimize the n_jobs parameter.'')
                else Inr ()))
     else Inr ())"

text \<open>
  The task classes of \<open>tasks/task.py\<close>; \<open>isinstance(task, OpenMLSupervisedTask)\<close> holds for
  the supervised task and its subclasses.
\<close>

datatype task =
    OpenMLTask
  | OpenMLSupervisedTask
  | OpenMLClassificationTask
  | OpenMLRegressionTask
  | OpenMLClusteringTask
  | OpenMLLearningCurveTask

definition is_supervised_task :: "task \<Rightarrow> bool" where
  "is_supervised_task t =
     (t = OpenMLSupervisedTask \<or> t = OpenMLClassificationTask \<or> t = OpenMLRegressionTask \<or>
      t = OpenMLLearningCurveTask)"

text \<open>
  \<open>_run_model_on_fold\<close> up to the guard. \<open>clone\<close> is \<open>sklearn.base.clone(model, safe=True)\<close>;
  \<open>fit_and_predict\<close> stands for the rest of the function (timing, \<open>fit\<close>, \<open>predict\<close>, the
  probabilities and the trace), which is entered with the copy only when the guard has
  let it pass.
\<close>

definition run_model_on_fold ::
  "(obj \<Rightarrow> pyerr + obj) \<Rightarrow> (obj \<Rightarrow> pyerr + 'r) \<Rightarrow> obj \<Rightarrow> task \<Rightarrow> obj \<Rightarrow> nat \<Rightarrow> nat \<Rightarrow>
   obj option \<Rightarrow> obj option \<Rightarrow> pyerr + 'r" where
  "run_model_on_fold clone fit_and_predict model tsk X_train rep_no fold_no y_train X_test =
    (if is_supervised_task tsk \<and> y_train = None then
       Inl (TypeError ''argument y_train must not be of type None'')
     else if is_supervised_task tsk \<and> X_test = None then
       Inl (TypeError ''argument X_test must not be of type None'')
     else
      (case clone model of
         Inl e \<Rightarrow> Inl e
       | Inr model_copy \<Rightarrow>
          (case prevent_optimize_n_jobs model_copy of
             Inl e \<Rightarrow> Inl e
           | Inr u \<Rightarrow> fit_and_predict model_copy)))"

text \<open>
  The parameter names of a search space: the keys of a dictionary, or of every dictionary
  of a list of search spaces.
\<close>

fun grid_parameters :: "obj \<Rightarrow> obj list"
  and grid_parameters_list :: "obj list \<Rightarrow> obj list"
where
  "grid_parameters (ODict ordered items) = map fst items"
| "grid_parameters (OList sub_grids) = grid_parameters_list sub_grids"
| "grid_parameters other = []"
| "grid_parameters_list [] = []"
| "grid_parameters_list (g # gs) = grid_parameters g @ grid_parameters_list gs"

text \<open>A search space as scikit-learn accepts it: a dictionary keyed by strings, or a list of search spaces.\<close>

fun is_grid :: "obj \<Rightarrow> bool"
  and is_grid_list :: "obj list \<Rightarrow> bool"
where
  "is_grid (ODict ordered items) = list_all (\<lambda>kv. is_ostr (fst kv)) items"
| "is_grid (OList sub_grids) = is_grid_list sub_grids"
| "is_grid other = False"
| "is_grid_list [] = True"
| "is_grid_list (g # gs) = (is_grid g \<and> is_grid_list gs)"

subsection \<open>An environment and objects for concrete runs\<close>

text \<open>
  Calling a scikit-learn class with keyword arguments: its constructor takes its
  parameters by name and stores them, so the new object's parameters are the keyword
  arguments, completed by the defaults, in the sorted order of \<open>get_params\<close>. An object
  whose class derives from \<open>BaseEstimator\<close> is an estimator.
\<close>

definition sklearn_call :: "obj \<Rightarrow> (obj \<times> obj) list \<Rightarrow> pyerr + obj" where
  "sklearn_call callee kwargs =
    (case callee of
       OClass c \<Rightarrow>
        (let positional = filter (\<lambda>p. p \<noteq> ''self'') (init_args c);
             names = positional @ init_kwonlyargs c;
             given = map (\<lambda>kv. (str_key kv, snd kv)) kwargs;
             defaults = zip (rev positional)
                          (rev (case init_defaults c of None \<Rightarrow> [] | Some ds \<Rightarrow> map embed ds)) @
                        map (\<lambda>(p, d). (p, embed d)) (init_kwonlydefaults c)
         in
          if \<not> list_all (\<lambda>kv. is_ostr (fst kv)) kwargs then Inl (TypeError ''keywords must be strings'')
          else if \<not> list_all (\<lambda>k. k \<in> set names) (map fst given) then
            Inl (TypeError ''got an unexpected keyword argument'')
          else if \<not> list_all (\<lambda>p. p \<in> set (map fst given) \<or> p \<in> set (map fst defaults)) names then
            Inl (TypeError ''missing required positional argument'')
          else
           (let params = map (\<lambda>p. (p, case map_of given p of
                                          Some v \<Rightarrow> v
                                        | None \<Rightarrow> (case map_of defaults p of Some d \<Rightarrow> d | None \<Rightarrow> ONone)))
                             (sort names)
            in Inr (if ''sklearn.base.BaseEstimator'' \<in> set (cls_bases c)
                    then OEstimator c params else OObject c params)))
     | _ \<Rightarrow> Inl (TypeError ''object is not callable''))"

text \<open>
  Scikit-learn classes, each abridged to two parameters, and a module table of them. The
  last is the decision tree as later releases of scikit-learn declare it (from 0.23 on),
  with keyword-only parameters: \<open>def __init__(self, *, max_depth=None, min_samples_split=2)\<close>.
\<close>

definition class_DecisionTreeClassifier :: pyclass where
  "class_DecisionTreeClassifier =
     PyClass ''sklearn.tree.tree'' ''DecisionTreeClassifier''
       [''sklearn.tree.tree.DecisionTreeClassifier'', ''sklearn.base.BaseEstimator'']
       [''self'', ''max_depth'', ''min_samples_split''] (Some [PNone, PInt 2]) [] [] []"

definition class_StandardScaler :: pyclass where
  "class_StandardScaler =
     PyClass ''sklearn.preprocessing.data'' ''StandardScaler''
       [''sklearn.preprocessing.data.StandardScaler'', ''sklearn.base.BaseEstimator'']
       [''self'', ''copy'', ''with_mean''] (Some [PBool True, PBool True]) [] [] []"

definition class_AdaBoostClassifier :: pyclass where
  "class_AdaBoostClassifier =
     PyClass ''sklearn.ensemble.weight_boosting'' ''AdaBoostClassifier''
       [''sklearn.ensemble.weight_boosting.AdaBoostClassifier'', ''sklearn.base.BaseEstimator'']
       [''self'', ''base_estimator'', ''n_estimators''] (Some [PNone, PInt 50]) [] [] []"

definition class_Pipeline :: pyclass where
  "class_Pipeline =
     PyClass ''sklearn.pipeline'' ''Pipeline''
       [''sklearn.pipeline.Pipeline'', ''sklearn.base.BaseEstimator'']
       [''self'', ''steps'', ''memory''] (Some [PNone]) [] [] []"

definition class_GridSearchCV :: pyclass where
  "class_GridSearchCV =
     PyClass ''sklearn.model_selection._search'' ''GridSearchCV''
       [''sklearn.model_selection._search.GridSearchCV'',
        ''sklearn.model_selection._search.BaseSearchCV'', ''sklearn.base.BaseEstimator'']
       [''self'', ''estimator'', ''param_grid''] None [] [] []"

definition class_DecisionTreeClassifier_keyword_only :: pyclass where
  "class_DecisionTreeClassifier_keyword_only =
     PyClass ''sklearn.tree._classes'' ''DecisionTreeClassifier''
       [''sklearn.tree._classes.DecisionTreeClassifier'', ''sklearn.base.BaseEstimator'']
       [''self''] None [] [''max_depth'', ''min_samples_split'']
       [(''max_depth'', PNone), (''min_samples_split'', PInt 2)]"

definition example_classes :: "pyclass list" where
  "example_classes =
     [class_DecisionTreeClassifier, class_StandardScaler, class_AdaBoostClassifier,
      class_Pipeline, class_GridSearchCV, class_DecisionTreeClassifier_keyword_only]"

definition example_import :: "string \<Rightarrow> string \<Rightarrow> pyerr + obj" where
  "example_import m a =
    (case filter (\<lambda>c. cls_module c = m) example_classes of
       [] \<Rightarrow> Inl (ModuleNotFoundError m)
     | cs \<Rightarrow> (case filter (\<lambda>c. cls_name c = a) cs of
                [] \<Rightarrow> Inl (AttributeError a)
              | c # rest \<Rightarrow> Inr (OClass c)))"

text \<open>
  The extension lookup with the one extension this module registers: the flow is handled
  if \<open>can_handle_flow\<close>, that is \<open>_is_sklearn_flow\<close>, says so.
\<close>

definition example_extension :: "flow \<Rightarrow> pyerr + string option" where
  "example_extension f =
    (case is_sklearn_flow f of
       Inl e \<Rightarrow> Inl e
     | Inr b \<Rightarrow> Inr (if b then Some ''SklearnExtension'' else None))"

definition example_env :: env where
  "example_env =
     \<lparr>json_dumps = dumps, json_loads = loads, import_attr = example_import,
      py_call = sklearn_call, get_extension_by_flow = example_extension,
      package_version = (\<lambda>p. if p = ''sklearn'' then Inr ''0.21.2'' else Inl (ModuleNotFoundError p)),
      openml_version = ''0.10.0'', sklearn_version = ''0.21.2'',
      rv_frozen_new = (\<lambda>rv_class args kwds. Inr (args, kwds))\<rparr>"

definition tree_model :: obj where
  "tree_model =
     OEstimator class_DecisionTreeClassifier [(''max_depth'', OInt 3), (''min_samples_split'', OInt 2)]"

definition boost_model :: obj where
  "boost_model =
     OEstimator class_AdaBoostClassifier [(''base_estimator'', tree_model), (''n_estimators'', OInt 10)]"

subsection \<open>Notions used to state the properties of the extension\<close>

text \<open>The five tags of the special-value envelope.\<close>

definition recognized_tags :: "obj list" where
  "recognized_tags =
     [OStr ''type'', OStr ''rv_frozen'', OStr ''function'', OStr ''component_reference'',
      OStr ''cv_object'']"

text \<open>
  \<open>parameter_dict\<close> as the two loops of \<open>_deserialize_model\<close> leave it, before the class is
  imported.
\<close>

definition parameter_dict_of :: "env \<Rightarrow> nat \<Rightarrow> flow \<Rightarrow> bool \<Rightarrow> (obj \<times> obj) list result" where
  "parameter_dict_of E n f keep_defaults =
     bind_r (deserialize_parameters (\<lambda>x c. deserialize_sklearn E n x c keep_defaults)
               (parameters f) (map fst (parameters f)) (Some (components f)) [])
       (\<lambda>(parameter_dict, working).
     deserialize_components
       (\<lambda>x. bind_r (deserialize_sklearn E n x None False) (\<lambda>(rval, unused). ok rval))
       (components f) (map fst (components f))
       (case working of Some w \<Rightarrow> w | None \<Rightarrow> []) parameter_dict)"

text \<open>
  The constructor parameters with a declared default, by the signature of \<open>__init__\<close>: the
  last positional parameters, as many as there are defaults, and the keyword-only
  parameters that have one.
\<close>

definition positional_defaults :: "pyclass \<Rightarrow> string list" where
  "positional_defaults c =
     drop (length (init_args c) - length (case init_defaults c of None \<Rightarrow> [] | Some ds \<Rightarrow> ds))
       (init_args c)"

definition declared_defaults :: "pyclass \<Rightarrow> string list" where
  "declared_defaults c = positional_defaults c @ map fst (init_kwonlydefaults c)"

text \<open>
  A key of \<open>parameter_dict\<close> that \<open>initialize_with_defaults\<close> removes: the name of a
  parameter with a default that is no key of the flow's components.
\<close>

definition dropped :: "string list \<Rightarrow> string list \<Rightarrow> obj \<Rightarrow> bool" where
  "dropped defaulted component_keys key =
     (\<exists>p \<in> set defaulted. key = OStr p \<and> p \<notin> set component_keys)"

text \<open>
  A key of a search space that names the parameter \<open>parameter_name\<close> of the estimator or
  of one of its nested components: with scikit-learn's separator \<open>__\<close>, its last segment
  is \<open>parameter_name\<close>.
\<close>

definition names_parameter :: "string \<Rightarrow> obj \<Rightarrow> bool" where
  "names_parameter parameter_name key = (\<exists>p. key = OStr p \<and> last_segment p = parameter_name)"

text \<open>The flows of the two example models, as the forward walker builds them.\<close>

definition walker_fields :: "string \<Rightarrow> string \<Rightarrow> flow_fields" where
  "walker_fields flow_name class_path =
     \<lparr>name = PStr flow_name,
      description = PStr ''Automatically created scikit-learn flow.'',
      external_version = PStr ''openml==0.10.0,sklearn==0.21.2'',
      tags = PList [PStr ''openml-python'', PStr ''sklearn'', PStr ''scikit-learn'',
                    PStr ''python'', PStr ''sklearn_0.21.2''],
      language = PStr ''English'',
      dependencies = PStr (''sklearn==0.21.2'' @ [CHR 0x0A] @ ''numpy>=1.6.1'' @ [CHR 0x0A] @ ''scipy>=0.9''),
      class_name = PStr class_path,
      custom_name = PNone, binary_url = PNone, binary_format = PNone, binary_md5 = PNone,
      uploader = PNone, upload_date = PNone, flow_id = PNone, version = PNone\<rparr>"

definition no_meta :: pyval where
  "no_meta = PDict [(PStr ''description'', PNone), (PStr ''data_type'', PNone)]"

definition tree_flow :: flow where
  "tree_flow =
     OpenMLFlow
       (walker_fields ''sklearn.tree.tree.DecisionTreeClassifier''
          ''sklearn.tree.tree.DecisionTreeClassifier'')
       []
       [(PStr ''max_depth'', PStr ''3''), (PStr ''min_samples_split'', PStr ''2'')]
       [(PStr ''max_depth'', no_meta), (PStr ''min_samples_split'', no_meta)]
       (Some ''SklearnExtension'')"

definition boost_flow :: flow where
  "boost_flow =
     OpenMLFlow
       (walker_fields
          ''sklearn.ensemble.weight_boosting.AdaBoostClassifier(base_estimator=sklearn.tree.tree.DecisionTreeClassifier)''
          ''sklearn.ensemble.weight_boosting.AdaBoostClassifier'')
       [(''base_estimator'', tree_flow)]
       [(PStr ''base_estimator'',
         PStr ''{\"oml-python:serialized_object\": \"component_reference\", \"value\": {\"key\": \"base_estimator\", \"step_name\": null}}''),
        (PStr ''n_estimators'', PStr ''10'')]
       [(PStr ''base_estimator'', no_meta), (PStr ''n_estimators'', no_meta)]
       (Some ''SklearnExtension'')"

text \<open>
  The flow of a tree of the class with keyword-only parameters, and a flow of the first
  tree class that stores \<open>max_depth\<close> only (as a flow does that was made before the class
  had its second parameter).
\<close>

definition keyword_tree_flow :: flow where
  "keyword_tree_flow =
     OpenMLFlow
       (walker_fields ''sklearn.tree._classes.DecisionTreeClassifier''
          ''sklearn.tree._classes.DecisionTreeClassifier'')
       []
       [(PStr ''max_depth'', PStr ''3''), (PStr ''min_samples_split'', PStr ''2'')]
       [(PStr ''max_depth'', no_meta), (PStr ''min_samples_split'', no_meta)]
       (Some ''SklearnExtension'')"

definition sparse_tree_flow :: flow where
  "sparse_tree_flow =
     OpenMLFlow
       (walker_fields ''sklearn.tree.tree.DecisionTreeClassifier''
          ''sklearn.tree.tree.DecisionTreeClassifier'')
       []
       [(PStr ''max_depth'', PStr ''3'')]
       [(PStr ''max_depth'', no_meta)]
       (Some ''SklearnExtension'')"

text \<open>A grid search over the depth of a tree and over \<open>n_jobs\<close> of a nested component.\<close>

definition search_model :: obj where
  "search_model =
     OEstimator class_GridSearchCV
       [(''estimator'', boost_model),
        (''param_grid'',
         ODict False [(OStr ''base_estimator__max_depth'', OList [OInt 1, OInt 2]),
                      (OStr ''base_estimator__n_jobs'', OList [OInt 1, OInt 2])])]"

definition plain_search_model :: obj where
  "plain_search_model =
     OEstimator class_GridSearchCV
       [(''estimator'', boost_model),
        (''param_grid'',
         ODict False [(OStr ''base_estimator__max_depth'', OList [OInt 1, OInt 2])])]"

text \<open>
  The flow names in a component tree, the root first, and in the trees of a dictionary of
  sub-components.
\<close>

definition component_names :: "flow \<Rightarrow> pyval list" where
  "component_names f = map (\<lambda>(p, g). name (attrs g)) (all_nodes f)"

definition forest_names :: "flow list \<Rightarrow> pyval list" where
  "forest_names fs = concat (map component_names fs)"

text \<open>The length of a name, for names that are strings.\<close>

fun name_length :: "pyval \<Rightarrow> nat" where
  "name_length (PStr s) = length s"
| "name_length other = 0"

text \<open>
  A flow as \<open>_serialize_model\<close> names it: no name occurs twice in its tree, and the name of
  the root is longer than the name of every nested component.
\<close>

definition well_named :: "flow \<Rightarrow> bool" where
  "well_named f =
     (distinct (component_names f) \<and>
      (\<forall>x \<in> set (forest_names (map snd (components f))). name_length x < name_length (name (attrs f))))"

text \<open>The flows that a serialized value holds in its nested lists and tuples.\<close>

fun flows_of :: "obj \<Rightarrow> flow set" where
  "flows_of (OFlow f) = {f}"
| "flows_of (OList xs) = (\<Union>x \<in> set xs. flows_of x)"
| "flows_of (OTuple xs) = (\<Union>x \<in> set xs. flows_of x)"
| "flows_of other = {}"

text \<open>
  A model holds no flow: flows are what the walker makes of the estimators, they are not
  found among the parameters of an estimator, in their lists and tuples.
\<close>

fun flow_free :: "obj \<Rightarrow> bool" where
  "flow_free (OFlow f) = False"
| "flow_free (ONumpy x) = flow_free x"
| "flow_free (OList xs) = list_all flow_free xs"
| "flow_free (OTuple xs) = list_all flow_free xs"
| "flow_free (OEstimator c params) = list_all (\<lambda>kv. flow_free (snd kv)) params"
| "flow_free other = True"

text \<open>A pipeline of a scaler and a tree, and one whose two steps are the same tree.\<close>

definition scaler_model :: obj where
  "scaler_model =
     OEstimator class_StandardScaler [(''copy'', OBool True), (''with_mean'', OBool False)]"

definition pipeline_model :: obj where
  "pipeline_model =
     OEstimator class_Pipeline
       [(''memory'', ONone),
        (''steps'', OList [OTuple [OStr ''scaler'', scaler_model], OTuple [OStr ''clf'', tree_model]])]"

definition twin_pipeline_model :: obj where
  "twin_pipeline_model =
     OEstimator class_Pipeline
       [(''memory'', ONone),
        (''steps'', OList [OTuple [OStr ''first'', tree_model], OTuple [OStr ''second'', tree_model]])]"

text \<open>The sub-components extracted so far are all well named.\<close>

definition components_well_named :: "extracted \<Rightarrow> bool" where
  "components_well_named st = (\<forall>f \<in> snd ` set (ex_sub_components st). well_named f)"

section \<open>Properties of the flow entity\<close>

subsection \<open>The constructor's key-set check\<close>

lemma init_keys:
  assumes "OpenMLFlow_init g args ca pa ma = Inr f"
  shows "set (map fst (parameters f)) = set (map fst (parameters_meta_info f))"
proof -
  from assms obtain comps ps meta where args: "ca = OrderedDict comps" "pa = OrderedDict ps" "ma = OrderedDict meta"
    unfolding OpenMLFlow_init_def by (auto split: odict_arg.splits)
  from assms have d: "set (map fst ps) - set (map fst meta) = {}" "set (map fst meta) - set (map fst ps) = {}"
    and f: "parameters f = ps" "parameters_meta_info f = meta"
    unfolding OpenMLFlow_init_def args
    by (auto simp: Let_def simp del: Diff_eq_empty_iff set_map split: if_splits sum.splits)
  from d have "set (map fst ps) = set (map fst meta)" by blast
  with f show ?thesis by simp
qed

lemma init_mismatch:
  assumes "set (map fst ps) \<noteq> set (map fst meta)"
  shows "\<exists>msg. OpenMLFlow_init g args (OrderedDict comps) (OrderedDict ps) (OrderedDict meta) = Inl (ValueError msg)"
  using assms unfolding OpenMLFlow_init_def
  by (auto simp: Let_def)

lemma node_sig_append: "node_sig (xs @ ys) = node_sig xs @ node_sig ys"
  by (simp add: node_sig_def)

lemma node_sig_prefix:
  "node_sig (map (\<lambda>(p, g). (key # p, g)) xs) = map (\<lambda>(p, x). (key # p, x)) (node_sig xs)"
  by (simp add: node_sig_def case_prod_unfold comp_def)

lemma node_sig_update:
  assumes "map_of comps key = Some c" and "node_sig (all_nodes c') = node_sig (all_nodes c)"
  shows "node_sig (all_nodes_list (AList.update key c' comps)) = node_sig (all_nodes_list comps)"
  using assms
proof (induction comps)
  case Nil
  then show ?case by simp
next
  case (Cons kc comps)
  obtain k x where kc: "kc = (k, x)" by (cases kc)
  show ?case
  proof (cases "k = key")
    case True
    with Cons.prems kc show ?thesis by (simp add: node_sig_append node_sig_prefix)
  next
    case False
    with Cons kc show ?thesis by (simp add: node_sig_append node_sig_prefix)
  qed
qed

lemma node_sig_Cons: "node_sig ((p, g) # xs) = (p, parameters g, parameters_meta_info g) # node_sig xs"
  by (simp add: node_sig_def)

lemma node_sig_set_component:
  assumes "map_of (components t) key = Some c" and "node_sig (all_nodes c') = node_sig (all_nodes c)"
  shows "node_sig (all_nodes (set_component key c' t)) = node_sig (all_nodes t)"
  using node_sig_update[OF assms] by (cases t) (simp add: node_sig_Cons set_component_def)

lemma node_sig_set_server_fields:
  "node_sig (all_nodes (set_server_fields a t)) = node_sig (all_nodes t)"
  by (cases t) (simp add: node_sig_Cons set_server_fields_def)

lemma copy_server_fields_sig:
  "node_sig (all_nodes (snd (copy_server_fields src t))) = node_sig (all_nodes t)"
  "node_sig (all_nodes (snd (copy_server_fields_loop comps t))) = node_sig (all_nodes t)"
proof (induction src t and comps t rule: copy_server_fields_copy_server_fields_loop.induct)
  case (1 a comps ps meta ext target_flow)
  then show ?case by (simp add: node_sig_set_server_fields)
next
  case (2 target_flow)
  then show ?case by simp
next
  case (3 key component rest target_flow)
  show ?case
  proof (cases "map_of (components target_flow) key")
    case None
    then show ?thesis by simp
  next
    case (Some tc)
    obtain r c' where r: "copy_server_fields component tc = (r, c')" by (cases "copy_server_fields component tc")
    from "3.IH"(1)[OF Some] r have c': "node_sig (all_nodes c') = node_sig (all_nodes tc)" by simp
    have sc: "node_sig (all_nodes (set_component key c' target_flow)) = node_sig (all_nodes target_flow)"
      by (rule node_sig_set_component[OF Some c'])
    show ?thesis
    proof (cases r)
      case None
      from "3.IH"(2)[OF Some r[symmetric] None] sc Some r None show ?thesis by simp
    next
      case (Some e)
      with sc \<open>map_of (components target_flow) key = Some tc\<close> r show ?thesis by simp
    qed
  qed
qed

lemma key_sets_sig: "key_sets f = map (\<lambda>(p, ps, meta). (p, set (map fst ps), set (map fst meta))) (node_sig (all_nodes f))"
  by (simp add: key_sets_def node_sig_def case_prod_unfold comp_def)

text \<open>
  Claim C6. A flow that the constructor returns has the same keys in \<open>parameters\<close> and in
  \<open>parameters_meta_info\<close>; the constructor raises a \<open>ValueError\<close> when the two key sets
  differ; and \<open>_copy_server_fields\<close>, the one operation of the module that assigns to a
  flow, leaves both key sets as they are at every node of the component tree, whether
  it finishes or stops at its assertion.
\<close>

theorem flow_parameter_keys_invariant:
  "(OpenMLFlow_init g args ca pa ma = Inr f \<longrightarrow>
      set (map fst (parameters f)) = set (map fst (parameters_meta_info f))) \<and>
   (set (map fst ps) \<noteq> set (map fst meta) \<longrightarrow>
      (\<exists>msg. OpenMLFlow_init g args (OrderedDict comps) (OrderedDict ps) (OrderedDict meta)
               = Inl (ValueError msg))) \<and>
   key_sets (snd (copy_server_fields src f)) = key_sets f"
  using init_keys[of g args ca pa ma f] init_mismatch[of ps meta g args comps]
  by (simp add: key_sets_sig copy_server_fields_sig(1))


theorem flow_parameter_keys_invariant_witness:
  "OpenMLFlow_init (\<lambda>x. Inr None) (example_fields ''sklearn.tree.tree.DecisionTreeClassifier'')
     (OrderedDict []) (OrderedDict (parameters flow_good_value))
     (OrderedDict (parameters_meta_info flow_good_value)) = Inr flow_good_value \<and>
   set (map fst (parameters flow_good_value)) = set (map fst (parameters_meta_info flow_good_value)) \<and>
   (\<exists>msg. OpenMLFlow_init (\<lambda>x. Inr None) (example_fields ''sklearn.tree.tree.DecisionTreeClassifier'')
      (OrderedDict []) (OrderedDict (parameters flow_good_value)) (OrderedDict []) = Inl (ValueError msg))"
proof -
  have i: "OpenMLFlow_init (\<lambda>x. Inr None) (example_fields ''sklearn.tree.tree.DecisionTreeClassifier'')
     (OrderedDict []) (OrderedDict (parameters flow_good_value))
     (OrderedDict (parameters_meta_info flow_good_value)) = Inr flow_good_value"
    by (simp add: OpenMLFlow_init_def flow_good_value_def example_fields_def Let_def)
  have d: "parameters flow_good_value \<noteq> []"
    by (simp add: flow_good_value_def)
  from flow_parameter_keys_invariant[of "\<lambda>x. Inr None"
      "example_fields ''sklearn.tree.tree.DecisionTreeClassifier''" "OrderedDict []"
      "OrderedDict (parameters flow_good_value)" "OrderedDict (parameters_meta_info flow_good_value)"
      flow_good_value "parameters flow_good_value" "[]" "[]"] i d
  show ?thesis by simp
qed

subsection \<open>\<open>get_structure\<close>: the path of every component\<close>

lemma node_keys_append: "node_keys k (xs @ ys) = node_keys k xs @ node_keys k ys"
  by (simp add: node_keys_def)

lemma node_keys_prefix: "node_keys k (map (\<lambda>(p, g). (key # p, g)) xs) = node_keys k xs"
  by (simp add: node_keys_def case_prod_unfold comp_def)

lemma node_keys_mem: "(p, g) \<in> set xs \<Longrightarrow> identity_key g k \<in> set (node_keys k xs)"
  by (force simp: node_keys_def)

lemma get_structure_nodes_aux:
  "(key_item = ''flow_id'' \<or> key_item = ''name'' \<longrightarrow> distinct (node_keys key_item (all_nodes f)) \<longrightarrow>
     (\<exists>m. get_structure f key_item = Inr m \<and> dom m = set (node_keys key_item (all_nodes f)) \<and>
          (\<forall>(p, g) \<in> set (all_nodes f). m (identity_key g key_item) = Some p)))"
  "(key_item = ''flow_id'' \<or> key_item = ''name'' \<longrightarrow> distinct (node_keys key_item (all_nodes_list comps)) \<longrightarrow>
     (\<exists>m. get_structure_loop comps key_item s = Inr m \<and>
          dom m = dom s \<union> set (node_keys key_item (all_nodes_list comps)) \<and>
          (\<forall>x. x \<notin> set (node_keys key_item (all_nodes_list comps)) \<longrightarrow> m x = s x) \<and>
          (\<forall>(p, g) \<in> set (all_nodes_list comps). m (identity_key g key_item) = Some p)))"
proof (induction f key_item and comps key_item s rule: get_structure_get_structure_loop.induct)
  case (1 a comps ps meta ext key_item)
  show ?case
  proof (intro impI)
    assume k: "key_item = ''flow_id'' \<or> key_item = ''name''"
      and d: "distinct (node_keys key_item (all_nodes (OpenMLFlow a comps ps meta ext)))"
    let ?self = "OpenMLFlow a comps ps meta ext"
    from d have d': "distinct (node_keys key_item (all_nodes_list comps))"
      and fresh: "identity_key ?self key_item \<notin> set (node_keys key_item (all_nodes_list comps))"
      by (simp_all add: node_keys_def)
    from k have nk: "\<not> (key_item \<noteq> ''flow_id'' \<and> key_item \<noteq> ''name'')" by simp
    from "1.IH"[OF nk] k d' obtain m where
      m: "get_structure_loop comps key_item Map.empty = Inr m"
      and dm: "dom m = set (node_keys key_item (all_nodes_list comps))"
      and mp: "\<forall>(p, g) \<in> set (all_nodes_list comps). m (identity_key g key_item) = Some p"
      by auto
    have "\<forall>(p, g) \<in> set (all_nodes_list comps). identity_key g key_item \<noteq> identity_key ?self key_item"
      using fresh by (force simp: node_keys_def)
    with mp have "\<forall>(p, g) \<in> set (all_nodes ?self).
         (m(identity_key ?self key_item \<mapsto> [])) (identity_key g key_item) = Some p"
      by auto
    with m dm k show "\<exists>m. get_structure ?self key_item = Inr m \<and> dom m = set (node_keys key_item (all_nodes ?self)) \<and>
          (\<forall>(p, g) \<in> set (all_nodes ?self). m (identity_key g key_item) = Some p)"
      by (auto simp: node_keys_def)
  qed
next
  case (2 key_item s)
  then show ?case by (simp add: node_keys_def)
next
  case (3 key sub_flow rest key_item s)
  show ?case
  proof (intro impI)
    assume k: "key_item = ''flow_id'' \<or> key_item = ''name''"
      and d: "distinct (node_keys key_item (all_nodes_list ((key, sub_flow) # rest)))"
    have nk: "node_keys key_item (all_nodes_list ((key, sub_flow) # rest)) =
        node_keys key_item (all_nodes sub_flow) @ node_keys key_item (all_nodes_list rest)"
      by (simp add: node_keys_append node_keys_prefix)
    from d have d1: "distinct (node_keys key_item (all_nodes sub_flow))"
      and d2: "distinct (node_keys key_item (all_nodes_list rest))"
      and dj: "set (node_keys key_item (all_nodes sub_flow)) \<inter> set (node_keys key_item (all_nodes_list rest)) = {}"
      unfolding nk by auto
    from "3.IH"(1) k d1 obtain m1 where
      m1: "get_structure sub_flow key_item = Inr m1"
      and dm1: "dom m1 = set (node_keys key_item (all_nodes sub_flow))"
      and mp1: "\<forall>(p, g) \<in> set (all_nodes sub_flow). m1 (identity_key g key_item) = Some p"
      by auto
    let ?s = "s ++ (\<lambda>flow_name. map_option ((#) key) (m1 flow_name))"
    from "3.IH"(2)[OF m1] k d2 obtain m where
      m: "get_structure_loop rest key_item ?s = Inr m"
      and dm: "dom m = dom ?s \<union> set (node_keys key_item (all_nodes_list rest))"
      and keep: "\<forall>x. x \<notin> set (node_keys key_item (all_nodes_list rest)) \<longrightarrow> m x = ?s x"
      and mp: "\<forall>(p, g) \<in> set (all_nodes_list rest). m (identity_key g key_item) = Some p"
      by auto
    have doms: "dom ?s = dom s \<union> dom m1"
      by (auto simp: map_add_def dom_def split: option.splits)
    have res: "get_structure_loop ((key, sub_flow) # rest) key_item s = Inr m"
      using m1 m by simp
    have a: "dom m = dom s \<union> set (node_keys key_item (all_nodes_list ((key, sub_flow) # rest)))"
      using dm doms dm1 unfolding nk by auto
    have b: "\<forall>x. x \<notin> set (node_keys key_item (all_nodes_list ((key, sub_flow) # rest))) \<longrightarrow> m x = s x"
    proof (intro allI impI)
      fix x assume x: "x \<notin> set (node_keys key_item (all_nodes_list ((key, sub_flow) # rest)))"
      then have x1: "x \<notin> set (node_keys key_item (all_nodes sub_flow))"
        and x2: "x \<notin> set (node_keys key_item (all_nodes_list rest))"
        unfolding nk by auto
      from x1 dm1 have "m1 x = None" by auto
      then have "?s x = s x" by (simp add: map_add_def)
      with keep x2 show "m x = s x" by simp
    qed
    have c: "\<forall>(p, g) \<in> set (all_nodes_list ((key, sub_flow) # rest)). m (identity_key g key_item) = Some p"
    proof -
      have "m (identity_key g key_item) = Some (key # p)" if pg: "(p, g) \<in> set (all_nodes sub_flow)" for p g
      proof -
        from pg have "identity_key g key_item \<in> set (node_keys key_item (all_nodes sub_flow))"
          by (rule node_keys_mem)
        with dj have "identity_key g key_item \<notin> set (node_keys key_item (all_nodes_list rest))" by auto
        with keep have "m (identity_key g key_item) = ?s (identity_key g key_item)" by simp
        also from mp1 pg have "\<dots> = Some (key # p)" by (auto simp: map_add_def)
        finally show ?thesis .
      qed
      with mp show ?thesis by auto
    qed
    from res a b c show "\<exists>m. get_structure_loop ((key, sub_flow) # rest) key_item s = Inr m \<and>
          dom m = dom s \<union> set (node_keys key_item (all_nodes_list ((key, sub_flow) # rest))) \<and>
          (\<forall>x. x \<notin> set (node_keys key_item (all_nodes_list ((key, sub_flow) # rest))) \<longrightarrow> m x = s x) \<and>
          (\<forall>(p, g) \<in> set (all_nodes_list ((key, sub_flow) # rest)). m (identity_key g key_item) = Some p)"
      by blast
  qed
qed


lemma get_structure_total:
  "(key_item = ''flow_id'' \<or> key_item = ''name'' \<longrightarrow> (\<exists>m. get_structure f key_item = Inr m))"
  "(key_item = ''flow_id'' \<or> key_item = ''name'' \<longrightarrow> (\<exists>m. get_structure_loop comps key_item s = Inr m))"
proof (induction f key_item and comps key_item s rule: get_structure_get_structure_loop.induct)
  case (1 a comps ps meta ext key_item)
  then show ?case by auto
next
  case (2 key_item s)
  then show ?case by simp
next
  case (3 key sub_flow rest key_item s)
  then show ?case by auto
qed

lemma get_structure_root:
  assumes "get_structure f key_item = Inr m"
  shows "m (identity_key f key_item) = Some []"
  using assms by (cases f) (auto split: if_splits sum.splits)

lemma all_nodes_root: "([], f) \<in> set (all_nodes f)"
  by (cases f) simp

text \<open>
  Claim C7, as amended. For \<open>key_item\<close> one of \<open>flow_id\<close> and \<open>name\<close>, \<open>get_structure\<close>
  returns a dictionary that maps the flow's own identity key to the empty path; and when
  the identity keys of the nodes of the component tree are pairwise distinct, it maps the
  identity key of every node to the list of component identifiers that lead from the root
  to that node.
\<close>

theorem get_structure_paths:
  assumes "key_item = ''flow_id'' \<or> key_item = ''name''"
  shows "\<exists>m. get_structure f key_item = Inr m \<and> m (identity_key f key_item) = Some [] \<and>
           (distinct (node_keys key_item (all_nodes f)) \<longrightarrow>
             (\<forall>(p, g) \<in> set (all_nodes f). m (identity_key g key_item) = Some p))"
proof -
  from get_structure_total(1) assms obtain m where m: "get_structure f key_item = Inr m"
    by blast
  have "\<forall>(p, g) \<in> set (all_nodes f). m (identity_key g key_item) = Some p"
    if "distinct (node_keys key_item (all_nodes f))"
    using get_structure_nodes_aux(1)[of key_item f] assms that m by auto
  with m get_structure_root[OF m] show ?thesis by blast
qed

text \<open>
  The example of the claim: \<open>A\<close> with component \<open>b\<close> holding \<open>B\<close>, which has component
  \<open>c\<close> holding \<open>C\<close>.
\<close>

theorem get_structure_paths_witness:
  "\<exists>m. get_structure flow_A ''name'' = Inr m \<and> m (PStr ''A'') = Some [] \<and>
       m (PStr ''B'') = Some [''b''] \<and> m (PStr ''C'') = Some [''b'', ''c'']"
proof -
  have d: "distinct (node_keys ''name'' (all_nodes flow_A))"
    by (simp add: node_keys_def flow_A_def flow_B_def flow_C_def identity_key_def example_fields_def)
  have n: "all_nodes flow_A = [([], flow_A), ([''b''], flow_B), ([''b'', ''c''], flow_C)]"
    by (simp add: flow_A_def flow_B_def flow_C_def)
  from get_structure_paths[of "''name''" flow_A] d obtain m where
    "get_structure flow_A ''name'' = Inr m"
    "\<forall>(p, g) \<in> set (all_nodes flow_A). m (identity_key g ''name'') = Some p"
    by auto
  then show ?thesis
    unfolding n by (auto simp: identity_key_def flow_A_def flow_B_def flow_C_def example_fields_def)
qed

text \<open>
  Without distinct keys the dictionary cannot hold a path per component. Flows that have
  not been published all have \<open>flow_id = None\<close>: keyed by \<open>flow_id\<close>, the component \<open>B\<close>
  of \<open>A\<close>, reached by the path \<open>[b]\<close>, has its key mapped to the empty path.
\<close>

theorem get_structure_shared_key_counterexample:
  "([''b''], flow_B) \<in> set (all_nodes flow_A) \<and>
   (case get_structure flow_A ''flow_id'' of
      Inr m \<Rightarrow> m (identity_key flow_B ''flow_id'') | Inl e \<Rightarrow> None) = Some []"
  by (simp add: flow_A_def flow_B_def flow_C_def identity_key_def example_fields_def)

subsection \<open>\<open>get_subflow\<close> leaves the caller's list alone\<close>

lemma get_subflow_frame_aux:
  "a < length h \<Longrightarrow> length h \<le> length (snd (get_subflow f a h)) \<and>
     (\<forall>b < length h. snd (get_subflow f a h) ! b = h ! b)"
proof (induction f a h rule: get_subflow.induct)
  case (1 self a h)
  let ?h1 = "h @ [h ! a]"
  let ?s = "length h"
  show ?case
  proof (cases "length (?h1 ! ?s) < 1")
    case True
    with "1.prems" show ?thesis
      by (subst (1 2) get_subflow.simps) (simp add: nth_append Let_def)
  next
    case False
    note nonempty = this
    show ?thesis
    proof (cases "map_of (components self) (hd (?h1 ! ?s))")
      case None
      with "1.prems" nonempty show ?thesis
        by (subst (1 2) get_subflow.simps) (simp add: nth_append Let_def)
    next
      case (Some c)
      show ?thesis
      proof (cases "length (?h1 ! ?s) = 1")
        case True
        with "1.prems" nonempty Some show ?thesis
          by (subst (1 2) get_subflow.simps) (simp add: nth_append Let_def)
      next
        case False
        let ?h2 = "?h1[?s := tl (?h1 ! ?s)]"
        have "?s < length ?h2" by simp
        from "1.prems" have na: "\<not> \<not> a < length h" by simp
        from "1.IH"[OF na refl refl nonempty refl Some False \<open>?s < length ?h2\<close>]
        have ih: "length ?h2 \<le> length (snd (get_subflow c ?s ?h2))"
          "\<forall>b < length ?h2. snd (get_subflow c ?s ?h2) ! b = ?h2 ! b" by auto
        have eq: "get_subflow self a h = get_subflow c ?s ?h2"
          using "1.prems" nonempty Some False
          by (subst get_subflow.simps) (simp add: Let_def)
        from ih show ?thesis unfolding eq by (auto simp: nth_append)
      qed
    qed
  qed
qed

text \<open>
  Claim C10. Whatever \<open>get_subflow\<close> returns or raises, the list the caller passed holds
  the same elements in the same order afterwards; indeed every list object that existed
  before the call is unchanged (the call only allocates copies and pops from those).
\<close>

theorem get_subflow_frame:
  assumes "a < length h"
  shows "snd (get_subflow f a h) ! a = h ! a \<and> take (length h) (snd (get_subflow f a h)) = h"
proof -
  from get_subflow_frame_aux[OF assms, of f]
  have l: "length h \<le> length (snd (get_subflow f a h))"
    and n: "\<forall>b < length h. snd (get_subflow f a h) ! b = h ! b" by blast+
  from l n have "take (length h) (snd (get_subflow f a h)) = h"
    by (intro nth_equalityI) auto
  with n assms show ?thesis by blast
qed

theorem get_subflow_frame_witness:
  "get_subflow flow_A 0 [[''b'', ''c'']] = (Inr flow_C, [[''b'', ''c''], [''c''], [''c'']]) \<and>
   snd (get_subflow flow_A 0 [[''b'', ''c'']]) ! 0 = [''b'', ''c''] \<and>
   snd (get_subflow flow_A 0 [[''b'', ''x'']]) ! 0 = [''b'', ''x'']"
proof -
  have "get_subflow flow_A 0 [[''b'', ''c'']] = (Inr flow_C, [[''b'', ''c''], [''c''], [''c'']])"
    by (simp add: get_subflow.simps flow_A_def flow_B_def Let_def)
  with get_subflow_frame[of 0 "[[''b'', ''c'']]" flow_A] get_subflow_frame[of 0 "[[''b'', ''x'']]" flow_A]
  show ?thesis by simp
qed

subsection \<open>Non-string parameters are refused by \<open>_to_dict\<close>, not by the constructor\<close>

lemma check_param_dict_Inr:
  "check_param_dict d = Inr () \<longleftrightarrow> (\<forall>(k, v) \<in> set d. str_or_none v)"
  by (induction d rule: check_param_dict.induct) (auto simp: str_or_none_def)

lemma check_param_dict_cases:
  "check_param_dict d = Inr () \<or>
   check_param_dict d = Inl (ValueError ''Parameter value cannot be serialized. Only strings can be serialized.'')"
  by (induction d rule: check_param_dict.induct) auto

lemma param_to_dict_Inr:
  assumes "param_to_dict meta key dv = Inr d"
  shows "str_or_none key \<and> str_or_none dv"
proof -
  from assms obtain dt de where
    c: "check_param_dict (add_if_nonempty (AList.update ''oml:default_value'' dv
          (add_if_nonempty [(''oml:name'', key)] ''oml:data_type'' dt id)) ''oml:description'' de id) = Inr ()"
    unfolding param_to_dict_def
    by (auto simp: Let_def split: option.splits sum.splits)
  then show ?thesis
    unfolding check_param_dict_Inr
    by (auto simp: add_if_nonempty_def split: if_splits)
qed

lemma params_to_dict_bad:
  assumes "(k, x) \<in> set rest" and "\<not> str_or_none k \<or> (\<exists>v. map_of all_params k = Some v \<and> \<not> str_or_none v)"
  shows "\<exists>e. params_to_dict meta all_params rest = Inl e"
  using assms
proof (induction rest)
  case Nil
  then show ?case by simp
next
  case (Cons kv rest)
  obtain key y where kv: "kv = (key, y)" by (cases kv)
  show ?case
  proof (cases "map_of all_params key")
    case None
    with kv show ?thesis by simp
  next
    case (Some dv)
    show ?thesis
    proof (cases "param_to_dict meta key dv")
      case (Inl e)
      with kv Some show ?thesis by simp
    next
      case (Inr d)
      from param_to_dict_Inr[OF Inr] have ok: "str_or_none key" "str_or_none dv" by simp_all
      with Cons.prems kv Some have "(k, x) \<in> set rest" by auto
      from Cons.IH[OF this Cons.prems(2)] obtain e where "params_to_dict meta all_params rest = Inl e" ..
      with kv Some Inr show ?thesis by simp
    qed
  qed
qed

lemma to_dict_bad:
  assumes "distinct (map fst (parameters f))" and "(k, v) \<in> set (parameters f)"
    and "not_none_not_str k \<or> not_none_not_str v"
  shows "\<exists>e. to_dict f = Inl e"
proof (cases f)
  case (OpenMLFlow a comps ps meta ext)
  with assms have "map_of ps k = Some v" by simp
  with assms(3) have "\<not> str_or_none k \<or> (\<exists>v. map_of ps k = Some v \<and> \<not> str_or_none v)"
    by (auto simp: str_or_none_def)
  from params_to_dict_bad[OF _ this, of v ps meta] assms(2) OpenMLFlow
  obtain e where "params_to_dict meta ps ps = Inl e" by auto
  with OpenMLFlow show ?thesis by (simp add: Let_def)
qed

lemma param_to_dict_ok:
  assumes "writable_param meta ps key" and "map_of ps key = Some dv"
  shows "\<exists>d. param_to_dict meta key dv = Inr d"
proof -
  from assms obtain info t d where
    m: "map_of meta key = Some (PDict info)" and t: "map_of info (PStr ''data_type'') = Some t"
    and d: "map_of info (PStr ''description'') = Some d"
    and ok: "str_or_none key" "str_or_none dv" "str_or_none t" "str_or_none d"
    unfolding writable_param_def by (auto split: option.splits pyval.splits)
  have "check_param_dict (add_if_nonempty (AList.update ''oml:default_value'' dv
          (add_if_nonempty [(''oml:name'', key)] ''oml:data_type'' t id)) ''oml:description'' d id) = Inr ()"
    unfolding check_param_dict_Inr using ok
    by (auto simp: add_if_nonempty_def split: if_splits)
  with m t d show ?thesis
    by (simp add: param_to_dict_def py_getitem_def Let_def)
qed

lemma params_to_dict_ok:
  assumes "list_all (writable_param meta ps) (map fst rest)"
  shows "\<exists>ds. params_to_dict meta ps rest = Inr ds"
  using assms
proof (induction rest)
  case Nil
  then show ?case by simp
next
  case (Cons kv rest)
  obtain key y where kv: "kv = (key, y)" by (cases kv)
  with Cons.prems have w: "writable_param meta ps key" by simp
  then obtain dv where dv: "map_of ps key = Some dv"
    unfolding writable_param_def by (auto split: option.splits)
  from param_to_dict_ok[OF w dv] obtain d where d: "param_to_dict meta key dv = Inr d" ..
  from Cons kv obtain ds where "params_to_dict meta ps rest = Inr ds" by auto
  with kv dv d show ?case by simp
qed

lemma to_dict_ok:
  "writable f \<longrightarrow> (\<exists>d. to_dict f = Inr [(''oml:flow'', d)])"
  "writable_list comps \<longrightarrow> (\<exists>ds. components_to_dict comps = Inr ds)"
proof (induction f and comps rule: to_dict_components_to_dict.induct)
  case (1 a comps ps meta ext)
  show ?case
  proof
    assume w: "writable (OpenMLFlow a comps ps meta ext)"
    then have n: "name a \<noteq> PNone" "external_version a \<noteq> PNone" by simp_all
    from w params_to_dict_ok[of meta ps ps] obtain fp where fp: "params_to_dict meta ps ps = Inr fp"
      by auto
    from "1.IH"[OF refl refl _ _ refl fp] n w obtain cs where "components_to_dict comps = Inr cs"
      by auto
    with n fp show "\<exists>d. to_dict (OpenMLFlow a comps ps meta ext) = Inr [(''oml:flow'', d)]"
      by (simp add: Let_def)
  qed
next
  case 2
  then show ?case by simp
next
  case (3 key sub_flow rest)
  show ?case
  proof
    assume w: "writable_list ((key, sub_flow) # rest)"
    with "3.IH"(1) obtain d where d: "to_dict sub_flow = Inr [(''oml:flow'', d)]" by auto
    have "map_of [(''oml:flow'', d)] ''oml:flow'' = Some d" by simp
    from "3.IH"(2)[OF d this] w obtain ds where "components_to_dict rest = Inr ds" by auto
    with d show "\<exists>ds. components_to_dict ((key, sub_flow) # rest) = Inr ds" by simp
  qed
qed

lemma init_no_value_check:
  assumes "set (map fst ps) = set (map fst meta)" and "g (OpenMLFlow (args\<lparr>tags := (if tags args \<noteq> PNone then tags args else PList [])\<rparr>) comps ps meta None) = Inr ext"
  shows "OpenMLFlow_init g args (OrderedDict comps) (OrderedDict ps) (OrderedDict meta) =
     Inr (OpenMLFlow (args\<lparr>tags := (if tags args \<noteq> PNone then tags args else PList [])\<rparr>) comps ps meta ext)"
  using assms unfolding OpenMLFlow_init_def by (simp add: Let_def)

text \<open>
  Claim C9, as amended. The constructor does not look at the types of parameter names and
  values: it returns a flow whenever the key sets agree and the extension lookup does not
  raise. The error comes from \<open>_to_dict\<close>: it raises for every flow in which some parameter
  name or stored default value is neither \<open>None\<close> nor a string; and it returns the document
  for a flow in which \<open>name\<close> and \<open>external_version\<close> are set and every parameter name,
  default value and metadata entry is a string or \<open>None\<close>, throughout the component tree.
\<close>

theorem non_string_parameter_raises_in_to_dict:
  "(set (map fst ps) = set (map fst meta) \<and> (\<forall>x. \<exists>ext. g x = Inr ext) \<longrightarrow>
      (\<exists>f. OpenMLFlow_init g args (OrderedDict comps) (OrderedDict ps) (OrderedDict meta) = Inr f \<and>
           parameters f = ps)) \<and>
   (distinct (map fst (parameters f)) \<and> (k, v) \<in> set (parameters f) \<and>
      (not_none_not_str k \<or> not_none_not_str v) \<longrightarrow> (\<exists>e. to_dict f = Inl e)) \<and>
   (writable f \<longrightarrow> (\<exists>d. to_dict f = Inr [(''oml:flow'', d)]))"
proof (intro conjI impI)
  assume a: "set (map fst ps) = set (map fst meta) \<and> (\<forall>x. \<exists>ext. g x = Inr ext)"
  let ?args = "args\<lparr>tags := (if tags args \<noteq> PNone then tags args else PList [])\<rparr>"
  from a obtain ext where e: "g (OpenMLFlow ?args comps ps meta None) = Inr ext" by blast
  from a have k: "set (map fst ps) = set (map fst meta)" by simp
  from init_no_value_check[of ps meta g args comps ext, OF k e]
  show "\<exists>f. OpenMLFlow_init g args (OrderedDict comps) (OrderedDict ps) (OrderedDict meta) = Inr f \<and> parameters f = ps"
    by auto
next
  assume "distinct (map fst (parameters f)) \<and> (k, v) \<in> set (parameters f) \<and>
      (not_none_not_str k \<or> not_none_not_str v)"
  then show "\<exists>e. to_dict f = Inl e" using to_dict_bad[of f k v] by blast
next
  assume "writable f"
  then show "\<exists>d. to_dict f = Inr [(''oml:flow'', d)]" using to_dict_ok(1) by blast
qed


theorem non_string_parameter_raises_in_to_dict_witness:
  "(\<exists>f. OpenMLFlow_init (\<lambda>x. Inr None) (example_fields ''sklearn.tree.tree.DecisionTreeClassifier'')
      (OrderedDict []) (OrderedDict (parameters flow_bad_value))
      (OrderedDict (parameters_meta_info flow_bad_value)) = Inr f \<and>
      parameters f = [(PStr ''max_depth'', PInt 5)]) \<and>
   to_dict flow_bad_value =
     Inl (ValueError ''Parameter value cannot be serialized. Only strings can be serialized.'') \<and>
   (\<exists>d. to_dict flow_good_value = Inr [(''oml:flow'', d)])"
proof -
  have k: "set (map fst (parameters flow_bad_value)) = set (map fst (parameters_meta_info flow_bad_value)) \<and>
      (\<forall>x. \<exists>ext. (\<lambda>x. Inr None :: pyerr + string option) x = Inr ext)"
    by (simp add: flow_bad_value_def)
  have w: "writable flow_good_value"
    by (simp add: flow_good_value_def writable_param_def str_or_none_def not_none_not_str_def
        is_str_def example_fields_def)
  have b: "to_dict flow_bad_value =
     Inl (ValueError ''Parameter value cannot be serialized. Only strings can be serialized.'')"
    by (simp add: flow_bad_value_def example_fields_def param_to_dict_def py_getitem_def
        add_if_nonempty_def not_none_not_str_def is_str_def Let_def)
  from non_string_parameter_raises_in_to_dict[of "parameters flow_bad_value"
      "parameters_meta_info flow_bad_value" "\<lambda>x. Inr None"
      "example_fields ''sklearn.tree.tree.DecisionTreeClassifier''" "[]" flow_good_value] k w b
  show ?thesis by (simp add: flow_bad_value_def)
qed

text \<open>
  The claim as written places the error at construction time; the constructor accepts
  the integer default value.
\<close>

theorem constructor_accepts_non_string_value_counterexample:
  "not_none_not_str (PInt 5) \<and>
   OpenMLFlow_init (\<lambda>x. Inr None) (example_fields ''sklearn.tree.tree.DecisionTreeClassifier'')
     (OrderedDict [])
     (OrderedDict [(PStr ''max_depth'', PInt 5)])
     (OrderedDict [(PStr ''max_depth'', PDict [(PStr ''description'', PNone), (PStr ''data_type'', PNone)])])
   = Inr flow_bad_value"
  by (simp add: OpenMLFlow_init_def flow_bad_value_def example_fields_def not_none_not_str_def
      is_str_def Let_def)

section \<open>Properties of the scikit-learn extension\<close>

subsection \<open>The result monad and the working copy of the components\<close>

lemma bind_r_Inr: "bind_r m f = Some (Inr y) \<longleftrightarrow> (\<exists>x. m = Some (Inr x) \<and> f x = Some (Inr y))"
  by (auto simp: bind_r_def split: option.splits sum.splits)

lemma ok_Inr [simp]: "ok x = Some (Inr y) \<longleftrightarrow> x = y"
  by (simp add: ok_def)

lemma raise_Inr [simp]: "raise e \<noteq> Some (Inr y)"
  by (simp add: raise_def)

lemma bind_r_ok [simp]: "bind_r (ok x) f = f x"
  by (simp add: bind_r_def ok_def)

lemma bind_r_Some_Inr [simp]: "bind_r (Some (Inr x)) f = f x"
  by (simp add: bind_r_def)

lemma bind_r_Some_Inl [simp]: "bind_r (Some (Inl e)) f = Some (Inl e)"
  by (simp add: bind_r_def)

lemma bind_r_raise [simp]: "bind_r (raise e) f = raise e"
  by (simp add: bind_r_def raise_def)

lemma elements_none:
  assumes "\<And>x r w. des x None = Some (Inr (r, w)) \<Longrightarrow> w = None"
  shows "deserialize_elements des xs None = Some (Inr (rs, w)) \<Longrightarrow> w = None"
proof (induction xs arbitrary: rs w)
  case Nil
  then show ?case by simp
next
  case (Cons x xs)
  from Cons.prems obtain r w1 rs' w2 where
    1: "des x None = Some (Inr (r, w1))" and 2: "deserialize_elements des xs w1 = Some (Inr (rs', w2))"
    and 3: "w = w2"
    by (auto simp: bind_r_Inr)
  from assms[OF 1] have "w1 = None" .
  with 2 Cons.IH 3 show ?case by simp
qed

lemma items_none:
  assumes "\<And>x r w. des x None = Some (Inr (r, w)) \<Longrightarrow> w = None"
  shows "deserialize_items des xs None acc = Some (Inr (rs, w)) \<Longrightarrow> w = None"
proof (induction xs arbitrary: rs w acc)
  case Nil
  then show ?case by simp
next
  case (Cons kv xs)
  obtain k v where kv: "kv = (k, v)" by (cases kv)
  from Cons.prems kv obtain k' w1 v' w2 where
    1: "des k None = Some (Inr (k', w1))" and 2: "des v w1 = Some (Inr (v', w2))"
    and 3: "deserialize_items des xs w2 (AList.update k' v' acc) = Some (Inr (rs, w))"
    by (auto simp: bind_r_Inr split: if_splits)
  from assms[OF 1] have w1: "w1 = None" .
  with 2 assms have "w2 = None" by simp
  with 3 Cons.IH show ?case by simp
qed

lemma none_pool:
  "deserialize_sklearn E n x None d = Some (Inr (r, w)) \<Longrightarrow> w = None"
proof (induction n arbitrary: x d r w)
  case 0
  then show ?case by simp
next
  case (Suc n)
  have des: "\<And>x r w. (\<lambda>x c. deserialize_sklearn E n x c d) x None = Some (Inr (r, w)) \<Longrightarrow> w = None"
    using Suc.IH by simp
  have e: "\<And>xs rs w. deserialize_elements (\<lambda>x c. deserialize_sklearn E n x c d) xs None = Some (Inr (rs, w)) \<Longrightarrow> w = None"
    by (rule elements_none[of "\<lambda>x c. deserialize_sklearn E n x c d", OF des])
  have i: "\<And>xs acc rs w. deserialize_items (\<lambda>x c. deserialize_sklearn E n x c d) xs None acc = Some (Inr (rs, w)) \<Longrightarrow> w = None"
    by (rule items_none[of "\<lambda>x c. deserialize_sklearn E n x c d", OF des])
  from Suc.prems show ?case
    by (auto simp: bind_r_Inr resolve_reference_def split: obj.splits option.splits sum.splits if_splits dest: e i)
qed

subsection \<open>Decoding a special value\<close>

text \<open>
  Claim C5. A mapping that carries the marker key \<open>oml-python:serialized_object\<close> is decoded
  by its tag. A tag outside the five recognised ones makes \<open>_deserialize_sklearn\<close> raise:
  \<open>KeyError\<close> if the mapping has no \<open>value\<close> (it is read before the tag is examined),
  \<open>ValueError\<close> otherwise. Each of the five tags hands the \<open>value\<close> to its own decoder:
  \<open>type\<close> to \<open>deserialize_type\<close>, \<open>rv_frozen\<close> to \<open>_deserialize_rv_frozen\<close>, \<open>function\<close> to
  \<open>_deserialize_function\<close>, \<open>component_reference\<close> to the lookup among the components,
  \<open>cv_object\<close> to \<open>_deserialize_cross_validator\<close>.
\<close>

theorem special_value_dispatch:
  assumes "json_decoded E ob = ODict ordered items"
    and "map_of items (OStr ''oml-python:serialized_object'') = Some tag"
  shows "(tag \<notin> set recognized_tags \<longrightarrow>
            deserialize_sklearn E (Suc n) ob working d =
              (if map_of items (OStr ''value'') = None then raise (KeyError ''value'')
               else raise (ValueError ''Cannot flow_to_sklearn''))) \<and>
         (\<forall>val. map_of items (OStr ''value'') = Some val \<longrightarrow>
            (tag = OStr ''type'' \<longrightarrow>
               deserialize_sklearn E (Suc n) ob working d =
                 bind_r (Some (deserialize_type val)) (\<lambda>rval. ok (rval, working))) \<and>
            (tag = OStr ''rv_frozen'' \<longrightarrow>
               deserialize_sklearn E (Suc n) ob working d =
                 bind_r (Some (deserialize_rv_frozen E val)) (\<lambda>rval. ok (rval, working))) \<and>
            (tag = OStr ''function'' \<longrightarrow>
               deserialize_sklearn E (Suc n) ob working d =
                 bind_r (Some (deserialize_function E val)) (\<lambda>rval. ok (rval, working))) \<and>
            (tag = OStr ''component_reference'' \<longrightarrow>
               deserialize_sklearn E (Suc n) ob working d =
                 resolve_reference (\<lambda>x i. deserialize_sklearn E n x None i) working val d) \<and>
            (tag = OStr ''cv_object'' \<longrightarrow>
               deserialize_sklearn E (Suc n) ob working d =
                 bind_r (deserialize_cross_validator E n val) (\<lambda>rval. ok (rval, working))))"
  using assms by (auto simp: recognized_tags_def split: option.splits)

theorem special_value_dispatch_witness:
  "deserialize_sklearn example_env 1
     (ODict False [(OStr ''oml-python:serialized_object'', OStr ''estimator''), (OStr ''value'', OInt 1)])
     None False = raise (ValueError ''Cannot flow_to_sklearn'') \<and>
   deserialize_sklearn example_env 1
     (OStr ''{\"oml-python:serialized_object\": \"type\", \"value\": \"np.float32\"}'')
     None False = ok (OType TFloat32, None)"
proof -
  have d: "json_decoded example_env
             (OStr ''{\"oml-python:serialized_object\": \"type\", \"value\": \"np.float32\"}'') =
           ODict False [(OStr ''oml-python:serialized_object'', OStr ''type''),
                        (OStr ''value'', OStr ''np.float32'')]"
    by code_simp
  have t: "deserialize_type (OStr ''np.float32'') = Inr (OType TFloat32)"
    by code_simp
  from special_value_dispatch[of example_env _ False
      "[(OStr ''oml-python:serialized_object'', OStr ''estimator''), (OStr ''value'', OInt 1)]"
      "OStr ''estimator''" 0 None False]
    special_value_dispatch[OF d, of "OStr ''type''" 0 None False] t
  show ?thesis
    by (simp add: json_decoded_def recognized_tags_def del: deserialize_sklearn.simps)
qed

subsection \<open>Resolving a component reference\<close>

lemma sort2: "sort_key str_key [(OStr ''key'', a), (OStr ''step_name'', b)] = [(OStr ''key'', a), (OStr ''step_name'', b)]"
  by (simp add: str_key_def)

lemma sort3: "sort_key str_key [(OStr ''key'', a), (OStr ''step_name'', b), (OStr ''argument_1'', c)] = [(OStr ''argument_1'', c), (OStr ''key'', a), (OStr ''step_name'', b)]"
  by (simp add: str_key_def)

lemma deserialize_plain_string:
  assumes "json_loads E s = None"
  shows "deserialize_sklearn E (Suc n) (OStr s) w d = ok (OStr s, w)"
  using assms by (simp add: json_decoded_def)

lemma deserialize_none: "deserialize_sklearn E (Suc n) ONone w d = ok (ONone, w)"
  by (simp add: json_decoded_def)

lemma deserialize_step_name:
  assumes "step_name = ONone \<or> (\<exists>s. step_name = OStr s \<and> json_loads E s = None)"
  shows "deserialize_sklearn E (Suc n) step_name w d = ok (step_name, w)"
  using assms deserialize_plain_string deserialize_none by blast

lemma decode_reference_value:
  assumes "json_loads E ''key'' = None" "json_loads E ''step_name'' = None"
    and "json_loads E k = None"
    and "step_name = ONone \<or> (\<exists>s. step_name = OStr s \<and> json_loads E s = None)"
  shows "deserialize_sklearn E (Suc (Suc n)) (ODict o2 [(OStr ''key'', OStr k), (OStr ''step_name'', step_name)]) None False =
         ok (ODict True [(OStr ''key'', OStr k), (OStr ''step_name'', step_name)], None)"
proof -
  note s = deserialize_step_name[OF assms(4)]
  show ?thesis
    using assms(1-3)
    by (simp add: json_decoded_def sorted_items_def is_ostr_def str_key_def s del: deserialize_sklearn.simps
        add: deserialize_sklearn.simps(2)[of E "Suc n"] deserialize_plain_string)
qed


lemma decode_reference_value_arg:
  assumes "json_loads E ''key'' = None" "json_loads E ''step_name'' = None"
    "json_loads E ''argument_1'' = None"
    and "json_loads E k = None"
    and "step_name = ONone \<or> (\<exists>s. step_name = OStr s \<and> json_loads E s = None)"
    and "deserialize_sklearn E (Suc n) a None False = ok (a', None)"
  shows "deserialize_sklearn E (Suc (Suc n))
           (ODict o2 [(OStr ''key'', OStr k), (OStr ''step_name'', step_name), (OStr ''argument_1'', a)]) None False =
         ok (ODict True [(OStr ''argument_1'', a'), (OStr ''key'', OStr k), (OStr ''step_name'', step_name)], None)"
proof -
  note s = deserialize_step_name[OF assms(5)]
  show ?thesis
    using assms(1-4,6)
    by (simp add: json_decoded_def sorted_items_def is_ostr_def str_key_def s del: deserialize_sklearn.simps
        add: deserialize_sklearn.simps(2)[of E "Suc n"] deserialize_plain_string)
qed

lemma skip_resolved_component:
  "deserialize_components des comps [k] (AList.delete k working) parameter_dict = ok parameter_dict"
  by (simp add: delete_notin_dom cong: if_cong)

text \<open>
  Claim C4. A \<open>component_reference\<close> envelope, decoded with a working copy of the components
  that holds its key, yields the decoded component when \<open>step_name\<close> is \<open>None\<close>, the pair of
  the step name and the component when there is no \<open>argument_1\<close>, and the triple with the
  decoded \<open>argument_1\<close> otherwise; the key is deleted from the working copy, so the loop over
  the remaining components of \<open>_deserialize_model\<close> passes it by. The decoder tries every
  string as JSON, also the strings inside the envelope, so this is stated for a key and a
  step name that \<open>json.loads\<close> rejects (as it rejects the three field names).
\<close>

theorem component_reference_resolution:
  assumes "json_loads E ''key'' = None" and "json_loads E ''step_name'' = None"
    and "json_loads E ''argument_1'' = None"
    and "json_loads E k = None"
    and "step_name = ONone \<or> (\<exists>s. step_name = OStr s \<and> json_loads E s = None)"
    and "json_decoded E ob = ODict o1 items"
    and "map_of items (OStr ''oml-python:serialized_object'') = Some (OStr ''component_reference'')"
    and "map_of items (OStr ''value'') =
           Some (ODict o2 ([(OStr ''key'', OStr k), (OStr ''step_name'', step_name)] @ arg))"
    and "arg = [] \<or>
         (arg = [(OStr ''argument_1'', a)] \<and> deserialize_sklearn E (Suc n) a None False = ok (a', None))"
    and "map_of comps k = Some component_flow"
    and "deserialize_sklearn E (Suc (Suc n)) (OFlow component_flow) None d = ok (component, u)"
  shows "deserialize_sklearn E (Suc (Suc (Suc n))) ob (Some comps) d =
           ok (if step_name = ONone then component
               else if arg = [] then OTuple [step_name, component]
               else OTuple [step_name, component, a'],
               Some (AList.delete k comps)) \<and>
         deserialize_components des comps' [k] (AList.delete k comps) parameter_dict = ok parameter_dict"
proof -
  have v: "\<exists>v. deserialize_sklearn E (Suc (Suc n))
             (ODict o2 ([(OStr ''key'', OStr k), (OStr ''step_name'', step_name)] @ arg)) None False = ok (v, None) \<and>
           py_subscript v ''step_name'' = Inr step_name \<and> py_subscript v ''key'' = Inr (OStr k) \<and>
           reference_result v step_name component =
             (if step_name = ONone then component
              else if arg = [] then OTuple [step_name, component]
              else OTuple [step_name, component, a'])"
  proof (cases "arg = []")
    case True
    with decode_reference_value[OF assms(1,2,4,5), of n o2] show ?thesis
      by (auto simp: py_subscript_def reference_result_def)
  next
    case False
    with assms(9) have arg: "arg = [(OStr ''argument_1'', a)]"
      and a: "deserialize_sklearn E (Suc n) a None False = ok (a', None)" by auto
    from decode_reference_value_arg[OF assms(1-5) a, of o2] arg show ?thesis
      by (auto simp: py_subscript_def reference_result_def)
  qed
  then obtain v where
    1: "deserialize_sklearn E (Suc (Suc n))
          (ODict o2 ([(OStr ''key'', OStr k), (OStr ''step_name'', step_name)] @ arg)) None False = ok (v, None)"
    and 2: "py_subscript v ''step_name'' = Inr step_name" and 3: "py_subscript v ''key'' = Inr (OStr k)"
    and 4: "reference_result v step_name component =
             (if step_name = ONone then component
              else if arg = [] then OTuple [step_name, component]
              else OTuple [step_name, component, a'])"
    by blast
  have "deserialize_sklearn E (Suc (Suc (Suc n))) ob (Some comps) d =
          resolve_reference (\<lambda>x i. deserialize_sklearn E (Suc (Suc n)) x None i) (Some comps)
            (ODict o2 ([(OStr ''key'', OStr k), (OStr ''step_name'', step_name)] @ arg)) d"
    using assms(6-8) by (simp del: deserialize_sklearn.simps add: deserialize_sklearn.simps(2)[of E "Suc (Suc n)" ob])
  also have "\<dots> = ok (reference_result v step_name component, Some (AList.delete k comps))"
    unfolding resolve_reference_def
    using 1 2 3 assms(10,11)
    by (simp add: components_getitem_def del: deserialize_sklearn.simps)
  finally show ?thesis using 4 skip_resolved_component by simp
qed

theorem component_reference_resolution_witness:
  "deserialize_sklearn example_env 5
     (OStr ''{\"oml-python:serialized_object\": \"component_reference\", \"value\": {\"key\": \"clf\", \"step_name\": \"clf\"}}'')
     (Some [(''scaler'', tree_flow), (''clf'', tree_flow)]) False =
   ok (OTuple [OStr ''clf'', tree_model], Some [(''scaler'', tree_flow)])"
proof -
  let ?ob = "OStr ''{\"oml-python:serialized_object\": \"component_reference\", \"value\": {\"key\": \"clf\", \"step_name\": \"clf\"}}''"
  let ?items = "[(OStr ''oml-python:serialized_object'', OStr ''component_reference''),
                 (OStr ''value'', ODict False [(OStr ''key'', OStr ''clf''), (OStr ''step_name'', OStr ''clf'')])]"
  have l: "json_loads example_env ''key'' = None" "json_loads example_env ''step_name'' = None"
    "json_loads example_env ''argument_1'' = None" "json_loads example_env ''clf'' = None"
    by code_simp+
  have s: "OStr ''clf'' = ONone \<or> (\<exists>s. OStr ''clf'' = OStr s \<and> json_loads example_env s = None)"
    using l(4) by simp
  have d: "json_decoded example_env ?ob = ODict False ?items"
    by code_simp
  have m: "map_of ?items (OStr ''oml-python:serialized_object'') = Some (OStr ''component_reference'')"
    "map_of ?items (OStr ''value'') =
       Some (ODict False ([(OStr ''key'', OStr ''clf''), (OStr ''step_name'', OStr ''clf'')] @ []))"
    by simp_all
  have c: "map_of [(''scaler'', tree_flow), (''clf'', tree_flow)] ''clf'' = Some tree_flow"
    by simp
  have f: "deserialize_sklearn example_env (Suc (Suc 2)) (OFlow tree_flow) None False = ok (tree_model, None)"
    by code_simp
  have n: "Suc (Suc (Suc 2)) = 5"
    by simp
  have a: "[] = [] \<or> ([] = [(OStr ''argument_1'', ONone)] \<and>
             deserialize_sklearn example_env (Suc 2) ONone None False = ok (ONone, None))"
    by simp
  from component_reference_resolution[OF l(1-3) l(4) s d m a c f]
  show ?thesis
    by (simp only: n) simp
qed

text \<open>
  A step of a pipeline may be called \<open>1\<close>. Its reference is written with the key \<open>"1"\<close>,
  which the decoder reads back as the number 1, and the lookup among the components fails.
\<close>

theorem numeric_key_reference_counterexample:
  "deserialize_sklearn example_env 5
     (OStr ''{\"oml-python:serialized_object\": \"component_reference\", \"value\": {\"key\": \"1\", \"step_name\": \"1\"}}'')
     (Some [(''1'', tree_flow)]) False = raise (KeyError ''key'')"
  by code_simp

subsection \<open>Initialising with the defaults\<close>

lemma dropped_Nil [simp]: "\<not> dropped [] ck key"
  by (simp add: dropped_def)

lemma dropped_Cons:
  "dropped (p # ps) ck key \<longleftrightarrow> (key = OStr p \<and> p \<notin> set ck) \<or> dropped ps ck key"
  by (auto simp: dropped_def)

lemma delete_filter: "AList.delete k xs = filter (\<lambda>(k', v). k' \<noteq> k) xs"
  by (induction xs) auto

lemma drop_defaults_filter:
  assumes "distinct ps" and "\<forall>p \<in> set ps. p \<notin> set ck \<longrightarrow> OStr p \<in> set (map fst pd)"
  shows "drop_defaults ps ck pd = Inr (filter (\<lambda>(k, v). \<not> dropped ps ck k) pd)"
  using assms
proof (induction ps arbitrary: pd)
  case Nil
  then show ?case by simp
next
  case (Cons p ps)
  show ?case
  proof (cases "p \<in> set ck")
    case True
    with Cons show ?thesis by (simp add: dropped_Cons)
  next
    case False
    with Cons.prems have present: "OStr p \<in> set (map fst pd)" by simp
    let ?pd = "AList.delete (OStr p) pd"
    have "\<forall>q \<in> set ps. q \<notin> set ck \<longrightarrow> OStr q \<in> set (map fst ?pd)"
    proof (intro ballI impI)
      fix q assume q: "q \<in> set ps" "q \<notin> set ck"
      with Cons.prems have "OStr q \<in> set (map fst pd)" and "q \<noteq> p" by auto
      then show "OStr q \<in> set (map fst ?pd)" by (force simp: delete_filter)
    qed
    with Cons.IH[of ?pd] Cons.prems
    have "drop_defaults ps ck ?pd = Inr (filter (\<lambda>(k, v). \<not> dropped ps ck k) ?pd)" by simp
    moreover have "filter (\<lambda>(k, v). \<not> dropped ps ck k) ?pd = filter (\<lambda>(k, v). \<not> dropped (p # ps) ck k) pd"
      using False by (auto simp: delete_filter dropped_Cons intro: filter_cong)
    ultimately show ?thesis using False present by simp
  qed
qed

lemma drop_defaults_missing:
  assumes "p \<in> set ps" and "p \<notin> set ck" and "OStr p \<notin> set (map fst pd)"
  shows "\<exists>q. drop_defaults ps ck pd = Inl (KeyError q)"
  using assms
proof (induction ps arbitrary: pd)
  case Nil
  then show ?case by simp
next
  case (Cons a ps)
  show ?case
  proof (cases "a \<in> set ck")
    case True
    with Cons show ?thesis by auto
  next
    case False
    show ?thesis
    proof (cases "OStr a \<in> set (map fst pd)")
      case present: True
      with Cons.prems False have "p \<in> set ps" by auto
      moreover have "OStr p \<notin> set (map fst (AList.delete (OStr a) pd))"
        using Cons.prems(3) by (auto simp: delete_filter)
      ultimately obtain q where "drop_defaults ps ck (AList.delete (OStr a) pd) = Inl (KeyError q)"
        using Cons.IH Cons.prems(2) by blast
      with False present show ?thesis by simp
    next
      case False
      with \<open>a \<notin> set ck\<close> show ?thesis by simp
    qed
  qed
qed

lemma deserialize_model_call:
  "deserialize_model E (Suc n) f keep_defaults =
     bind_r (parameter_dict_of E n f keep_defaults) (\<lambda>parameter_dict.
     bind_r (Some (constructor_arguments E f keep_defaults parameter_dict))
       (\<lambda>(model_class, kwargs). Some (py_call E model_class kwargs)))"
  by (auto simp: parameter_dict_of_def bind_r_def split: option.splits sum.splits)

lemma helper_reports_positional_defaults:
  assumes "get_fn_arguments_with_defaults (OClass c) = Inr param_defaults"
  shows "map fst param_defaults = rev (positional_defaults c)"
proof (cases "init_defaults c")
  case None
  with assms show ?thesis
    by (auto simp: get_fn_arguments_with_defaults_def positional_defaults_def)
next
  case (Some ds)
  have "map fst (zip (rev (init_args c)) (rev ds)) = take (length ds) (rev (init_args c))"
    by (simp add: map_fst_zip_take min_def)
  with Some assms show ?thesis
    by (auto simp: get_fn_arguments_with_defaults_def positional_defaults_def take_rev
        split: if_splits)
qed

lemma helper_total: "\<exists>param_defaults. get_fn_arguments_with_defaults (OClass c) = Inr param_defaults"
  by (auto simp: get_fn_arguments_with_defaults_def split: option.splits)

lemma dropped_set:
  "set ps = set qs \<Longrightarrow> dropped ps ck = dropped qs ck"
  by (auto simp: dropped_def fun_eq_iff)

text \<open>
  Claim C3. \<open>_deserialize_model\<close> calls the class of the flow with keyword arguments. With
  \<open>initialize_with_defaults\<close> (here \<open>keep_defaults\<close>) the code deletes from the decoded
  parameters those that \<open>_get_fn_arguments_with_defaults\<close> reports and that are no key of
  the flow's components. For a class without keyword-only defaults, and when every
  parameter to delete is among the decoded ones, these are the parameters with a declared
  default that are no component key, whatever value the flow stores for them; a key of the
  components is never removed; without the flag nothing is removed. The names of the
  positional parameters of a Python function are distinct.
\<close>

theorem defaults_suppression:
  assumes "import_path E (embed (class_name (attrs f))) = Inr (OClass c)"
    and "distinct (init_args c)"
    and "init_kwonlydefaults c = []"
  shows "(constructor_arguments E f True parameter_dict = Inr (mc, kwargs) \<longrightarrow>
            mc = OClass c \<and>
            kwargs = filter (\<lambda>(k, v). \<not> dropped (declared_defaults c) (map fst (components f)) k) parameter_dict) \<and>
         ((\<forall>p \<in> set (declared_defaults c). p \<notin> set (map fst (components f)) \<longrightarrow>
              OStr p \<in> set (map fst parameter_dict)) \<longrightarrow>
            constructor_arguments E f True parameter_dict =
              Inr (OClass c,
                   filter (\<lambda>(k, v). \<not> dropped (declared_defaults c) (map fst (components f)) k) parameter_dict)) \<and>
         constructor_arguments E f False parameter_dict = Inr (OClass c, parameter_dict) \<and>
         (\<forall>k \<in> set (map fst (components f)).
            \<not> dropped (declared_defaults c) (map fst (components f)) (OStr k)) \<and>
         (parameter_dict_of E n f True = ok parameter_dict \<and>
          (\<forall>p \<in> set (declared_defaults c). p \<notin> set (map fst (components f)) \<longrightarrow>
              OStr p \<in> set (map fst parameter_dict)) \<longrightarrow>
            deserialize_model E (Suc n) f True =
              Some (py_call E (OClass c)
                      (filter (\<lambda>(k, v). \<not> dropped (declared_defaults c) (map fst (components f)) k)
                         parameter_dict)))"
proof -
  obtain param_defaults where g: "get_fn_arguments_with_defaults (OClass c) = Inr param_defaults"
    using helper_total by blast
  let ?ps = "map fst param_defaults" and ?ck = "map fst (components f)"
  have ps: "?ps = rev (positional_defaults c)"
    by (rule helper_reports_positional_defaults[OF g])
  have dist: "distinct ?ps"
    unfolding ps using assms(2) by (simp add: positional_defaults_def)
  have set_eq: "set ?ps = set (declared_defaults c)"
    unfolding ps using assms(3) by (simp add: declared_defaults_def)
  have dr: "dropped (declared_defaults c) ?ck = dropped ?ps ?ck"
    by (rule dropped_set[OF set_eq[symmetric]])
  have ok: "constructor_arguments E f True parameter_dict =
              Inr (OClass c, filter (\<lambda>(k, v). \<not> dropped ?ps ?ck k) parameter_dict)"
    if "\<forall>p \<in> set ?ps. p \<notin> set ?ck \<longrightarrow> OStr p \<in> set (map fst parameter_dict)"
    using drop_defaults_filter[OF dist that] assms(1) g
    by (simp add: constructor_arguments_def)
  have "mc = OClass c \<and> kwargs = filter (\<lambda>(k, v). \<not> dropped ?ps ?ck k) parameter_dict"
    if r: "constructor_arguments E f True parameter_dict = Inr (mc, kwargs)"
  proof (cases "\<forall>p \<in> set ?ps. p \<notin> set ?ck \<longrightarrow> OStr p \<in> set (map fst parameter_dict)")
    case True
    from ok[OF True] r show ?thesis by simp
  next
    case False
    then obtain p where "p \<in> set ?ps" "p \<notin> set ?ck" "OStr p \<notin> set (map fst parameter_dict)" by blast
    from drop_defaults_missing[OF this] obtain q where
      "drop_defaults ?ps ?ck parameter_dict = Inl (KeyError q)" ..
    with assms(1) g r show ?thesis by (simp add: constructor_arguments_def)
  qed
  moreover have "constructor_arguments E f False parameter_dict = Inr (OClass c, parameter_dict)"
    using assms(1) by (simp add: constructor_arguments_def)
  moreover have "\<forall>k \<in> set ?ck. \<not> dropped ?ps ?ck (OStr k)"
    by (auto simp: dropped_def)
  moreover have "deserialize_model E (Suc n) f True =
      Some (py_call E (OClass c) (filter (\<lambda>(k, v). \<not> dropped ?ps ?ck k) parameter_dict))"
    if "parameter_dict_of E n f True = ok parameter_dict"
      and "\<forall>p \<in> set ?ps. p \<notin> set ?ck \<longrightarrow> OStr p \<in> set (map fst parameter_dict)"
    using that(1) ok[OF that(2)] by (simp add: deserialize_model_call del: deserialize_model.simps)
  ultimately show ?thesis
    unfolding dr using ok set_eq by blast
qed

theorem defaults_suppression_witness:
  "parameter_dict_of example_env 4 boost_flow True =
     ok [(OStr ''base_estimator'',
          OEstimator class_DecisionTreeClassifier
            [(''max_depth'', ONone), (''min_samples_split'', OInt 2)]),
         (OStr ''n_estimators'', OInt 10)] \<and>
   deserialize_model example_env 5 boost_flow True =
     ok (OEstimator class_AdaBoostClassifier
           [(''base_estimator'',
             OEstimator class_DecisionTreeClassifier
               [(''max_depth'', ONone), (''min_samples_split'', OInt 2)]),
            (''n_estimators'', OInt 50)]) \<and>
   constructor_arguments example_env boost_flow False
     [(OStr ''base_estimator'',
       OEstimator class_DecisionTreeClassifier
         [(''max_depth'', ONone), (''min_samples_split'', OInt 2)]),
      (OStr ''n_estimators'', OInt 10)] =
   Inr (OClass class_AdaBoostClassifier,
        [(OStr ''base_estimator'',
          OEstimator class_DecisionTreeClassifier
            [(''max_depth'', ONone), (''min_samples_split'', OInt 2)]),
         (OStr ''n_estimators'', OInt 10)])"
proof -
  let ?tree = "OEstimator class_DecisionTreeClassifier
                 [(''max_depth'', ONone), (''min_samples_split'', OInt 2)]"
  let ?pd = "[(OStr ''base_estimator'', ?tree), (OStr ''n_estimators'', OInt 10)]"
  have i: "import_path example_env (embed (class_name (attrs boost_flow))) =
           Inr (OClass class_AdaBoostClassifier)"
    by code_simp
  have a: "distinct (init_args class_AdaBoostClassifier)"
    "init_kwonlydefaults class_AdaBoostClassifier = []"
    by (simp_all add: class_AdaBoostClassifier_def)
  have dd: "declared_defaults class_AdaBoostClassifier = [''base_estimator'', ''n_estimators'']"
    by (simp add: declared_defaults_def positional_defaults_def class_AdaBoostClassifier_def)
  have c: "map fst (components boost_flow) = [''base_estimator'']"
    by (simp add: boost_flow_def)
  have k: "filter (\<lambda>(k, v). \<not> dropped (declared_defaults class_AdaBoostClassifier)
                              (map fst (components boost_flow)) k) ?pd =
           [(OStr ''base_estimator'', ?tree)]"
    by (simp add: c dd dropped_def)
  have p: "parameter_dict_of example_env 4 boost_flow True = ok ?pd"
    by code_simp
  have call: "py_call example_env (OClass class_AdaBoostClassifier) [(OStr ''base_estimator'', ?tree)] =
              Inr (OEstimator class_AdaBoostClassifier
                     [(''base_estimator'', ?tree), (''n_estimators'', OInt 50)])"
    by code_simp
  have n: "Suc 4 = 5"
    by simp
  from defaults_suppression[OF i a, of ?pd "OClass class_AdaBoostClassifier"
      "[(OStr ''base_estimator'', ?tree)]" 4]
  show ?thesis
    unfolding k n by (simp add: c dd p call ok_def del: deserialize_model.simps)
qed

text \<open>
  The helper reads \<open>args\<close> and \<open>defaults\<close> of the signature only. A default of a
  keyword-only parameter (\<open>def __init__(self, *, max_depth=None, min_samples_split=2)\<close>)
  is not among them: the parameter is declared with a default, it is no component key,
  and it is passed to the constructor with the value the flow stores.
\<close>

theorem keyword_only_default_counterexample:
  "''max_depth'' \<in> set (declared_defaults class_DecisionTreeClassifier_keyword_only) \<and>
   ''max_depth'' \<notin> set (map fst (components keyword_tree_flow)) \<and>
   constructor_arguments example_env keyword_tree_flow True
     [(OStr ''max_depth'', OInt 3), (OStr ''min_samples_split'', OInt 2)] =
   Inr (OClass class_DecisionTreeClassifier_keyword_only,
        [(OStr ''max_depth'', OInt 3), (OStr ''min_samples_split'', OInt 2)]) \<and>
   flow_to_model example_env 4 (OFlow keyword_tree_flow) True =
     ok (OEstimator class_DecisionTreeClassifier_keyword_only
           [(''max_depth'', OInt 3), (''min_samples_split'', OInt 2)])"
  by code_simp

text \<open>
  The deletion is a \<open>del\<close>: a parameter with a default that the flow does not store makes
  it raise \<open>KeyError\<close>, and no model is built.
\<close>

lemma unstored_default_raises:
  "flow_to_model example_env 4 (OFlow sparse_tree_flow) True = raise (KeyError ''min_samples_split'')"
  by code_simp

subsection \<open>The guard against a search over \<open>n_jobs\<close>\<close>

lemma get_parameter_values_grid:
  "is_grid g \<longrightarrow> (\<exists>vs. get_parameter_values_recursive g nm = Inr vs \<and>
      (vs \<noteq> [] \<longleftrightarrow> (\<exists>k \<in> set (grid_parameters g). names_parameter nm k)))"
  "is_grid_list gs \<longrightarrow> (\<exists>vs. get_parameter_values_list gs nm = Inr vs \<and>
      (vs \<noteq> [] \<longleftrightarrow> (\<exists>k \<in> set (grid_parameters_list gs). names_parameter nm k)))"
  "list_all (\<lambda>kv. is_ostr (fst kv)) items \<longrightarrow> (\<exists>vs. get_parameter_values_dict items nm = Inr vs \<and>
      (vs \<noteq> [] \<longleftrightarrow> (\<exists>k \<in> set (map fst items). names_parameter nm k)))"
proof (induction g nm and gs nm and items nm rule: get_parameter_values_recursive_get_parameter_values_list_get_parameter_values_dict.induct)
  case (5 sub_grid rest parameter_name)
  show ?case
  proof
    assume g: "is_grid_list (sub_grid # rest)"
    with "5.IH"(1) obtain vs where vs: "get_parameter_values_recursive sub_grid parameter_name = Inr vs"
      "vs \<noteq> [] \<longleftrightarrow> (\<exists>k \<in> set (grid_parameters sub_grid). names_parameter parameter_name k)" by auto
    from "5.IH"(2)[OF vs(1)] g obtain ws where ws: "get_parameter_values_list rest parameter_name = Inr ws"
      "ws \<noteq> [] \<longleftrightarrow> (\<exists>k \<in> set (grid_parameters_list rest). names_parameter parameter_name k)" by auto
    from vs ws show "\<exists>vs. get_parameter_values_list (sub_grid # rest) parameter_name = Inr vs \<and>
      (vs \<noteq> [] \<longleftrightarrow> (\<exists>k \<in> set (grid_parameters_list (sub_grid # rest)). names_parameter parameter_name k))"
      by auto
  qed
next
  case (7 param val rest parameter_name)
  show ?case
  proof
    assume a: "list_all (\<lambda>kv. is_ostr (fst kv)) ((param, val) # rest)"
    then obtain p where p: "param = OStr p" by (auto simp: is_ostr_def split: obj.splits)
    from "7.IH"[OF p] a obtain vs where vs: "get_parameter_values_dict rest parameter_name = Inr vs"
      "vs \<noteq> [] \<longleftrightarrow> (\<exists>k \<in> set (map fst rest). names_parameter parameter_name k)" by auto
    with p show "\<exists>vs. get_parameter_values_dict ((param, val) # rest) parameter_name = Inr vs \<and>
      (vs \<noteq> [] \<longleftrightarrow> (\<exists>k \<in> set (map fst ((param, val) # rest)). names_parameter parameter_name k))"
      by (auto simp: names_parameter_def)
  qed
qed simp_all

text \<open>
  Claim C8. For a search wrapper (\<open>_is_hpo_class\<close>) whose search space is a dictionary keyed
  by parameter names, or a list of such dictionaries: if some key of the search space names
  \<open>n_jobs\<close>, of the wrapped estimator or of a component nested at any depth (\<open>n_jobs\<close>,
  \<open>clf__n_jobs\<close>, \<open>a__b__n_jobs\<close>), then \<open>_prevent_optimize_n_jobs\<close> raises \<open>PyOpenMLError\<close>
  and \<open>_run_model_on_fold\<close> raises it without entering the fitting code
  (\<open>fit_and_predict\<close>, whatever it is); if no key does, the guard passes and the fitting
  code is entered with the copy of the model.
\<close>

theorem n_jobs_guard:
  assumes "is_hpo_class model" and "param_distributions_of model = Inr space" and "is_grid space"
    and "clone model = Inr model"
    and "\<not> (is_supervised_task tsk \<and> (y_train = None \<or> X_test = None))"
  shows "((\<exists>k \<in> set (grid_parameters space). names_parameter ''n_jobs'' k) \<longrightarrow>
            prevent_optimize_n_jobs model =
              Inl (PyOpenMLError ''openml-python should not be used to optimize the n_jobs parameter.'') \<and>
            run_model_on_fold clone fit_and_predict model tsk X_train rep_no fold_no y_train X_test =
              Inl (PyOpenMLError ''openml-python should not be used to optimize the n_jobs parameter.'')) \<and>
         (\<not> (\<exists>k \<in> set (grid_parameters space). names_parameter ''n_jobs'' k) \<longrightarrow>
            prevent_optimize_n_jobs model = Inr () \<and>
            run_model_on_fold clone fit_and_predict model tsk X_train rep_no fold_no y_train X_test =
              fit_and_predict model)"
proof -
  from get_parameter_values_grid(1)[of space "''n_jobs''"] assms(3) obtain vs where
    vs: "get_parameter_values_recursive space ''n_jobs'' = Inr vs"
    "vs \<noteq> [] \<longleftrightarrow> (\<exists>k \<in> set (grid_parameters space). names_parameter ''n_jobs'' k)" by auto
  have p: "prevent_optimize_n_jobs model =
      (if vs \<noteq> [] then Inl (PyOpenMLError ''openml-python should not be used to optimize the n_jobs parameter.'')
       else Inr ())"
    using assms(1,2) vs(1) by (simp add: prevent_optimize_n_jobs_def)
  show ?thesis
    using p vs(2) assms(4,5) by (auto simp: run_model_on_fold_def)
qed

theorem n_jobs_guard_witness:
  "run_model_on_fold Inr (\<lambda>m. Inr m) search_model OpenMLClusteringTask ONone 0 0 None None =
     Inl (PyOpenMLError ''openml-python should not be used to optimize the n_jobs parameter.'') \<and>
   run_model_on_fold Inr (\<lambda>m. Inr m) plain_search_model OpenMLClassificationTask ONone 0 0
     (Some ONone) (Some ONone) = Inr plain_search_model"
proof -
  have h: "is_hpo_class search_model" "is_hpo_class plain_search_model"
    by code_simp+
  have p: "param_distributions_of search_model =
             Inr (ODict False [(OStr ''base_estimator__max_depth'', OList [OInt 1, OInt 2]),
                               (OStr ''base_estimator__n_jobs'', OList [OInt 1, OInt 2])])"
    "param_distributions_of plain_search_model =
             Inr (ODict False [(OStr ''base_estimator__max_depth'', OList [OInt 1, OInt 2])])"
    by code_simp+
  have s: "last_segment ''base_estimator__n_jobs'' = ''n_jobs''"
    "last_segment ''base_estimator__max_depth'' = ''max_depth''"
    by code_simp+
  from n_jobs_guard[OF h(1) p(1), of Inr OpenMLClusteringTask None None "\<lambda>m. Inr m" ONone 0 0]
    n_jobs_guard[OF h(2) p(2), of Inr OpenMLClassificationTask "Some ONone" "Some ONone"
      "\<lambda>m. Inr m" ONone 0 0]
  show ?thesis
    by (simp add: names_parameter_def is_ostr_def is_supervised_task_def s)
qed

subsection \<open>The check for a component that occurs twice\<close>

lemma all_nodes_list_names:
  "map (\<lambda>(p, g). name (attrs g)) (all_nodes_list comps) = forest_names (map snd comps)"
proof (induction comps)
  case Nil
  then show ?case by (simp add: forest_names_def)
next
  case (Cons kf comps)
  obtain k f where kf: "kf = (k, f)" by (cases kf)
  have "map (\<lambda>(p, g). name (attrs g)) (map (\<lambda>(p, g). (k # p, g)) (all_nodes f)) = component_names f"
    by (simp add: component_names_def split_def)
  with Cons kf show ?case by (simp add: forest_names_def)
qed

lemma component_names_root:
  "component_names f = name (attrs f) # forest_names (map snd (components f))"
  by (cases f) (simp add: component_names_def all_nodes_list_names)

lemma forest_names_append [simp]: "forest_names (xs @ ys) = forest_names xs @ forest_names ys"
  by (simp add: forest_names_def)

lemma forest_names_single [simp]: "forest_names [v] = component_names v"
  by (simp add: forest_names_def)

lemma forest_names_Cons: "forest_names (v # xs) = component_names v @ forest_names xs"
  by (simp add: forest_names_def)

lemma check_loop_distinct:
  "check_loop to_visit_stack known =
     (if distinct (forest_names to_visit_stack) \<and> set (forest_names to_visit_stack) \<inter> known = {}
      then Inr () else Inl (ValueError ''Found a second occurence of component''))"
proof (induction to_visit_stack known rule: check_loop.induct)
  case (1 to_visit_stack known)
  show ?case
  proof (cases "to_visit_stack = []")
    case True
    then show ?thesis by (simp add: check_loop.simps forest_names_def)
  next
    case False
    then obtain xs v where s: "to_visit_stack = xs @ [v]"
      by (metis append_butlast_last_id)
    show ?thesis
    proof (cases "name (attrs v) \<in> known")
      case True
      then show ?thesis
        using s by (subst check_loop.simps) (auto simp: component_names_root)
    next
      case notin: False
      from "1.IH"[OF False refl refl] notin s
      have "check_loop (xs @ map snd (components v)) (insert (name (attrs v)) known) =
              (if distinct (forest_names (xs @ map snd (components v))) \<and>
                  set (forest_names (xs @ map snd (components v))) \<inter> insert (name (attrs v)) known = {}
               then Inr () else Inl (ValueError ''Found a second occurence of component''))"
        by simp
      moreover have "check_loop to_visit_stack known =
          check_loop (xs @ map snd (components v)) (insert (name (attrs v)) known)"
        using s notin by (subst check_loop.simps) simp
      moreover have "(distinct (forest_names (xs @ map snd (components v))) \<and>
                  set (forest_names (xs @ map snd (components v))) \<inter> insert (name (attrs v)) known = {})
            \<longleftrightarrow> (distinct (forest_names to_visit_stack) \<and> set (forest_names to_visit_stack) \<inter> known = {})"
        using s notin by (auto simp: component_names_root)
      ultimately show ?thesis by simp
    qed
  qed
qed

lemma check_distinct:
  "check_multiple_occurence_of_component_in_flow sub_components =
     (if distinct (forest_names (map snd sub_components)) then Inr ()
      else Inl (ValueError ''Found a second occurence of component''))"
  by (simp add: check_multiple_occurence_of_component_in_flow_def check_loop_distinct)


lemma flow_free_flows_of: "flow_free x \<Longrightarrow> flows_of x = {}"
  by (induction x rule: flow_free.induct) (auto simp: list_all_iff)

lemma update_values: "(a, b) \<in> set (AList.update k v al) \<Longrightarrow> b = v \<or> (a, b) \<in> set al"
  by (induction al) (auto split: if_splits)

lemma forest_names_mem:
  "x \<in> set (forest_names fs) \<longleftrightarrow> (\<exists>f \<in> set fs. x \<in> set (component_names f))"
  by (auto simp: forest_names_def)

lemma well_named_bound:
  assumes "well_named f" and "x \<in> set (component_names f)"
  shows "name_length x \<le> name_length (name (attrs f))"
  using assms by (auto simp: well_named_def component_names_root[of f])

lemma sub_components_names_length:
  "sub_components_names explicit subs = Inr s \<Longrightarrow> (k, f) \<in> set subs \<Longrightarrow>
     name_length (name (attrs f)) < length s"
proof (induction subs arbitrary: s)
  case Nil
  then show ?case by simp
next
  case (Cons kf subs)
  obtain k' f' where kf: "kf = (k', f')" by (cases kf)
  from Cons.prems(1) kf obtain k'' n s' where
    1: "k' = OStr k''" "name (attrs f') = PStr n" "sub_components_names explicit subs = Inr s'"
    and 2: "s = (if k' \<in> set explicit then '','' @ k'' @ ''='' @ n else '','' @ n) @ s'"
    by (auto split: obj.splits pyval.splits sum.splits)
  show ?case
  proof (cases "(k, f) = (k', f')")
    case True
    with 1 2 show ?thesis by auto
  next
    case False
    with Cons.prems(2) kf have "(k, f) \<in> set subs" by auto
    from Cons.IH[OF 1(3) this] 2 show ?thesis by auto
  qed
qed


lemma string_keys_values [simp]: "map snd (string_keys subs) = map snd subs"
  by (induction subs) (auto simp: string_keys_def)

lemma OpenMLFlow_init_result:
  assumes "OpenMLFlow_init ext args (OrderedDict comps) ps meta = Inr f"
  shows "name (attrs f) = name args \<and> components f = comps"
  using assms
  by (auto simp: OpenMLFlow_init_def Let_def split: odict_arg.splits if_splits sum.splits)

lemma build_flow_well_named:
  assumes "components_well_named st" and "build_flow E c st = Inr f"
  shows "well_named f"
proof -
  let ?subs = "ex_sub_components st"
  from assms(2) have chk: "check_multiple_occurence_of_component_in_flow ?subs = Inr ()"
    by (auto simp: build_flow_def split: sum.splits)
  then have d: "distinct (forest_names (map snd ?subs))"
    by (simp add: check_distinct split: if_splits)
  from assms(2) chk obtain names flow_name where
    n: "sub_components_names (ex_sub_components_explicit st) ?subs = Inr names"
    and fn: "flow_name = (if names \<noteq> [] then (cls_module c @ ''.'' @ cls_name c) @ ''('' @ tl names @ '')''
                          else cls_module c @ ''.'' @ cls_name c)"
    and r: "name (attrs f) = PStr flow_name \<and> components f = string_keys ?subs"
    by (auto simp: build_flow_def Let_def split: sum.splits dest!: OpenMLFlow_init_result)
  have b: "name_length x < length flow_name" if "x \<in> set (forest_names (map snd ?subs))" for x
  proof -
    from that obtain k g where g: "(k, g) \<in> set ?subs" "x \<in> set (component_names g)"
      by (auto simp: forest_names_mem)
    from assms(1) g(1) have "well_named g" by (force simp: components_well_named_def)
    from well_named_bound[OF this g(2)] sub_components_names_length[OF n g(1)]
    have "name_length x < length names" by simp
    moreover have "length names \<le> length flow_name" using fn by (cases names) auto
    ultimately show ?thesis by simp
  qed
  have nf: "forest_names (map snd (components f)) = forest_names (map snd ?subs)"
    using r by simp
  have "PStr flow_name \<notin> set (forest_names (map snd ?subs))"
    using b[of "PStr flow_name"] by auto
  with d r b show ?thesis
    unfolding well_named_def component_names_root[of f] nf by simp
qed

lemma named_sub_components_well_named:
  assumes "named_sub_components reserved xs parameter_value st = Inr (pv, st')"
    and "components_well_named st" and "\<forall>t \<in> set xs. \<forall>f \<in> flows_of t. well_named f"
  shows "components_well_named st'"
  using assms
proof (induction xs arbitrary: parameter_value st)
  case Nil
  then show ?case by simp
next
  case (Cons t xs)
  from Cons.prems(1) obtain ts where ts: "sequence_elements t = Some ts" "2 \<le> length ts"
    by (auto split: option.splits if_splits)
  have sub: "flows_of (ts ! 1) \<subseteq> flows_of t"
  proof -
    from ts(2) have "ts ! 1 \<in> set ts" by simp
    with ts(1) show ?thesis by (auto simp: sequence_elements_def split: obj.splits)
  qed
  show ?case
  proof (cases "ts ! 1")
    case (OFlow g)
    with sub Cons.prems(3) have g: "well_named g" by auto
    let ?st = "st\<lparr>ex_sub_components_explicit := ts ! 0 # ex_sub_components_explicit st,
                   ex_sub_components := AList.update (ts ! 0) g (ex_sub_components st)\<rparr>"
    from Cons.prems(1) ts OFlow obtain pv' where
      rec: "named_sub_components reserved xs pv' ?st = Inr (pv, st')"
      by (auto simp: Let_def split: if_splits)
    have "components_well_named ?st"
      using Cons.prems(2) g
      by (auto simp: components_well_named_def dest!: update_values)
    from Cons.IH[OF rec this] Cons.prems(3) show ?thesis by simp
  next
    case ONone
    with Cons.prems(1) ts obtain pv' where
      rec: "named_sub_components reserved xs pv' st = Inr (pv, st')"
      by (auto simp: Let_def split: if_splits)
    from Cons.IH[OF rec Cons.prems(2)] Cons.prems(3) show ?thesis by simp
  qed (use Cons.prems(1) ts in \<open>auto simp: Let_def split: if_splits\<close>)
qed

lemma store_parameter_well_named:
  assumes "store_parameter E reserved k rval st = Inr st'"
    and "components_well_named st" and "\<forall>f \<in> flows_of rval. well_named f"
  shows "components_well_named st'"
proof (cases "is_non_empty_list_of_lists_with_same_type rval \<and> \<not> all_simple rval")
  case True
  then obtain xs where xs: "sequence_elements rval = Some xs"
    by (auto simp: is_non_empty_list_of_lists_with_same_type_def split: option.splits)
  with assms(3) have el: "\<forall>t \<in> set xs. \<forall>f \<in> flows_of t. well_named f"
    by (auto simp: sequence_elements_def split: obj.splits)
  from assms(1) True xs obtain pv st1 where
    1: "named_sub_components reserved xs [] st = Inr (pv, st1)"
    and 2: "ex_sub_components st' = ex_sub_components st1"
    by (auto simp: store_parameter_def Let_def split: sum.splits)
  from named_sub_components_well_named[OF 1 assms(2) el] 2 show ?thesis
    by (simp add: components_well_named_def)
next
  case False
  show ?thesis
  proof (cases rval)
    case (OFlow g)
    with assms(3) have "well_named g" by simp
    with assms(1,2) False OFlow show ?thesis
      by (auto simp: store_parameter_def Let_def components_well_named_def split: sum.splits
          dest!: update_values)
  qed (use assms(1,2) False in
        \<open>auto simp: store_parameter_def Let_def components_well_named_def split: sum.splits if_splits\<close>)
qed


lemma empty_well_named [simp]: "components_well_named empty_extracted"
  by (simp add: components_well_named_def empty_extracted_def)

lemma serialize_well_named:
  "flow_free ob \<longrightarrow> (\<forall>r. serialize_sklearn E ob = Inr r \<longrightarrow> (\<forall>f \<in> flows_of r. well_named f))"
  "list_all flow_free xs \<longrightarrow>
     (\<forall>ys. serialize_elements E xs = Inr ys \<longrightarrow> (\<forall>y \<in> set ys. \<forall>f \<in> flows_of y. well_named f))"
  "serialize_items E items acc = serialize_items E items acc"
  "list_all (\<lambda>kv. flow_free (snd kv)) ps \<longrightarrow> components_well_named st \<longrightarrow>
     (\<forall>st'. extract_information E reserved ps st = Inr st' \<longrightarrow> components_well_named st')"
proof (induction E ob and E xs and E items acc and E reserved ps st
    rule: serialize_sklearn_serialize_elements_serialize_items_extract_information.induct)
  case (1 E c params)
  have "list_all (\<lambda>kv. flow_free (snd kv)) (sort_key fst params)"
    if "list_all (\<lambda>kv. flow_free (snd kv)) params"
    using that by (simp add: list_all_iff)
  with 1 show ?case
    by (auto split: sum.splits dest: build_flow_well_named)
next
  case (2 E xs)
  then show ?case by (auto split: sum.splits)
next
  case (3 E xs)
  then show ?case by (auto split: sum.splits)
next
  case (9 E x)
  then show ?case by (auto simp: serialize_numpy_scalar_def split: obj.splits)
next
  case (18 E element rest)
  then show ?case by (auto split: sum.splits)
next
  case (22 E reserved k v rest st)
  show ?case
  proof (intro impI allI)
    fix st'
    assume ff: "list_all (\<lambda>kv. flow_free (snd kv)) ((k, v) # rest)"
      and wn: "components_well_named st"
      and r: "extract_information E reserved ((k, v) # rest) st = Inr st'"
    from r obtain rval st1 where
      1: "serialize_sklearn E v = Inr rval" and 2: "store_parameter E reserved k rval st = Inr st1"
      and 3: "extract_information E reserved rest st1 = Inr st'"
      by (auto split: sum.splits)
    from "22.IH"(1) ff 1 have "\<forall>f \<in> flows_of rval. well_named f" by simp
    from store_parameter_well_named[OF 2 wn this] have "components_well_named st1" .
    with "22.IH"(2)[OF 1 2] ff 3 show "components_well_named st'" by simp
  qed
qed (auto simp: serialize_type_def serialize_rv_frozen_def serialize_function_def
      serialize_cross_validator_def dict_items_def split: sum.splits obj.splits pytype.splits if_splits)


text \<open>
  Claim C2. \<open>_check_multiple_occurence_of_component_in_flow\<close> raises its \<open>ValueError\<close> exactly
  when a flow name occurs twice in the trees of the sub-components, at any depth and under
  any key, and returns otherwise. \<open>_serialize_model\<close> runs it on the sub-components it has
  extracted, so a model whose sub-components hold a name twice is refused with that error.
  The name of a flow is longer than the names of its components, so with the check a flow
  that \<open>model_to_flow\<close> returns has no name twice in its whole tree, the root included.
\<close>

theorem duplicate_component_check:
  "check_multiple_occurence_of_component_in_flow sub_components =
     (if distinct (forest_names (map snd sub_components)) then Inr ()
      else Inl (ValueError ''Found a second occurence of component'')) \<and>
   (extract_information E (map fst params) (sort_key fst params) empty_extracted = Inr st \<and>
    \<not> distinct (forest_names (map snd (ex_sub_components st))) \<longrightarrow>
      model_to_flow E (OEstimator c params) =
        Inl (ValueError ''Found a second occurence of component'')) \<and>
   (flow_free model \<and> model_to_flow E model = Inr (OFlow f) \<longrightarrow> distinct (component_names f))"
proof (intro conjI impI)
  show "check_multiple_occurence_of_component_in_flow sub_components =
     (if distinct (forest_names (map snd sub_components)) then Inr ()
      else Inl (ValueError ''Found a second occurence of component''))"
    by (rule check_distinct)
next
  assume "extract_information E (map fst params) (sort_key fst params) empty_extracted = Inr st \<and>
    \<not> distinct (forest_names (map snd (ex_sub_components st)))"
  then show "model_to_flow E (OEstimator c params) =
        Inl (ValueError ''Found a second occurence of component'')"
    by (simp add: model_to_flow_def build_flow_def check_distinct)
next
  assume "flow_free model \<and> model_to_flow E model = Inr (OFlow f)"
  with serialize_well_named(1)[of model E] have "well_named f"
    by (simp add: model_to_flow_def)
  then show "distinct (component_names f)"
    by (simp add: well_named_def)
qed

theorem duplicate_component_check_witness:
  "model_to_flow example_env twin_pipeline_model =
     Inl (ValueError ''Found a second occurence of component'') \<and>
   model_to_flow example_env pipeline_model \<noteq>
     Inl (ValueError ''Found a second occurence of component'') \<and>
   distinct (component_names boost_flow)"
proof -
  let ?params = "[(''memory'', ONone),
        (''steps'', OList [OTuple [OStr ''first'', tree_model], OTuple [OStr ''second'', tree_model]])]"
  have "case extract_information example_env (map fst ?params) (sort_key fst ?params) empty_extracted of
          Inl e \<Rightarrow> False
        | Inr st \<Rightarrow> map snd (ex_sub_components st) = [tree_flow, tree_flow]"
    by code_simp
  then obtain st where
    st: "extract_information example_env (map fst ?params) (sort_key fst ?params) empty_extracted = Inr st"
    and subs: "map snd (ex_sub_components st) = [tree_flow, tree_flow]"
    by (auto split: sum.splits)
  have d: "\<not> distinct (forest_names (map snd (ex_sub_components st)))"
    unfolding subs by code_simp
  have b: "flow_free boost_model" "model_to_flow example_env boost_model = Inr (OFlow boost_flow)"
    by code_simp+
  have p: "model_to_flow example_env pipeline_model \<noteq>
     Inl (ValueError ''Found a second occurence of component'')"
    by code_simp
  from duplicate_component_check[of _ example_env ?params st class_Pipeline boost_model boost_flow]
    st d b p
  show ?thesis
    by (simp add: twin_pipeline_model_def)
qed

end
